(* ===== verification/Prelude.thy ===== *)
theory Prelude
  imports
    "HOL-Library.Word"
    "HOL-Library.Char_ord"
    "HOL-Library.List_Lexorder"
    "HOL-Library.Sublist"
begin

text \<open>
  Shared vocabulary of the development. A Rust \<open>str\<close> is modelled as the list of its
  UTF-8 bytes (\<^typ>\<open>string\<close>, one \<^typ>\<open>char\<close> per byte), so \<open>len\<close> is
  \<^const>\<open>length\<close>, the byte-wise order of \<open>str\<close> is the lexicographic order of lists,
  and the operations that Rust defines on characters (\<open>chars\<close>, \<open>trim\<close>) go through
  \<open>utf8_chars\<close>, which groups a lead byte with its continuation bytes. The theory
  holds the string functions of the standard library that the program calls, decimal and
  hexadecimal rendering, and the lemmas about them that the components share.
\<close>

named_theorems ferry_defs \<open>defining equations of the straight-line operations\<close>

type_synonym u64 = "64 word"
type_synonym u16 = "16 word"
type_synonym u8 = "8 word"

section \<open>Substrings: prefixes, splitting, searching\<close>

definition starts_with :: "string \<Rightarrow> string \<Rightarrow> bool" where
  "starts_with pat s \<longleftrightarrow> take (length pat) s = pat"

definition strip_prefix :: "string \<Rightarrow> string \<Rightarrow> string option" where
  "strip_prefix pat s = (if starts_with pat s then Some (drop (length pat) s) else None)"

definition ends_with_char :: "char \<Rightarrow> string \<Rightarrow> bool" where
  "ends_with_char c s \<longleftrightarrow> s \<noteq> [] \<and> last s = c"

fun contains :: "string \<Rightarrow> string \<Rightarrow> bool" where
  "contains pat [] = (pat = [])"
| "contains pat (c # s) = (starts_with pat (c # s) \<or> contains pat s)"

text \<open>\<open>str::split\<close> on one character: always at least one segment.\<close>

fun split_on :: "char \<Rightarrow> string \<Rightarrow> string list" where
  "split_on c [] = [[]]"
| "split_on c (x # xs) =
     (if x = c then [] # split_on c xs
      else (case split_on c xs of [] \<Rightarrow> [[x]] | seg # segs \<Rightarrow> (x # seg) # segs))"

fun join_with :: "char \<Rightarrow> string list \<Rightarrow> string" where
  "join_with c [] = []"
| "join_with c [seg] = seg"
| "join_with c (seg # segs) = seg @ c # join_with c segs"

lemma starts_with_iff: "starts_with pat s \<longleftrightarrow> (\<exists>r. s = pat @ r)"
  by (metis append_eq_conv_conj starts_with_def)

lemma starts_with_append [simp]: "starts_with pat (pat @ s)"
  by (simp add: starts_with_def)

lemma strip_prefix_append [simp]: "strip_prefix pat (pat @ s) = Some s"
  by (simp add: strip_prefix_def)

lemma strip_prefix_Some_iff: "strip_prefix pat s = Some r \<longleftrightarrow> s = pat @ r"
  by (auto simp: strip_prefix_def starts_with_iff)

lemma contains_iff: "contains pat s \<longleftrightarrow> (\<exists>u v. s = u @ pat @ v)"
proof (induction s)
  case Nil
  then show ?case by simp
next
  case (Cons c s)
  show ?case
  proof
    assume "contains pat (c # s)"
    then consider "starts_with pat (c # s)" | "contains pat s" by auto
    then show "\<exists>u v. c # s = u @ pat @ v"
    proof cases
      case 1
      then show ?thesis by (metis append_Nil starts_with_iff)
    next
      case 2
      with Cons.IH obtain u v where "s = u @ pat @ v" by blast
      then have "c # s = (c # u) @ pat @ v" by simp
      then show ?thesis by blast
    qed
  next
    assume "\<exists>u v. c # s = u @ pat @ v"
    then obtain u v where uv: "c # s = u @ pat @ v" by blast
    show "contains pat (c # s)"
    proof (cases u)
      case Nil
      with uv show ?thesis by (metis append_Nil contains.simps(2) starts_with_iff)
    next
      case (Cons d u')
      with uv have "s = u' @ pat @ v" by simp
      with Cons.IH show ?thesis by auto
    qed
  qed
qed

lemma contains_trans: "contains pat s \<Longrightarrow> contains pat (u @ s @ v)"
  unfolding contains_iff by (metis append.assoc)

lemma split_on_not_Nil [simp]: "split_on c s \<noteq> []"
  by (induction s) (auto split: list.splits)

lemma join_split [simp]: "join_with c (split_on c s) = s"
proof (induction s)
  case Nil
  then show ?case by simp
next
  case (Cons x xs)
  then show ?case
    by (cases "split_on c xs"; cases "tl (split_on c xs)") auto
qed

lemma split_on_no_sep: "seg \<in> set (split_on c s) \<Longrightarrow> c \<notin> set seg"
  by (induction s arbitrary: seg) (auto split: list.splits if_splits)

lemma split_on_unused: "c \<notin> set s \<Longrightarrow> split_on c s = [s]"
  by (induction s) auto

lemma split_on_append_sep: "split_on c (a @ c # b) = split_on c a @ split_on c b"
  by (induction a) (auto split: list.splits)

lemma set_split_on: "seg \<in> set (split_on c s) \<Longrightarrow> set seg \<subseteq> set s"
  by (induction s arbitrary: seg) (fastforce split: list.splits if_splits)+

section \<open>Characters of a UTF-8 string\<close>

definition byte_val :: "char \<Rightarrow> nat" where
  "byte_val c = of_char c"

definition is_cont :: "char \<Rightarrow> bool" where
  "is_cont c \<longleftrightarrow> 128 \<le> byte_val c \<and> byte_val c < 192"

text \<open>
  \<open>str::chars\<close>: on a valid string every character is a lead byte followed by its
  continuation bytes, so the boundaries are exactly the bytes that are not continuation
  bytes.
\<close>

function utf8_chars :: "string \<Rightarrow> string list" where
  "utf8_chars [] = []"
| "utf8_chars (b # bs) = (b # takeWhile is_cont bs) # utf8_chars (dropWhile is_cont bs)"
  by pat_completeness auto
termination
  by (relation "measure length") (auto simp: le_imp_less_Suc length_dropWhile_le)

lemma concat_utf8_chars [simp]: "concat (utf8_chars s) = s"
  by (induction s rule: utf8_chars.induct) auto

lemma utf8_chars_eq_Nil [simp]: "utf8_chars s = [] \<longleftrightarrow> s = []"
  by (cases s) auto

lemma utf8_chars_nonempty: "ch \<in> set (utf8_chars s) \<Longrightarrow> ch \<noteq> []"
  by (induction s rule: utf8_chars.induct) auto

lemma length_utf8_chars_le: "length (utf8_chars s) \<le> length s"
proof (induction s rule: utf8_chars.induct)
  case (2 b bs)
  then show ?case using length_dropWhile_le [of is_cont bs] by simp
qed simp

lemma utf8_chars_append:
  "b = [] \<or> \<not> is_cont (hd b) \<Longrightarrow> utf8_chars (a @ b) = utf8_chars a @ utf8_chars b"
proof (induction a rule: utf8_chars.induct)
  case (2 x xs)
  show ?case
  proof (cases "\<forall>y \<in> set xs. is_cont y")
    case True
    with "2.prems" have "takeWhile is_cont (xs @ b) = xs" and "dropWhile is_cont (xs @ b) = b"
      by (cases b; simp add: takeWhile_append)+
    with True show ?thesis by (simp add: takeWhile_eq_all_conv [THEN iffD2])
  next
    case False
    with 2 show ?thesis by (auto simp: takeWhile_append dropWhile_append)
  qed
qed simp

lemma utf8_chars_single: "utf8_chars (b # takeWhile is_cont bs) = [b # takeWhile is_cont bs]"
proof -
  have "\<forall>c \<in> set (takeWhile is_cont bs). is_cont c" by (auto dest: set_takeWhileD)
  then show ?thesis by (simp add: takeWhile_eq_all_conv [THEN iffD2] dropWhile_eq_Nil_conv [THEN iffD2])
qed

lemma utf8_chars_concat_take: "utf8_chars (concat (take k (utf8_chars s))) = take k (utf8_chars s)"
proof (induction s arbitrary: k rule: utf8_chars.induct)
  case (2 b bs)
  show ?case
  proof (cases k)
    case (Suc j)
    let ?r = "concat (take j (utf8_chars (dropWhile is_cont bs)))"
    have "?r = [] \<or> \<not> is_cont (hd ?r)"
    proof (cases "dropWhile is_cont bs")
      case Nil
      then show ?thesis by (simp only: utf8_chars.simps) simp
    next
      case (Cons c cs)
      then have "\<not> is_cont c" by (metis hd_dropWhile list.sel(1) list.discI)
      with Cons show ?thesis by (cases j) auto
    qed
    then have "utf8_chars ((b # takeWhile is_cont bs) @ ?r)
        = utf8_chars (b # takeWhile is_cont bs) @ utf8_chars ?r"
      by (rule utf8_chars_append)
    with Suc "2.IH" show ?thesis by (simp add: utf8_chars_single del: utf8_chars.simps(2)) simp
  qed simp
qed simp

definition is_ascii :: "char \<Rightarrow> bool" where
  "is_ascii c \<longleftrightarrow> byte_val c < 128"

lemma is_ascii_not_cont: "is_ascii c \<Longrightarrow> \<not> is_cont c"
  by (simp add: is_ascii_def is_cont_def)

lemma utf8_chars_ascii: "\<forall>c \<in> set s. is_ascii c \<Longrightarrow> utf8_chars s = map (\<lambda>c. [c]) s"
proof (induction s)
  case (Cons c s)
  have "takeWhile is_cont s = []" and "dropWhile is_cont s = s"
    using Cons.prems by (cases s; simp add: is_ascii_not_cont)+
  with Cons show ?case by simp
qed simp


section \<open>UTF-8 validity and lossy decoding\<close>

definition second_ok :: "nat \<Rightarrow> nat \<Rightarrow> bool" where
  "second_ok b c =
     (if b = 0xE0 then 0xA0 \<le> c \<and> c \<le> 0xBF
      else if b = 0xED then 0x80 \<le> c \<and> c \<le> 0x9F
      else if b = 0xF0 then 0x90 \<le> c \<and> c \<le> 0xBF
      else if b = 0xF4 then 0x80 \<le> c \<and> c \<le> 0x8F
      else 0x80 \<le> c \<and> c \<le> 0xBF)"

definition cont_at :: "nat \<Rightarrow> string \<Rightarrow> bool" where
  "cont_at i s \<longleftrightarrow> i < length s \<and> is_cont (s ! i)"

text \<open>
  One decoding step on a non-empty byte string: whether its first sequence is a valid
  character, and how many bytes it takes (for an invalid one, the maximal valid prefix,
  as \<open>String::from_utf8_lossy\<close> skips).
\<close>

definition utf8_step :: "string \<Rightarrow> bool \<times> nat" where
  "utf8_step s =
     (case s of [] \<Rightarrow> (True, 0)
      | b # _ \<Rightarrow>
        (let v = byte_val b; second = (1 < length s \<and> second_ok v (byte_val (s ! 1))) in
         if v < 0x80 then (True, 1)
         else if 0xC2 \<le> v \<and> v \<le> 0xDF then
           (if cont_at 1 s then (True, 2) else (False, 1))
         else if 0xE0 \<le> v \<and> v \<le> 0xEF then
           (if \<not> second then (False, 1)
            else if \<not> cont_at 2 s then (False, 2) else (True, 3))
         else if 0xF0 \<le> v \<and> v \<le> 0xF4 then
           (if \<not> second then (False, 1)
            else if \<not> cont_at 2 s then (False, 2)
            else if \<not> cont_at 3 s then (False, 3) else (True, 4))
         else (False, 1)))"

definition valid_char :: "string \<Rightarrow> bool" where
  "valid_char ch \<longleftrightarrow> utf8_step ch = (True, length ch)"

definition utf8_valid :: "string \<Rightarrow> bool" where
  "utf8_valid s \<longleftrightarrow> list_all valid_char (utf8_chars s)"

text \<open>U+FFFD, the replacement character, as bytes.\<close>

definition replacement_char :: string where
  "replacement_char = map char_of [0xEF, 0xBF, 0xBD :: nat]"

lemma utf8_step_pos: "s \<noteq> [] \<Longrightarrow> 0 < snd (utf8_step s)"
  by (cases s) (auto simp: utf8_step_def Let_def)

function from_utf8_lossy :: "string \<Rightarrow> string" where
  "from_utf8_lossy s =
     (if s = [] then []
      else (if fst (utf8_step s) then take (snd (utf8_step s)) s else replacement_char)
           @ from_utf8_lossy (drop (snd (utf8_step s)) s))"
  by pat_completeness auto
termination
proof (relation "measure length")
  fix s :: string
  assume "s \<noteq> []"
  then show "(drop (snd (utf8_step s)) s, s) \<in> measure length"
    using utf8_step_pos [of s] by (cases s) auto
qed simp

declare from_utf8_lossy.simps [simp del]

lemma utf8_step_le_4: "snd (utf8_step s) \<le> 4"
  by (cases s) (auto simp: utf8_step_def Let_def)

lemma utf8_step_prefix:
  assumes step: "utf8_step ch = (True, length ch)" and ne: "ch \<noteq> []"
  shows "utf8_step (ch @ r) = (True, length ch)"
proof -
  have "length ch \<le> 4" using utf8_step_le_4 [of ch] step by simp
  then consider a where "ch = [a]" | a b where "ch = [a, b]" | a b c where "ch = [a, b, c]"
    | a b c d where "ch = [a, b, c, d]"
    using ne by (auto simp: length_Suc_conv le_Suc_eq numeral_eq_Suc)
  then show ?thesis
    using step by cases (auto simp: utf8_step_def Let_def cont_at_def split: if_splits)
qed

lemma valid_char_ascii: "is_ascii c \<Longrightarrow> valid_char [c]"
  by (simp add: valid_char_def utf8_step_def is_ascii_def)

lemma utf8_valid_ascii: "\<forall>c \<in> set s. is_ascii c \<Longrightarrow> utf8_valid s"
  by (auto simp: utf8_valid_def utf8_chars_ascii list_all_iff intro: valid_char_ascii)

lemma from_utf8_lossy_valid: "utf8_valid s \<Longrightarrow> from_utf8_lossy s = s"
proof (induction s rule: utf8_chars.induct)
  case 1
  then show ?case by (simp add: from_utf8_lossy.simps)
next
  case (2 b bs)
  let ?ch = "b # takeWhile is_cont bs" and ?r = "dropWhile is_cont bs"
  have v: "utf8_step ?ch = (True, length ?ch)" and r: "utf8_valid ?r"
    using "2.prems" by (auto simp: utf8_valid_def valid_char_def)
  have split: "b # bs = ?ch @ ?r" by simp
  have "utf8_step (b # bs) = (True, length ?ch)"
    using utf8_step_prefix [OF v, of ?r] by simp
  moreover have "take (length ?ch) (b # bs) = ?ch" and "drop (length ?ch) (b # bs) = ?r"
    by (metis split append_eq_conv_conj)+
  ultimately show ?case
    using "2.IH" [OF r] by (subst from_utf8_lossy.simps) simp
qed

section \<open>White space, trimming, case\<close>

text \<open>Unicode White\_Space, as UTF-8 sequences.\<close>

definition white_space :: "nat list list" where
  "white_space =
     [[9], [10], [11], [12], [13], [32], [0xC2, 0x85], [0xC2, 0xA0], [0xE1, 0x9A, 0x80],
      [0xE2, 0x80, 0xA8], [0xE2, 0x80, 0xA9], [0xE2, 0x80, 0xAF], [0xE2, 0x81, 0x9F],
      [0xE3, 0x80, 0x80]] @ map (\<lambda>i. [0xE2, 0x80, 0x80 + i]) [0..<11]"

definition is_whitespace :: "string \<Rightarrow> bool" where
  "is_whitespace ch \<longleftrightarrow> map byte_val ch \<in> set white_space"

definition trim :: "string \<Rightarrow> string" where
  "trim s = concat (rev (dropWhile is_whitespace (rev (dropWhile is_whitespace (utf8_chars s)))))"

lemma is_whitespace_single:
  "is_whitespace [c] \<longleftrightarrow> byte_val c \<in> {9, 10, 11, 12, 13, 32}"
  by (auto simp: is_whitespace_def white_space_def)

definition no_outer_space :: "string \<Rightarrow> bool" where
  "no_outer_space s \<longleftrightarrow>
     (s \<noteq> [] \<longrightarrow> \<not> is_whitespace (hd (utf8_chars s)) \<and> \<not> is_whitespace (last (utf8_chars s)))"

lemma trim_id: "no_outer_space s \<Longrightarrow> trim s = s"
proof (cases "s = []")
  case False
  assume "no_outer_space s"
  with False have h: "\<not> is_whitespace (hd (utf8_chars s))"
    and l: "\<not> is_whitespace (last (utf8_chars s))" by (simp_all add: no_outer_space_def)
  have ne: "utf8_chars s \<noteq> []" using False by simp
  from h ne have 1: "dropWhile is_whitespace (utf8_chars s) = utf8_chars s"
    by (cases "utf8_chars s") auto
  from l ne have 2: "dropWhile is_whitespace (rev (utf8_chars s)) = rev (utf8_chars s)"
    by (cases "utf8_chars s" rule: rev_cases) auto
  show ?thesis by (simp add: trim_def 1 2)
qed (simp add: trim_def)

lemma trim_Nil [simp]: "trim [] = []"
  by (simp add: trim_def)

lemma trim_substring: "\<exists>u v. s = u @ trim s @ v"
proof -
  let ?c = "utf8_chars s" and ?P = is_whitespace
  have a: "?c = takeWhile ?P ?c @ dropWhile ?P ?c" by simp
  define d where "d = dropWhile ?P ?c"
  have b: "d = rev (dropWhile ?P (rev d)) @ rev (takeWhile ?P (rev d))"
    by (metis rev_append rev_rev_ident takeWhile_dropWhile_id)
  have "s = concat ?c" by simp
  also have "\<dots> = concat (takeWhile ?P ?c) @ concat (rev (dropWhile ?P (rev d)))
                 @ concat (rev (takeWhile ?P (rev d)))"
    using a b d_def by (metis concat_append)
  finally show ?thesis unfolding trim_def d_def by blast
qed

definition ascii_lower :: "char \<Rightarrow> char" where
  "ascii_lower c = (if CHR ''A'' \<le> c \<and> c \<le> CHR ''Z'' then char_of (byte_val c + 32) else c)"

definition to_ascii_lowercase :: "string \<Rightarrow> string" where
  "to_ascii_lowercase s = map ascii_lower s"

definition is_ascii_digit :: "char \<Rightarrow> bool" where
  "is_ascii_digit c \<longleftrightarrow> CHR ''0'' \<le> c \<and> c \<le> CHR ''9''"

definition is_ascii_alphanumeric :: "char \<Rightarrow> bool" where
  "is_ascii_alphanumeric c \<longleftrightarrow>
     is_ascii_digit c \<or> (CHR ''a'' \<le> c \<and> c \<le> CHR ''z'') \<or> (CHR ''A'' \<le> c \<and> c \<le> CHR ''Z'')"

definition is_ascii_hexdigit :: "char \<Rightarrow> bool" where
  "is_ascii_hexdigit c \<longleftrightarrow>
     is_ascii_digit c \<or> (CHR ''a'' \<le> c \<and> c \<le> CHR ''f'') \<or> (CHR ''A'' \<le> c \<and> c \<le> CHR ''F'')"

lemma length_to_ascii_lowercase [simp]: "length (to_ascii_lowercase s) = length s"
  by (simp add: to_ascii_lowercase_def)

lemma char_range: "a \<le> c \<and> c \<le> b \<longleftrightarrow> byte_val a \<le> byte_val c \<and> byte_val c \<le> byte_val b"
  by (simp add: less_eq_char_def byte_val_def)

lemma is_ascii_alphanumeric_ascii: "is_ascii_alphanumeric c \<Longrightarrow> is_ascii c"
  unfolding is_ascii_alphanumeric_def is_ascii_digit_def is_ascii_def char_range
  by (auto simp: byte_val_def)

lemma is_ascii_hexdigit_ascii: "is_ascii_hexdigit c \<Longrightarrow> is_ascii c"
  unfolding is_ascii_hexdigit_def is_ascii_digit_def is_ascii_def char_range
  by (auto simp: byte_val_def)

lemma byte_val_less: "byte_val c < 256"
  by (simp add: byte_val_def)

lemma byte_val_char_of: "n < 256 \<Longrightarrow> byte_val (char_of n) = n"
  by (simp add: byte_val_def)

section \<open>Rendering numbers\<close>

definition digit :: "nat \<Rightarrow> char" where
  "digit d = char_of (48 + d)"

function dec :: "nat \<Rightarrow> string" where
  "dec n = (if n < 10 then [digit n] else dec (n div 10) @ [digit (n mod 10)])"
  by pat_completeness auto
termination
  by (relation "measure id") auto

declare dec.simps [simp del]

definition pad_left :: "nat \<Rightarrow> string \<Rightarrow> string" where
  "pad_left w s = replicate (w - length s) CHR ''0'' @ s"

definition hex_digit :: "nat \<Rightarrow> char" where
  "hex_digit d = (if d < 10 then char_of (48 + d) else char_of (87 + d))"

text \<open>\<open>{:0wx}\<close> for a value below \<open>16 ^ w\<close>.\<close>

fun hex_fixed :: "nat \<Rightarrow> nat \<Rightarrow> string" where
  "hex_fixed 0 n = []"
| "hex_fixed (Suc w) n = hex_fixed w (n div 16) @ [hex_digit (n mod 16)]"

lemma length_hex_fixed [simp]: "length (hex_fixed w n) = w"
  by (induction w arbitrary: n) auto

lemma hex_digit_hexdigit: "d < 16 \<Longrightarrow> is_ascii_hexdigit (hex_digit d)"
  unfolding is_ascii_hexdigit_def is_ascii_digit_def char_range hex_digit_def
  by (auto simp: byte_val_def)

lemma set_hex_fixed: "c \<in> set (hex_fixed w n) \<Longrightarrow> is_ascii_hexdigit c"
  by (induction w arbitrary: n) (auto intro: hex_digit_hexdigit)

lemma set_dec: "c \<in> set (dec n) \<Longrightarrow> is_ascii_digit c"
proof (induction n rule: dec.induct)
  case (1 n)
  have d: "is_ascii_digit (digit k)" if "k < 10" for k
    unfolding is_ascii_digit_def char_range digit_def using that by (auto simp: byte_val_def)
  show ?case
  proof (cases "n < 10")
    case True
    with 1 d show ?thesis by (simp add: dec.simps [of n])
  next
    case False
    with "1.prems" consider "c \<in> set (dec (n div 10))" | "c = digit (n mod 10)"
      by (auto simp: dec.simps [of n])
    then show ?thesis using "1.IH" [OF False] d by cases auto
  qed
qed

lemma dec_not_Nil [simp]: "dec n \<noteq> []"
  by (subst dec.simps) simp

section \<open>Truthy environment values\<close>

text \<open>The convention \<open>offline_from_env\<close> and \<open>admin_enabled_from_env\<close> share.\<close>

definition env_truthy :: "string \<Rightarrow> bool" where
  "env_truthy v \<longleftrightarrow> to_ascii_lowercase (trim v) \<in> {''1'', ''true'', ''yes''}"

end
