(* ===== verification/RustPath.thy ===== *)
theory RustPath
  imports Prelude
begin

text \<open>
  The parts of \<open>std::path\<close> (Unix) that the file-system backend uses. A \<open>PathBuf\<close> is
  its bytes; two paths are equal when their components are. \<open>components\<close> drops empty
  segments and every \<open>.\<close> but a leading one, and keeps \<open>..\<close>.
\<close>

datatype component = RootDir | CurDir | ParentDir | Normal string

definition is_absolute :: "string \<Rightarrow> bool" where
  "is_absolute p \<longleftrightarrow> p \<noteq> [] \<and> hd p = CHR ''/''"

definition segments :: "string \<Rightarrow> string list" where
  "segments p = filter (\<lambda>seg. seg \<noteq> []) (split_on CHR ''/'' p)"

definition component_of :: "string \<Rightarrow> component" where
  "component_of seg = (if seg = ''..'' then ParentDir else Normal seg)"

definition body_components :: "string list \<Rightarrow> component list" where
  "body_components segs = map component_of (filter (\<lambda>seg. seg \<noteq> ''.'') segs)"

definition components :: "string \<Rightarrow> component list" where
  "components p =
     (if is_absolute p then RootDir # body_components (segments p)
      else (case split_on CHR ''/'' p of
              seg # _ \<Rightarrow> (if seg = ''.'' then [CurDir] else [])
            | [] \<Rightarrow> []) @ body_components (segments p))"

definition path_eq :: "string \<Rightarrow> string \<Rightarrow> bool" where
  "path_eq p q \<longleftrightarrow> components p = components q"

text \<open>\<open>PathBuf::join\<close>: an absolute argument replaces the path.\<close>

definition path_join :: "string \<Rightarrow> string \<Rightarrow> string" where
  "path_join root p =
     (if is_absolute p then p
      else if root = [] \<or> last root = CHR ''/'' then root @ p
      else root @ CHR ''/'' # p)"

text \<open>
  \<open>Path::parent\<close> on components: \<open>None\<close> for the root and for the empty path.
  \<open>Path::ancestors\<close>: the path itself, then parent after parent.
\<close>

definition parent_components :: "component list \<Rightarrow> component list option" where
  "parent_components cs = (if cs = [] \<or> cs = [RootDir] then None else Some (butlast cs))"

function ancestors_of :: "component list \<Rightarrow> component list list" where
  "ancestors_of cs =
     cs # (case parent_components cs of None \<Rightarrow> [] | Some p \<Rightarrow> ancestors_of p)"
  by pat_completeness auto
termination
  by (relation "measure length") (auto simp: parent_components_def split: if_splits)

declare ancestors_of.simps [simp del]

lemma ancestors_of_self [simp]: "cs \<in> set (ancestors_of cs)"
  by (subst ancestors_of.simps) simp

lemma ancestors_of_snoc:
  "cs \<noteq> [] \<or> c \<noteq> RootDir \<Longrightarrow> ancestors_of (cs @ [c]) = (cs @ [c]) # ancestors_of cs"
  by (subst ancestors_of.simps) (auto simp: parent_components_def)

lemma ancestors_of_prefix:
  "cs \<noteq> [] \<or> RootDir \<notin> set ds \<Longrightarrow> cs \<in> set (ancestors_of (cs @ ds))"
proof (induction ds rule: rev_induct)
  case (snoc d ds)
  then have "cs @ ds \<noteq> [] \<or> d \<noteq> RootDir" by auto
  then have "ancestors_of (cs @ ds @ [d]) = (cs @ ds @ [d]) # ancestors_of (cs @ ds)"
    using ancestors_of_snoc [of "cs @ ds" d] by simp
  moreover have "cs \<noteq> [] \<or> RootDir \<notin> set ds" using snoc.prems by auto
  ultimately show ?case using snoc.IH by simp
qed simp

lemma ancestors_of_imp_prefix: "a \<in> set (ancestors_of cs) \<Longrightarrow> prefix a cs"
proof (induction cs rule: ancestors_of.induct)
  case (1 cs)
  show ?case
  proof (cases "a = cs")
    case False
    with "1.prems" obtain p where p: "parent_components cs = Some p" "a \<in> set (ancestors_of p)"
      by (cases "parent_components cs") (auto simp: ancestors_of.simps [of cs])
    then have "prefix a p" using "1.IH" by simp
    moreover have "prefix p cs"
      using p(1) by (auto simp: parent_components_def prefixeq_butlast split: if_splits)
    ultimately show ?thesis by (rule prefix_order.trans)
  qed simp
qed

lemma body_components_append [simp]:
  "body_components (a @ b) = body_components a @ body_components b"
  by (simp add: body_components_def)

lemma RootDir_notin_body [simp]: "RootDir \<notin> set (body_components segs)"
  by (auto simp: body_components_def component_of_def split: if_splits)

lemma segments_append_slash: "segments (a @ CHR ''/'' # b) = segments a @ segments b"
  by (simp add: segments_def split_on_append_sep)

lemma segments_slash: "segments (CHR ''/'' # b) = segments b"
  by (simp add: segments_def)

lemma segments_no_slash: "seg \<in> set (segments p) \<Longrightarrow> CHR ''/'' \<notin> set seg \<and> seg \<noteq> []"
  by (auto simp: segments_def dest: split_on_no_sep)

lemma split_on_hd_append:
  "a \<noteq> [] \<Longrightarrow> hd (split_on c (a @ c # b)) = hd (split_on c a)"
  by (simp add: split_on_append_sep)

text \<open>Joining a relative path to a root: the segments of both, in order.\<close>

lemma path_join_cases:
  assumes "\<not> is_absolute p" "root \<noteq> []"
  obtains a where "path_join root p = a @ CHR ''/'' # p"
    "root = a @ ''/'' \<or> root = a \<and> last root \<noteq> CHR ''/''"
proof (cases "last root = CHR ''/''")
  case True
  then have "root = butlast root @ ''/''" using assms(2) by (metis append_butlast_last_id)
  with True assms show ?thesis
    by (intro that [of "butlast root"]) (auto simp: path_join_def)
next
  case False
  with assms show ?thesis by (intro that [of root]) (auto simp: path_join_def)
qed

lemma segments_join:
  assumes "\<not> is_absolute p"
  shows "segments (path_join root p) = segments root @ segments p"
proof (cases "root = []")
  case True
  with assms show ?thesis by (simp add: path_join_def segments_def)
next
  case False
  with assms obtain a where a: "path_join root p = a @ CHR ''/'' # p"
    "root = a @ ''/'' \<or> root = a \<and> last root \<noteq> CHR ''/''" by (rule path_join_cases)
  have "segments (a @ ''/'') = segments a" using segments_append_slash [of a "[]"]
    by (simp add: segments_def)
  with a show ?thesis by (auto simp: segments_append_slash)
qed

lemma is_absolute_join: "\<not> is_absolute p \<Longrightarrow> root \<noteq> [] \<Longrightarrow>
    is_absolute (path_join root p) = is_absolute root"
  by (cases root) (auto simp: path_join_def is_absolute_def)

lemma components_join_prefix:
  assumes "\<not> is_absolute p" "root \<noteq> []"
  shows "components (path_join root p) = components root @ body_components (segments p)"
proof -
  obtain a where a: "path_join root p = a @ CHR ''/'' # p"
    "root = a @ ''/'' \<or> root = a \<and> last root \<noteq> CHR ''/''" using assms by (rule path_join_cases)
  have h: "hd (split_on CHR ''/'' (path_join root p)) = hd (split_on CHR ''/'' root)"
    using a assms(2) by (auto simp: split_on_append_sep)
  have hd_case: "(case split_on CHR ''/'' q of seg # _ \<Rightarrow> f seg | [] \<Rightarrow> z) = f (hd (split_on CHR ''/'' q))"
    for q and f :: "string \<Rightarrow> component list" and z
    by (cases "split_on CHR ''/'' q") auto
  show ?thesis
    using assms by (simp add: components_def is_absolute_join segments_join hd_case h)
qed

text \<open>
  A relative path, whatever its segments, always has the root among the ancestors of the
  joined path: \<open>..\<close> is a component like any other to \<open>ancestors\<close>.
\<close>

lemma root_among_ancestors:
  assumes "\<not> is_absolute p"
  shows "components root \<in> set (ancestors_of (components (path_join root p)))"
proof (cases "root = []")
  case False
  with assms show ?thesis
    by (simp add: components_join_prefix ancestors_of_prefix)
next
  case True
  have "RootDir \<notin> set (components p)"
    using assms by (auto simp: components_def split: list.splits if_splits)
  then have "[] \<in> set (ancestors_of (components p))"
    using ancestors_of_prefix [of "[]" "components p"] by simp
  moreover have "components [] = []"
    by (simp add: components_def segments_def body_components_def is_absolute_def)
  ultimately show ?thesis using True assms by (simp add: path_join_def)
qed

end
