(* ===== verification/Model.thy ===== *)
theory Model
  imports Prelude
begin

text \<open>
  The data of \<open>src/model.rs\<close>: the storage types, the metadata of a listed file, the
  envelope of a list response and the two request shapes, with the JSON values the
  \<open>serde\<close> attributes of those structs describe (field names, and the field that is
  skipped when absent). Decoding requests is \<open>serde\<close>'s own code and enters the router
  as a parameter. Byte counts of files are 64-bit words (\<open>u64\<close>), list limits and counts
  (\<open>usize\<close>) are natural numbers: the program only compares them.
\<close>

datatype StorageType = Fs | S3

primrec as_str :: "StorageType \<Rightarrow> string" where
  "as_str Fs = ''FS''"
| "as_str S3 = ''S3''"

text \<open>The derived \<open>Debug\<close> of the enum: the name of the variant.\<close>

primrec storage_debug :: "StorageType \<Rightarrow> string" where
  "storage_debug Fs = ''Fs''"
| "storage_debug S3 = ''S3''"

lemma as_str_inj: "as_str a = as_str b \<longleftrightarrow> a = b"
  by (cases a; cases b) auto

record FileEntry =
  fe_name :: string
  fe_size :: u64
  fe_last_modified :: "string option"

record ListFilesMeta =
  meta_count :: nat
  meta_next_cursor :: "string option"

record ListFilesResponse =
  lfr_data :: "FileEntry list"
  lfr_meta :: ListFilesMeta

record ListFilesQuery =
  lfq_storage_type :: StorageType
  lfq_limit :: "nat option"
  lfq_start_after :: "string option"

record CopyFileRequest =
  source_storage_type :: StorageType
  source_file_path :: string
  destination_storage_type :: StorageType
  destination_file_path :: string

section \<open>JSON values\<close>

datatype json =
    JNull
  | JBool bool
  | JNum nat
  | JStr string
  | JArr "json list"
  | JObj "(string \<times> json) list"

fun json_field :: "string \<Rightarrow> json \<Rightarrow> json option" where
  "json_field k (JObj kvs) = map_of kvs k"
| "json_field k _ = None"

fun json_opt_str :: "string option \<Rightarrow> json" where
  "json_opt_str None = JNull"
| "json_opt_str (Some s) = JStr s"

definition file_entry_json :: "FileEntry \<Rightarrow> json" where
  "file_entry_json e =
     JObj [(''name'', JStr (fe_name e)), (''size'', JNum (unat (fe_size e))),
           (''lastModified'', json_opt_str (fe_last_modified e))]"

definition list_files_meta_json :: "ListFilesMeta \<Rightarrow> json" where
  "list_files_meta_json m =
     JObj ((''count'', JNum (meta_count m)) #
           (case meta_next_cursor m of None \<Rightarrow> [] | Some c \<Rightarrow> [(''nextCursor'', JStr c)]))"

definition list_files_response_json :: "ListFilesResponse \<Rightarrow> json" where
  "list_files_response_json r =
     JObj [(''data'', JArr (map file_entry_json (lfr_data r))),
           (''meta'', list_files_meta_json (lfr_meta r))]"

lemma json_next_cursor:
  "json_field ''nextCursor'' (list_files_meta_json m) = map_option JStr (meta_next_cursor m)"
  by (cases "meta_next_cursor m") (auto simp: list_files_meta_json_def)

end
