(* ===== verification/Error.thy ===== *)
theory Error
  imports Model
begin

text \<open>
  \<open>src/error.rs\<close>: the error type, its HTTP status and machine-readable code, the text
  of each variant (the \<open>#[error]\<close> attributes), the clipping of user-controlled text
  and the response an error turns into, with the log events it emits. \<open>std::io::Error\<close>
  is an operating-system error number, with its \<open>libc\<close> message, or a custom message.
\<close>

section \<open>I/O errors\<close>

datatype errno = ENOENT | ENOTDIR | EISDIR | ELOOP | EEXIST | EINVAL | EOTHER nat

primrec errno_code :: "errno \<Rightarrow> nat" where
  "errno_code ENOENT = 2"
| "errno_code ENOTDIR = 20"
| "errno_code EISDIR = 21"
| "errno_code ELOOP = 40"
| "errno_code EEXIST = 17"
| "errno_code EINVAL = 22"
| "errno_code (EOTHER n) = n"

primrec strerror :: "errno \<Rightarrow> string" where
  "strerror ENOENT = ''No such file or directory''"
| "strerror ENOTDIR = ''Not a directory''"
| "strerror EISDIR = ''Is a directory''"
| "strerror ELOOP = ''Too many levels of symbolic links''"
| "strerror EEXIST = ''File exists''"
| "strerror EINVAL = ''Invalid argument''"
| "strerror (EOTHER n) = ''OS error''"

datatype io_error = Os errno | Other string

text \<open>\<open>io::Error::kind() == ErrorKind::NotFound\<close> and \<open>raw_os_error()\<close>.\<close>

definition kind_not_found :: "io_error \<Rightarrow> bool" where
  "kind_not_found e \<longleftrightarrow> e = Os ENOENT"

primrec raw_os_error :: "io_error \<Rightarrow> nat option" where
  "raw_os_error (Os e) = Some (errno_code e)"
| "raw_os_error (Other s) = None"

primrec io_display :: "io_error \<Rightarrow> string" where
  "io_display (Os e) = strerror e @ '' (os error '' @ dec (errno_code e) @ '')''"
| "io_display (Other s) = s"

section \<open>Clipping\<close>

definition MAX_USER_MESSAGE_LEN :: nat where
  "MAX_USER_MESSAGE_LEN = 256"

definition clip_user_message :: "string \<Rightarrow> string" where
  "clip_user_message s =
     (let count = length (utf8_chars s) in
      if count \<le> MAX_USER_MESSAGE_LEN then s
      else (let keep = MAX_USER_MESSAGE_LEN - 3 in
            concat (take keep (utf8_chars s)) @ ''...''))"

section \<open>The error type\<close>

datatype FerryError =
    InvalidPath string
  | SameStorageType
  | BackendNotConfigured StorageType
  | NotFound string
  | TransferTooLarge u64
  | ListLimitTooLarge nat
  | BadQuery string
  | BadBody string
  | BodyTooLarge nat
  | BodyReadTimeout
  | Upstream string
  | Io io_error
  | Internal string

type_synonym 'a res = "FerryError + 'a"

primrec display :: "FerryError \<Rightarrow> string" where
  "display (InvalidPath m) = ''path is not valid: '' @ m"
| "display SameStorageType = ''source and destination storage types must differ''"
| "display (BackendNotConfigured k) =
     ''storage backend '' @ storage_debug k @ '' is not configured''"
| "display (NotFound p) = ''file not found''"
| "display (TransferTooLarge cap) =
     ''transfer exceeded configured size cap of '' @ dec (unat cap) @ '' bytes''"
| "display (ListLimitTooLarge cap) =
     ''requested list limit exceeds server cap of '' @ dec cap"
| "display (BadQuery m) = ''invalid query string: '' @ m"
| "display (BadBody m) = ''invalid request body: '' @ m"
| "display (BodyTooLarge cap) =
     ''request body exceeds server cap of '' @ dec cap @ '' bytes''"
| "display BodyReadTimeout = ''timed out waiting for request body''"
| "display (Upstream m) = ''upstream storage error: '' @ m"
| "display (Io e) = ''i/o error: '' @ io_display e"
| "display (Internal m) = ''internal error: '' @ m"

primrec status :: "FerryError \<Rightarrow> nat" where
  "status (InvalidPath m) = 400"
| "status SameStorageType = 400"
| "status (BadQuery m) = 400"
| "status (BadBody m) = 400"
| "status (BackendNotConfigured k) = 503"
| "status (NotFound p) = 404"
| "status (TransferTooLarge cap) = 413"
| "status (ListLimitTooLarge cap) = 413"
| "status (BodyTooLarge cap) = 413"
| "status BodyReadTimeout = 408"
| "status (Upstream m) = 502"
| "status (Io e) = 500"
| "status (Internal m) = 500"

primrec code :: "FerryError \<Rightarrow> string" where
  "code (InvalidPath m) = ''invalid_path''"
| "code SameStorageType = ''same_storage_type''"
| "code (BackendNotConfigured k) = ''backend_not_configured''"
| "code (NotFound p) = ''not_found''"
| "code (TransferTooLarge cap) = ''transfer_too_large''"
| "code (ListLimitTooLarge cap) = ''list_limit_too_large''"
| "code (BadQuery m) = ''bad_query''"
| "code (BadBody m) = ''bad_body''"
| "code (BodyTooLarge cap) = ''body_too_large''"
| "code BodyReadTimeout = ''body_read_timeout''"
| "code (Upstream m) = ''upstream_error''"
| "code (Io e) = ''io_error''"
| "code (Internal m) = ''internal_error''"

section \<open>Responses and log events\<close>

datatype body = EmptyBody | JsonBody json

record response =
  r_status :: nat
  r_headers :: "(string \<times> string) list"
  r_body :: body

datatype level = DEBUG | INFO | WARN

record log_event =
  ev_level :: level
  ev_message :: string
  ev_fields :: "(string \<times> string) list"

definition status_response :: "nat \<Rightarrow> response" where
  "status_response st = \<lparr>r_status = st, r_headers = [], r_body = EmptyBody\<rparr>"

definition json_response :: "nat \<Rightarrow> json \<Rightarrow> response" where
  "json_response st j =
     \<lparr>r_status = st, r_headers = [(''content-type'', ''application/json'')], r_body = JsonBody j\<rparr>"

definition is_server_error :: "nat \<Rightarrow> bool" where
  "is_server_error st \<longleftrightarrow> 500 \<le> st \<and> st < 600"

definition error_body :: "string \<Rightarrow> string \<Rightarrow> json" where
  "error_body c m = JObj [(''error'', JStr c), (''message'', JStr m)]"

definition into_response :: "FerryError \<Rightarrow> response \<times> log_event list" where
  "into_response e =
     (let st = status e;
          message = clip_user_message (display e);
          ev = (case e of
                  NotFound path \<Rightarrow>
                    \<lparr>ev_level = WARN, ev_message = ''request rejected: file not found'',
                     ev_fields = [(''error.code'', code e),
                                  (''requested_path'', clip_user_message path)]\<rparr>
                | _ \<Rightarrow>
                    if is_server_error st then
                      \<lparr>ev_level = WARN, ev_message = ''request failed'',
                       ev_fields = [(''error.code'', code e), (''error.message'', message)]\<rparr>
                    else
                      \<lparr>ev_level = DEBUG, ev_message = ''request rejected'',
                       ev_fields = [(''error.code'', code e), (''error.message'', message)]\<rparr>)
      in (json_response st (error_body (code e) message), [ev]))"


section \<open>Clipped text\<close>

lemma utf8_chars_dots:
  "utf8_chars (concat (take k (utf8_chars s)) @ ''...'') = take k (utf8_chars s) @ [''.'', ''.'', ''.'']"
proof -
  have "utf8_chars ''...'' = [''.'', ''.'', ''.'']"
    by (simp add: is_cont_def byte_val_def)
  moreover have "\<not> is_cont (hd ''...'')" by (simp add: is_cont_def byte_val_def)
  ultimately show ?thesis by (simp add: utf8_chars_append utf8_chars_concat_take)
qed

lemma utf8_chars_clip:
  "utf8_chars (clip_user_message s) =
     (if length (utf8_chars s) \<le> 256 then utf8_chars s
      else take 253 (utf8_chars s) @ [''.'', ''.'', ''.''])"
  unfolding clip_user_message_def MAX_USER_MESSAGE_LEN_def Let_def
  using utf8_chars_dots [of 253 s] by simp

lemma clip_short: "length (utf8_chars s) \<le> 256 \<Longrightarrow> clip_user_message s = s"
  by (simp add: clip_user_message_def MAX_USER_MESSAGE_LEN_def)

lemma clip_length: "length (utf8_chars (clip_user_message s)) \<le> 256"
  by (simp add: utf8_chars_clip)

lemma clip_valid: "utf8_valid s \<Longrightarrow> utf8_valid (clip_user_message s)"
proof -
  assume v: "utf8_valid s"
  have dot: "valid_char ''.''"
    by (rule valid_char_ascii) (simp add: is_ascii_def byte_val_def)
  show ?thesis
    using v dot by (auto simp: utf8_valid_def utf8_chars_clip list_all_iff dest: in_set_takeD)
qed

lemma clip_idem: "clip_user_message (clip_user_message s) = clip_user_message s"
  by (rule clip_short) (rule clip_length)

lemma clip_long_length:
  "256 < length (utf8_chars s) \<Longrightarrow> length (utf8_chars (clip_user_message s)) = 256"
  by (simp add: utf8_chars_clip)

section \<open>The error response\<close>

lemma into_response_status: "r_status (fst (into_response e)) = status e"
  by (simp add: into_response_def Let_def json_response_def)

lemma into_response_body:
  "r_body (fst (into_response e)) =
     JsonBody (error_body (code e) (clip_user_message (display e)))"
  by (simp add: into_response_def Let_def json_response_def)

lemma into_response_headers: "r_headers (fst (into_response e)) = [(''content-type'', ''application/json'')]"
  by (simp add: into_response_def Let_def json_response_def)

lemma status_client_or_server: "400 \<le> status e \<and> status e < 600"
  by (cases e) auto

text \<open>The machine-readable code determines the status: clients may key on the code.\<close>

lemma code_determines_status: "code e = code e' \<Longrightarrow> status e = status e'"
  by (cases e; cases e') auto

lemma json_field_error_body [simp]:
  "json_field ''error'' (error_body c m) = Some (JStr c)"
  "json_field ''message'' (error_body c m) = Some (JStr m)"
  by (simp_all add: error_body_def)

section \<open>Properties\<close>

text \<open>
  Whatever the error, the client gets a JSON object with the error's code and a message
  of at most 256 characters, under a 4xx or 5xx status from a fixed set, and exactly one
  log event, at WARN for server errors and for a missing file and at DEBUG otherwise.
\<close>

theorem error_response_shape:
  "\<exists>m ev. into_response e =
     (\<lparr>r_status = status e, r_headers = [(''content-type'', ''application/json'')],
       r_body = JsonBody (JObj [(''error'', JStr (code e)), (''message'', JStr m)])\<rparr>, [ev]) \<and>
     length (utf8_chars m) \<le> MAX_USER_MESSAGE_LEN \<and>
     status e \<in> {400, 404, 408, 413, 500, 502, 503} \<and>
     ev_level ev = (if status e = 404 \<or> is_server_error (status e) then WARN else DEBUG)"
  by (cases e)
    (simp_all add: into_response_def Let_def json_response_def error_body_def clip_length
      MAX_USER_MESSAGE_LEN_def is_server_error_def)

text \<open>
  C18: Clipping keeps text valid UTF-8: the cut falls between characters. Short text is
  untouched, longer text becomes its first 253 characters and three dots.
\<close>

theorem clip_keeps_utf8:
  assumes "utf8_valid s"
  shows "utf8_valid (clip_user_message s) \<and>
    clip_user_message s = (if length (utf8_chars s) \<le> 256 then s
                           else concat (take 253 (utf8_chars s)) @ ''...'')"
  using assms clip_valid [of s]
  by (simp add: clip_user_message_def MAX_USER_MESSAGE_LEN_def Let_def)

lemma clip_keeps_utf8_witness:
  "utf8_valid [CHR 0xC3, CHR 0xA9] \<and> utf8_valid (clip_user_message [CHR 0xC3, CHR 0xA9])"
proof -
  have "utf8_valid [CHR 0xC3, CHR 0xA9]" by code_simp
  with clip_keeps_utf8 [of "[CHR 0xC3, CHR 0xA9]"] show ?thesis by blast
qed

text \<open>
  C19: The answer to a missing file does not depend on the path that was asked for, so it
  carries none of the caller's input; the log event carries at most 256 characters of it.
\<close>

theorem not_found_hides_path:
  "fst (into_response (NotFound p)) = fst (into_response (NotFound q)) \<and>
   (\<exists>logged. snd (into_response (NotFound p)) =
      [\<lparr>ev_level = WARN, ev_message = ''request rejected: file not found'',
        ev_fields = [(''error.code'', ''not_found''), (''requested_path'', logged)]\<rparr>] \<and>
      length (utf8_chars logged) \<le> 256)"
  by (simp add: into_response_def Let_def is_server_error_def clip_length)

end
