(* ===== verification/Kernel.thy ===== *)
theory Kernel
  imports RustPath Error "HOL-Library.AList"
begin

text \<open>
  The file system behind \<open>std::fs\<close>, as much of it as the file-system backend can observe:
  a tree of regular files, directories, symbolic links and special files, addressed by
  absolute lists of names; path resolution with links, \<open>.\<close> and \<open>..\<close>; and the system
  calls \<open>lstat\<close>, \<open>stat\<close>, \<open>realpath\<close>, \<open>mkdir\<close>, \<open>open\<close> with \<open>O_NOFOLLOW\<close> and
  \<open>readdir\<close>. Every other reason the system has to refuse a call (permissions, limits,
  quotas, media errors) is the oracle \<open>fault\<close>. Hard links are left out. The order of
  \<open>nodes\<close> is the order in which \<open>readdir\<close> returns entries.
\<close>

datatype node = File string int | Dir | Symlink string | Special string

datatype syscall = SysLstat | SysStat | SysRealpath | SysMkdir | SysOpenRead | SysOpenWrite
  | SysReadDir

text \<open>A path as the kernel sees it: absolute or not, its names, and a trailing slash.\<close>

record kpath =
  kp_abs :: bool
  kp_names :: "string list"
  kp_trailing :: bool

record fsys =
  nodes :: "(string list \<times> node) list"
  cwd :: "string list"
  now :: int
  fault :: "syscall \<Rightarrow> kpath \<Rightarrow> errno option"

definition kpath_of :: "string \<Rightarrow> kpath" where
  "kpath_of p = \<lparr>kp_abs = is_absolute p, kp_names = segments p,
                 kp_trailing = (segments p \<noteq> [] \<and> last p = CHR ''/'')\<rparr>"

fun component_names :: "component list \<Rightarrow> string list" where
  "component_names [] = []"
| "component_names (RootDir # cs) = component_names cs"
| "component_names (CurDir # cs) = ''.'' # component_names cs"
| "component_names (ParentDir # cs) = ''..'' # component_names cs"
| "component_names (Normal seg # cs) = seg # component_names cs"

definition kpath_of_components :: "component list \<Rightarrow> kpath" where
  "kpath_of_components cs =
     \<lparr>kp_abs = (RootDir \<in> set cs), kp_names = component_names cs, kp_trailing = False\<rparr>"

definition lookup :: "fsys \<Rightarrow> string list \<Rightarrow> node option" where
  "lookup s p = (if p = [] then Some Dir else map_of (nodes s) p)"

definition set_node :: "string list \<Rightarrow> node \<Rightarrow> fsys \<Rightarrow> fsys" where
  "set_node p n s = s\<lparr>nodes := AList.update p n (nodes s)\<rparr>"

text \<open>
  Path resolution: at most \<open>k\<close> links are followed; the last name is followed only with
  \<open>fl\<close>. The result is the place of the last name, which need not exist.
\<close>

function walk :: "fsys \<Rightarrow> bool \<Rightarrow> nat \<Rightarrow> string list \<Rightarrow> string list \<Rightarrow> errno + string list" where
  "walk s fl k d [] = Inr d"
| "walk s fl k d (c # cs) =
     (if lookup s d \<noteq> Some Dir then Inl ENOTDIR
      else if c = ''.'' then walk s fl k d cs
      else if c = ''..'' then walk s fl k (butlast d) cs
      else (case lookup s (d @ [c]) of
              None \<Rightarrow> if cs = [] then Inr (d @ [c]) else Inl ENOENT
            | Some (Symlink t) \<Rightarrow>
                if cs = [] \<and> \<not> fl then Inr (d @ [c])
                else (case k of 0 \<Rightarrow> Inl ELOOP
                      | Suc k' \<Rightarrow>
                          if t = [] then Inl ENOENT
                          else walk s fl k' (if is_absolute t then [] else d)
                                 (segments t @ (if last t = CHR ''/'' then [''.''] else []) @ cs))
            | Some _ \<Rightarrow> walk s fl k (d @ [c]) cs))"
  by pat_completeness auto
termination
  by (relation "measures [\<lambda>(s, fl, k, d, cs). k, \<lambda>(s, fl, k, d, cs). length cs]") auto

definition MAXSYMLINKS :: nat where
  "MAXSYMLINKS = 40"

definition sys_walk :: "fsys \<Rightarrow> syscall \<Rightarrow> bool \<Rightarrow> kpath \<Rightarrow> io_error + string list" where
  "sys_walk s call fl kp =
     (if \<exists>seg \<in> set (kp_names kp). CHR 0x00 \<in> set seg
      then Inl (Other ''file name contained an unexpected NUL byte'')
      else (case fault s call kp of Some e \<Rightarrow> Inl (Os e)
            | None \<Rightarrow>
                if \<not> kp_abs kp \<and> kp_names kp = [] then Inl (Os ENOENT)
                else (case walk s fl MAXSYMLINKS (if kp_abs kp then [] else cwd s)
                             (kp_names kp @ (if kp_trailing kp then [''.''] else [])) of
                        Inl e \<Rightarrow> Inl (Os e)
                      | Inr l \<Rightarrow> Inr l)))"

section \<open>System calls\<close>

definition lstat :: "fsys \<Rightarrow> kpath \<Rightarrow> io_error + node" where
  "lstat s kp =
     (case sys_walk s SysLstat False kp of Inl e \<Rightarrow> Inl e
      | Inr l \<Rightarrow> (case lookup s l of None \<Rightarrow> Inl (Os ENOENT) | Some n \<Rightarrow> Inr n))"

definition is_dir :: "fsys \<Rightarrow> kpath \<Rightarrow> bool" where
  "is_dir s kp =
     (case sys_walk s SysStat True kp of Inl e \<Rightarrow> False | Inr l \<Rightarrow> lookup s l = Some Dir)"

definition render_abs :: "string list \<Rightarrow> string" where
  "render_abs l = (if l = [] then ''/'' else concat (map (\<lambda>seg. CHR ''/'' # seg) l))"

definition canonicalize :: "fsys \<Rightarrow> kpath \<Rightarrow> io_error + string" where
  "canonicalize s kp =
     (case sys_walk s SysRealpath True kp of Inl e \<Rightarrow> Inl e
      | Inr l \<Rightarrow> (case lookup s l of None \<Rightarrow> Inl (Os ENOENT) | Some n \<Rightarrow> Inr (render_abs l)))"

definition mkdir :: "fsys \<Rightarrow> kpath \<Rightarrow> (io_error + unit) \<times> fsys" where
  "mkdir s kp =
     (case sys_walk s SysMkdir False (kp\<lparr>kp_trailing := False\<rparr>) of Inl e \<Rightarrow> (Inl e, s)
      | Inr l \<Rightarrow> (case lookup s l of None \<Rightarrow> (Inr (), set_node l Dir s)
                  | Some n \<Rightarrow> (Inl (Os EEXIST), s)))"

text \<open>\<open>open(O_RDONLY | O_NOFOLLOW)\<close>: the opened node.\<close>

definition open_rdonly :: "fsys \<Rightarrow> kpath \<Rightarrow> io_error + node" where
  "open_rdonly s kp =
     (case sys_walk s SysOpenRead False kp of Inl e \<Rightarrow> Inl e
      | Inr l \<Rightarrow> (case lookup s l of None \<Rightarrow> Inl (Os ENOENT)
                  | Some (Symlink t) \<Rightarrow> Inl (Os ELOOP)
                  | Some n \<Rightarrow> Inr n))"

text \<open>
  \<open>open(O_WRONLY | O_CREAT | O_TRUNC | O_NOFOLLOW)\<close>: the place of the opened node. A
  trailing slash is refused once the path before it resolves.
\<close>

definition open_trunc :: "fsys \<Rightarrow> kpath \<Rightarrow> (io_error + string list) \<times> fsys" where
  "open_trunc s kp =
     (case sys_walk s SysOpenWrite False (kp\<lparr>kp_trailing := False\<rparr>) of Inl e \<Rightarrow> (Inl e, s)
      | Inr l \<Rightarrow>
          if kp_trailing kp then (Inl (Os EISDIR), s)
          else (case lookup s l of
                  None \<Rightarrow> (Inr l, set_node l (File [] (now s)) s)
                | Some (File d t) \<Rightarrow> (Inr l, set_node l (File [] (now s)) s)
                | Some Dir \<Rightarrow> (Inl (Os EISDIR), s)
                | Some (Symlink t) \<Rightarrow> (Inl (Os ELOOP), s)
                | Some (Special d) \<Rightarrow> (Inr l, s)))"

text \<open>Writing through the handle of an opened node.\<close>

definition write_node :: "fsys \<Rightarrow> string list \<Rightarrow> string \<Rightarrow> fsys" where
  "write_node s l data =
     (case lookup s l of Some (File d t) \<Rightarrow> set_node l (File data (now s)) s | _ \<Rightarrow> s)"

definition read_dir :: "fsys \<Rightarrow> kpath \<Rightarrow> io_error + string list" where
  "read_dir s kp =
     (case sys_walk s SysReadDir True kp of Inl e \<Rightarrow> Inl e
      | Inr l \<Rightarrow>
          (case lookup s l of None \<Rightarrow> Inl (Os ENOENT)
           | Some Dir \<Rightarrow>
               Inr (map (\<lambda>(p, n). last p)
                      (filter (\<lambda>(p, n). p \<noteq> [] \<and> butlast p = l) (nodes s)))
           | Some n \<Rightarrow> Inl (Os ENOTDIR)))"

text \<open>\<open>std::fs::create_dir_all\<close>, on the components of the path.\<close>

function create_dir_all :: "fsys \<Rightarrow> component list \<Rightarrow> (io_error + unit) \<times> fsys" where
  "create_dir_all s cs =
     (if cs = [] then (Inr (), s)
      else (case mkdir s (kpath_of_components cs) of
              (Inr u, s1) \<Rightarrow> (Inr (), s1)
            | (Inl e, s1) \<Rightarrow>
                if \<not> kind_not_found e then
                  (if is_dir s1 (kpath_of_components cs) then (Inr (), s1) else (Inl e, s1))
                else (case parent_components cs of
                        None \<Rightarrow> (Inl (Other ''failed to create whole tree''), s1)
                      | Some p \<Rightarrow>
                          (case create_dir_all s1 p of
                             (Inl e, s2) \<Rightarrow> (Inl e, s2)
                           | (Inr u, s2) \<Rightarrow>
                               (case mkdir s2 (kpath_of_components cs) of
                                  (Inr u, s3) \<Rightarrow> (Inr (), s3)
                                | (Inl e, s3) \<Rightarrow>
                                    if is_dir s3 (kpath_of_components cs) then (Inr (), s3)
                                    else (Inl e, s3))))))"
  by pat_completeness auto
termination
  by (relation "measure (\<lambda>(s, cs). length cs)") (auto simp: parent_components_def split: if_splits)

declare create_dir_all.simps [simp del] walk.simps [simp del]

text \<open>\<open>Path::exists\<close> and \<open>std::fs::read_to_string\<close>, which follow links.\<close>

definition path_exists :: "fsys \<Rightarrow> kpath \<Rightarrow> bool" where
  "path_exists s kp =
     (case sys_walk s SysStat True kp of Inl e \<Rightarrow> False | Inr l \<Rightarrow> lookup s l \<noteq> None)"

definition read_to_string :: "fsys \<Rightarrow> kpath \<Rightarrow> io_error + string" where
  "read_to_string s kp =
     (case sys_walk s SysOpenRead True kp of Inl e \<Rightarrow> Inl e
      | Inr l \<Rightarrow>
          (let text = (\<lambda>data. if utf8_valid data then Inr data
                             else Inl (Other ''stream did not contain valid UTF-8''))
           in case lookup s l of
                None \<Rightarrow> Inl (Os ENOENT)
              | Some (File data t) \<Rightarrow> text data
              | Some (Special data) \<Rightarrow> text data
              | Some Dir \<Rightarrow> Inl (Os EISDIR)
              | Some (Symlink t) \<Rightarrow> Inl (Os ELOOP)))"

end
