(* ===== verification/Externs.thy ===== *)
theory Externs
  imports Kernel
begin

text \<open>
  The world a request runs in, and the code the program calls that is not its own. Every
  function of a third-party crate or service (tokio's copy and file I/O,
  \<open>tokio-io-timeout\<close>, \<open>sha2\<close>, \<open>subtle\<close>, \<open>http\<close>, axum's extractors, the AWS SDK) is a field of the
  record \<open>externs\<close>: the operations take the record as an argument, and what they rely on is a
  named predicate on it (\<open>io_copy_ok\<close>, \<open>timeout_reader_ok\<close>, ...), a hypothesis of the
  theorems that need it. \<open>x_env\<close> is what other processes do to the file system between two
  of the program's own system calls.
\<close>

section \<open>Readers\<close>

text \<open>
  A byte reader is the sequence of results its polls become ready with, each after so many
  milliseconds of \<open>Pending\<close>; the end of the list is end-of-file. \<open>Never\<close> is a poll that
  stays pending.
\<close>

datatype rd_event = Bytes string | Fault io_error | Never

type_synonym reader = "(nat \<times> rd_event) list"

fun payload :: "reader \<Rightarrow> string" where
  "payload [] = []"
| "payload ((d, Bytes b) # r) = b @ payload r"
| "payload ((d, Fault e) # r) = []"
| "payload ((d, Never) # r) = []"

fun faulty :: "reader \<Rightarrow> bool" where
  "faulty [] = False"
| "faulty ((d, Bytes b) # r) = faulty r"
| "faulty ((d, Fault e) # r) = True"
| "faulty ((d, Never) # r) = True"

text \<open>
  A successful read of no bytes means end-of-file, so a reader delivers its bytes in
  non-empty pieces.
\<close>

definition proper :: "reader \<Rightarrow> bool" where
  "proper r \<longleftrightarrow> (\<forall>ev \<in> set r. snd ev \<noteq> Bytes [])"

lemma proper_simps [simp]:
  "proper []" "proper (ev # r) \<longleftrightarrow> snd ev \<noteq> Bytes [] \<and> proper r"
  by (simp_all add: proper_def)

section \<open>S3 requests and outputs\<close>

record s3_object =
  ob_key :: "string option"
  ob_size :: "int option"
  ob_last_modified :: "string option option"

record list_request =
  lq_bucket :: string
  lq_prefix :: "string option"
  lq_token :: "string option"
  lq_start_after :: "string option"

record list_output =
  lo_contents :: "s3_object list option"
  lo_is_truncated :: "bool option"
  lo_next_token :: "string option"

datatype get_error = NoSuchKey string | OtherGetError string

section \<open>HTTP requests\<close>

text \<open>
  \<open>rq_matched_path\<close> and \<open>rq_body_limit\<close> are the request extensions the router (\<open>MatchedPath\<close>)
  and the layer \<open>DefaultBodyLimit\<close> set. Header names are lower-case, as in \<open>HeaderMap\<close>.
\<close>

record request =
  rq_method :: string
  rq_path :: string
  rq_query :: "string option"
  rq_headers :: "(string \<times> string) list"
  rq_body :: reader
  rq_matched_path :: "string option"
  rq_body_limit :: "nat option"

datatype query_rejection = FailedToDeserializeQueryString string | OtherQueryRejection string

datatype json_rejection = JsonRejection nat string

section \<open>The world\<close>

record 'b world =
  w_fs :: fsys
  w_s3 :: 'b
  w_log :: "log_event list"
  w_tick :: nat
  w_trace_counter :: u64
  w_access_counter :: u64

section \<open>The external functions\<close>

text \<open>
  \<open>x_next_entry\<close> is the error of reading on in a directory with those names left.
  \<open>x_deadline\<close> says that a request's deadline (so many seconds) passes before its handler
  is done, and the world the abandoned handler leaves. \<open>x_fallback_gated\<close> says which fallback the router has
  that \<open>Router::merge\<close> makes of the open and the gated routes: the gated one's, with the gate's layer around it, or the open one's.
\<close>

record 'b externs =
  x_env :: "nat \<Rightarrow> fsys \<Rightarrow> fsys"
  x_next_entry :: "string list \<Rightarrow> io_error option"
  x_mono :: "nat \<Rightarrow> nat"
  x_wall :: "nat \<Rightarrow> int"
  x_timeout_reader :: "nat \<Rightarrow> reader \<Rightarrow> reader"
  x_copy_buf :: nat
  x_io_copy :: "reader \<Rightarrow> string \<times> io_error option"
  x_file_reader :: "string \<Rightarrow> reader"
  x_flush :: "string \<Rightarrow> io_error option"
  x_sha256 :: "string \<Rightarrow> string"
  x_ct_eq :: "string \<Rightarrow> string \<Rightarrow> bool"
  x_hv_to_str :: "string \<Rightarrow> string option"
  x_hv_from_str :: "string \<Rightarrow> string option"
  x_query :: "request \<Rightarrow> query_rejection + ListFilesQuery"
  x_json_within :: "nat \<Rightarrow> request \<Rightarrow> unit + (json_rejection + CopyFileRequest)"
  x_deadline :: "u64 \<Rightarrow> request \<Rightarrow> 'b world \<Rightarrow> 'b world option"
  x_fallback_gated :: bool
  x_tmp_new :: "io_error option"
  x_tmp_create :: "io_error option"
  x_byte_stream :: "string \<Rightarrow> string + string"
  x_s3_list :: "'b \<Rightarrow> list_request \<Rightarrow> (string + list_output) \<times> 'b"
  x_s3_get :: "'b \<Rightarrow> string \<Rightarrow> string \<Rightarrow> (get_error + reader) \<times> 'b"
  x_s3_put :: "'b \<Rightarrow> string \<Rightarrow> string \<Rightarrow> string \<Rightarrow> (string + unit) \<times> 'b"

section \<open>Effects on the world\<close>

definition emit :: "log_event list \<Rightarrow> 'b world \<Rightarrow> 'b world" where
  "emit evs w = w\<lparr>w_log := w_log w @ evs\<rparr>"

text \<open>\<open>Instant::now()\<close> and \<open>SystemTime::now()\<close>, in nanoseconds.\<close>

definition instant_now :: "'b externs \<Rightarrow> 'b world \<Rightarrow> nat \<times> 'b world" where
  "instant_now X w = (x_mono X (w_tick w), w\<lparr>w_tick := Suc (w_tick w)\<rparr>)"

definition system_now :: "'b externs \<Rightarrow> 'b world \<Rightarrow> int \<times> 'b world" where
  "system_now X w = (x_wall X (w_tick w), w\<lparr>w_tick := Suc (w_tick w)\<rparr>)"

lemma emit_simps [simp]:
  "w_fs (emit evs w) = w_fs w" "w_s3 (emit evs w) = w_s3 w"
  "w_log (emit evs w) = w_log w @ evs" "w_tick (emit evs w) = w_tick w"
  "w_trace_counter (emit evs w) = w_trace_counter w"
  "w_access_counter (emit evs w) = w_access_counter w"
  by (simp_all add: emit_def)

section \<open>What the program relies on\<close>

text \<open>
  \<open>tokio::io::copy\<close>: what it has written is a prefix of what the reader delivered before
  its first error; it fails if the reader does, and when it succeeds everything was
  written. (It may fail for reasons of the writer's own.)
\<close>

definition io_copy_ok :: "'b externs \<Rightarrow> bool" where
  "io_copy_ok X \<longleftrightarrow>
     (\<forall>r. prefix (fst (x_io_copy X r)) (payload r) \<and>
          (faulty r \<longrightarrow> snd (x_io_copy X r) \<noteq> None) \<and>
          (snd (x_io_copy X r) = None \<longrightarrow> fst (x_io_copy X r) = payload r))"

text \<open>
  \<open>tokio_io_timeout::TimeoutReader\<close>: a poll that stays pending for the whole budget
  becomes an error and ends the reader; anything before it is passed through.
\<close>

definition stalls :: "nat \<Rightarrow> nat \<times> rd_event \<Rightarrow> bool" where
  "stalls budget ev \<longleftrightarrow> snd ev = Never \<or> (0 < fst ev \<and> budget \<le> fst ev)"

definition timeout_reader_ok :: "'b externs \<Rightarrow> bool" where
  "timeout_reader_ok X \<longleftrightarrow>
     (\<forall>budget r.
        (list_all (\<lambda>ev. \<not> stalls budget ev) r \<longrightarrow> x_timeout_reader X budget r = r) \<and>
        (\<forall>a ev b. r = a @ ev # b \<and> list_all (\<lambda>ev. \<not> stalls budget ev) a \<and> stalls budget ev \<longrightarrow>
           (\<exists>d e. x_timeout_reader X budget r = a @ [(d, Fault e)])))"

text \<open>A \<open>tokio::fs::File\<close> opened on a regular file delivers its content, in non-empty pieces.\<close>

definition file_reader_ok :: "'b externs \<Rightarrow> bool" where
  "file_reader_ok X \<longleftrightarrow>
     (\<forall>data. payload (x_file_reader X data) = data \<and> \<not> faulty (x_file_reader X data) \<and>
             proper (x_file_reader X data) \<and> (\<forall>ev \<in> set (x_file_reader X data). fst ev = 0))"

definition quiet_env :: "'b externs \<Rightarrow> bool" where
  "quiet_env X \<longleftrightarrow> (\<forall>i s. x_env X i s = s)"

definition readdir_ok :: "'b externs \<Rightarrow> bool" where
  "readdir_ok X \<longleftrightarrow> (\<forall>names. x_next_entry X names = None)"

definition flush_ok :: "'b externs \<Rightarrow> bool" where
  "flush_ok X \<longleftrightarrow> (\<forall>data. x_flush X data = None)"

lemma payload_append: "\<not> faulty a \<Longrightarrow> payload (a @ b) = payload a @ payload b"
  by (induction a rule: payload.induct) auto

lemma faulty_append: "faulty (a @ b) \<longleftrightarrow> faulty a \<or> faulty b"
  by (induction a rule: payload.induct) auto

lemma io_copy_okD:
  assumes "io_copy_ok X" "x_io_copy X r = (w, e)"
  shows "prefix w (payload r)" "faulty r \<Longrightarrow> e \<noteq> None" "e = None \<Longrightarrow> w = payload r"
  using assms by (auto simp: io_copy_ok_def dest!: spec [of _ r])

end
