(* ===== verification/Backend.thy ===== *)
theory Backend
  imports Externs
begin

text \<open>
  \<open>src/backend/mod.rs\<close>: the \<open>Backend\<close> trait as a record of operations (a trait object's
  table) over the world, the bundle of configured backends, the byte-counting reader that
  enforces the transfer cap, and the copy between two backends.
\<close>

definition DEFAULT_LIST_LIMIT :: nat where
  "DEFAULT_LIST_LIMIT = 1000"

definition MAX_LIST_LIMIT :: nat where
  "MAX_LIST_LIMIT = 10000"

record ListOptions =
  opt_limit :: "nat option"
  opt_start_after :: "string option"

text \<open>
  \<open>list\<close> may page through an unbounded service, so its result is an \<open>option\<close>: \<open>None\<close> is
  "does not return".
\<close>

record 'b backend =
  be_kind :: StorageType
  be_list :: "ListOptions \<Rightarrow> 'b world \<Rightarrow> (FileEntry list res \<times> 'b world) option"
  be_open_read :: "string \<Rightarrow> 'b world \<Rightarrow> reader res \<times> 'b world"
  be_write_all :: "string \<Rightarrow> reader \<Rightarrow> nat option \<Rightarrow> 'b world \<Rightarrow> unit res \<times> 'b world"

record 'b backends =
  bs_fs :: "'b backend"
  bs_s3 :: "'b backend option"

definition pick :: "'b backends \<Rightarrow> StorageType \<Rightarrow> 'b backend res" where
  "pick bs k =
     (case k of
        Fs \<Rightarrow> Inr (bs_fs bs)
      | S3 \<Rightarrow> (case bs_s3 bs of Some b \<Rightarrow> Inr b | None \<Rightarrow> Inl (BackendNotConfigured S3)))"

section \<open>The limited reader\<close>

text \<open>
  One poll: the inner reader fills at most the free part of the caller's buffer. \<open>lr_counter\<close>
  is the shared \<open>AtomicU64\<close>, whose additions wrap.
\<close>

record readbuf =
  rb_filled :: string
  rb_capacity :: nat

record limited_reader =
  lr_inner :: reader
  lr_max :: u64
  lr_counter :: u64

datatype poll = Pending | ReadyOk | ReadyErr io_error

definition inner_poll_read :: "reader \<Rightarrow> readbuf \<Rightarrow> poll \<times> reader \<times> readbuf" where
  "inner_poll_read r buf =
     (case r of
        [] \<Rightarrow> (ReadyOk, [], buf)
      | (d, Bytes b) # r' \<Rightarrow>
          (let free = rb_capacity buf - length (rb_filled buf) in
           if length b \<le> free then (ReadyOk, r', buf\<lparr>rb_filled := rb_filled buf @ b\<rparr>)
           else (ReadyOk, (0, Bytes (drop free b)) # r',
                 buf\<lparr>rb_filled := rb_filled buf @ take free b\<rparr>))
      | (d, Fault e) # r' \<Rightarrow> (ReadyErr e, r', buf)
      | (d, Never) # r' \<Rightarrow> (Pending, r, buf))"

definition limited_reader_new :: "reader \<Rightarrow> u64 \<Rightarrow> limited_reader" where
  "limited_reader_new inner mx = \<lparr>lr_inner = inner, lr_max = mx, lr_counter = 0\<rparr>"

definition cap_error :: "u64 \<Rightarrow> io_error" where
  "cap_error mx = Other (''transfer exceeded configured size cap of '' @ dec (unat mx) @ '' bytes'')"

definition poll_read :: "limited_reader \<Rightarrow> readbuf \<Rightarrow> poll \<times> limited_reader \<times> readbuf" where
  "poll_read lr buf =
     (if lr_counter lr > lr_max lr then (ReadyErr (cap_error (lr_max lr)), lr, buf)
      else
        (let old_len = length (rb_filled buf);
             (p, inner', buf') = inner_poll_read (lr_inner lr) buf;
             lr' = lr\<lparr>lr_inner := inner'\<rparr>
         in case p of
              ReadyOk \<Rightarrow>
                (let added = (of_nat (length (rb_filled buf') - old_len) :: u64);
                     new_total = lr_counter lr + added;
                     lr'' = lr'\<lparr>lr_counter := new_total\<rparr>
                 in if new_total > lr_max lr
                    then (ReadyErr (cap_error (lr_max lr)), lr'',
                          buf'\<lparr>rb_filled := take old_len (rb_filled buf')\<rparr>)
                    else (ReadyOk, lr'', buf'))
            | other \<Rightarrow> (other, lr', buf')))"

text \<open>
  The reader a consumer sees when it polls with empty buffers of \<open>cap\<close> bytes until
  end-of-file or an error, and the count the shared counter then holds.
\<close>

definition reader_size :: "reader \<Rightarrow> nat" where
  "reader_size r = (\<Sum>ev \<leftarrow> r. case snd ev of Bytes b \<Rightarrow> Suc (length b) | _ \<Rightarrow> 1)"

lemma reader_size_simps [simp]:
  "reader_size [] = 0"
  "reader_size ((d, Bytes b) # r) = Suc (length b) + reader_size r"
  "reader_size ((d, Fault e) # r) = Suc (reader_size r)"
  "reader_size ((d, Never) # r) = Suc (reader_size r)"
  by (simp_all add: reader_size_def)

lemma inner_poll_read_decreases:
  assumes "inner_poll_read r \<lparr>rb_filled = [], rb_capacity = cap\<rparr> = (ReadyOk, r', buf')"
    and "rb_filled buf' \<noteq> []"
  shows "reader_size r' < reader_size r"
  using assms
  by (auto simp: inner_poll_read_def Let_def split: list.splits rd_event.splits if_splits)

lemma poll_read_decreases:
  assumes "poll_read lr \<lparr>rb_filled = [], rb_capacity = cap\<rparr> = (ReadyOk, lr', buf')"
    and "rb_filled buf' \<noteq> []"
  shows "reader_size (lr_inner lr') < reader_size (lr_inner lr)"
  using assms
  by (auto simp: poll_read_def Let_def dest: inner_poll_read_decreases
      split: prod.splits poll.splits if_splits)

function drain :: "nat \<Rightarrow> limited_reader \<Rightarrow> reader \<times> u64" where
  "drain cap lr =
     (case poll_read lr \<lparr>rb_filled = [], rb_capacity = cap\<rparr> of
        (ReadyOk, lr', buf') \<Rightarrow>
          if rb_filled buf' = [] then ([], lr_counter lr')
          else (let (evs, count) = drain cap lr' in ((0, Bytes (rb_filled buf')) # evs, count))
      | (ReadyErr e, lr', buf') \<Rightarrow> ([(0, Fault e)], lr_counter lr')
      | (Pending, lr', buf') \<Rightarrow> ([(0, Never)], lr_counter lr'))"
  by pat_completeness auto
termination
  by (relation "measure (\<lambda>(cap, lr). reader_size (lr_inner lr))")
    (auto intro: poll_read_decreases [OF sym])

declare drain.simps [simp del]

section \<open>Copying\<close>

text \<open>The first six bytes of the SHA-256 digest, two hexadecimal digits each.\<close>

definition path_hash :: "'b externs \<Rightarrow> string \<Rightarrow> string" where
  "path_hash X path = concat (map (\<lambda>b. hex_fixed 2 (byte_val b)) (take 6 (x_sha256 X path)))"

definition copy_event :: "'b externs \<Rightarrow> StorageType \<Rightarrow> StorageType \<Rightarrow> string \<Rightarrow> string \<Rightarrow> u64 \<Rightarrow>
    u64 \<Rightarrow> log_event" where
  "copy_event X src dst src_path dst_path n_bytes duration_ms =
     \<lparr>ev_level = INFO, ev_message = ''file_transfer_completed'',
      ev_fields = [(''source'', as_str src), (''destination'', as_str dst),
        (''source_path_hash'', path_hash X src_path),
        (''destination_path_hash'', path_hash X dst_path),
        (''bytes'', dec (unat n_bytes)), (''duration_ms'', dec (unat duration_ms)),
        (''outcome'', ''success'')]\<rparr>"

text \<open>
  The destination consumes the limited reader; both real destinations read it to
  end-of-file before they succeed, which is when the counter is loaded.
\<close>

definition stream_copy :: "'b externs \<Rightarrow> 'b backend \<Rightarrow> string \<Rightarrow> 'b backend \<Rightarrow> string \<Rightarrow> u64 \<Rightarrow>
    nat \<Rightarrow> 'b world \<Rightarrow> u64 res \<times> 'b world" where
  "stream_copy X src src_path dst dst_path max_bytes inactivity w =
     (let (start, w0) = instant_now X w in
      case be_open_read src src_path w0 of
        (Inl e, w1) \<Rightarrow> (Inl e, w1)
      | (Inr rd, w1) \<Rightarrow>
          (let timed = x_timeout_reader X inactivity rd;
               (limited, counter) = drain (x_copy_buf X) (limited_reader_new timed max_bytes)
           in case be_write_all dst dst_path limited None w1 of
                (Inl e, w2) \<Rightarrow> (Inl e, w2)
              | (Inr u, w2) \<Rightarrow>
                  (let n_bytes = counter;
                       (stop, w3) = instant_now X w2;
                       duration_ms = (of_nat ((stop - start) div 1000000) :: u64)
                   in (Inr n_bytes,
                       emit [copy_event X (be_kind src) (be_kind dst) src_path dst_path n_bytes
                               duration_ms] w3))))"


section \<open>What the limited reader yields\<close>

lemma poll_read_Nil:
  "c \<le> m \<Longrightarrow>
   poll_read \<lparr>lr_inner = [], lr_max = m, lr_counter = c\<rparr> \<lparr>rb_filled = [], rb_capacity = cap\<rparr> =
     (ReadyOk, \<lparr>lr_inner = [], lr_max = m, lr_counter = c\<rparr>, \<lparr>rb_filled = [], rb_capacity = cap\<rparr>)"
  by (simp add: poll_read_def inner_poll_read_def)

definition rest_after :: "nat \<Rightarrow> string \<Rightarrow> reader \<Rightarrow> reader" where
  "rest_after cap b r = (if length b \<le> cap then r else (0, Bytes (drop cap b)) # r)"

lemma poll_read_Bytes:
  "c \<le> m \<Longrightarrow>
   poll_read \<lparr>lr_inner = (d, Bytes b) # r, lr_max = m, lr_counter = c\<rparr>
             \<lparr>rb_filled = [], rb_capacity = cap\<rparr> =
     (let n = c + of_nat (length (take cap b));
          lr' = \<lparr>lr_inner = rest_after cap b r, lr_max = m, lr_counter = n\<rparr>
      in if n > m then (ReadyErr (cap_error m), lr', \<lparr>rb_filled = [], rb_capacity = cap\<rparr>)
         else (ReadyOk, lr', \<lparr>rb_filled = take cap b, rb_capacity = cap\<rparr>))"
  by (auto simp: poll_read_def inner_poll_read_def rest_after_def Let_def)

lemma drain_Nil: "c \<le> m \<Longrightarrow> drain cap \<lparr>lr_inner = [], lr_max = m, lr_counter = c\<rparr> = ([], c)"
  by (subst drain.simps) (simp add: poll_read_Nil)

lemma drain_Fault: "c \<le> m \<Longrightarrow>
    drain cap \<lparr>lr_inner = (d, Fault e) # r, lr_max = m, lr_counter = c\<rparr> = ([(0, Fault e)], c)"
  by (subst drain.simps) (auto simp: poll_read_def inner_poll_read_def)

lemma drain_Never: "c \<le> m \<Longrightarrow>
    drain cap \<lparr>lr_inner = (d, Never) # r, lr_max = m, lr_counter = c\<rparr> = ([(0, Never)], c)"
  by (subst drain.simps) (auto simp: poll_read_def inner_poll_read_def)

lemma drain_Bytes:
  assumes "c \<le> m" "take cap b \<noteq> []"
  shows "drain cap \<lparr>lr_inner = (d, Bytes b) # r, lr_max = m, lr_counter = c\<rparr> =
    (let n = c + of_nat (length (take cap b)) in
     if n > m then ([(0, Fault (cap_error m))], n)
     else (let (evs, count) = drain cap \<lparr>lr_inner = rest_after cap b r, lr_max = m, lr_counter = n\<rparr>
           in ((0, Bytes (take cap b)) # evs, count)))"
  by (subst drain.simps) (use assms in \<open>simp add: poll_read_Bytes Let_def\<close>)

text \<open>The counter does not wrap while the cap leaves room for one more buffer.\<close>

lemma counter_no_wrap:
  fixes c m :: u64
  assumes "c \<le> m" "unat m + cap < 2 ^ 64" "n \<le> cap"
  shows "unat (c + of_nat n) = unat c + n" "c + of_nat n > m \<longleftrightarrow> unat m < unat c + n"
proof -
  have "unat c \<le> unat m" using assms(1) by (simp add: word_le_nat_alt)
  then have lt: "unat c + n < 2 ^ 64" "n < 2 ^ 64" using assms by linarith+
  then show 1: "unat (c + of_nat n) = unat c + n"
    by (simp add: unat_word_ariths unat_of_nat)
  show "c + of_nat n > m \<longleftrightarrow> unat m < unat c + n"
    by (simp only: word_less_nat_alt 1)
qed

lemma rest_after_payload: "take cap b @ payload (rest_after cap b r) = b @ payload r"
  by (simp add: rest_after_def)

lemma rest_after_faulty [simp]: "faulty (rest_after cap b r) = faulty r"
  by (simp add: rest_after_def)

lemma rest_after_proper: "proper r \<Longrightarrow> proper (rest_after cap b r)"
  by (simp add: rest_after_def)

lemma rest_after_size: "0 < cap \<Longrightarrow> reader_size (rest_after cap b r) \<le> length b + reader_size r"
  unfolding rest_after_def by (cases "length b \<le> cap") auto

text \<open>
  Everything the consumer may see of a source, by induction on the bytes left: a prefix of
  the source within the cap; the whole source, and its length in the counter, when it
  ends without an error; an error when the source exceeds the cap or fails itself.
\<close>

lemma drain_spec:
  assumes "c \<le> m" "unat m + cap < 2 ^ 64" "0 < cap" "proper r"
    and "drain cap \<lparr>lr_inner = r, lr_max = m, lr_counter = c\<rparr> = (evs, n)"
  shows "prefix (payload evs) (payload r)"
    and "unat c + length (payload evs) \<le> unat m"
    and "\<not> faulty evs \<Longrightarrow> payload evs = payload r \<and> unat n = unat c + length (payload r)"
    and "faulty evs \<longleftrightarrow> faulty r \<or> unat m < unat c + length (payload r)"
proof -
  have "prefix (payload evs) (payload r) \<and> unat c + length (payload evs) \<le> unat m \<and>
      (\<not> faulty evs \<longrightarrow> payload evs = payload r \<and> unat n = unat c + length (payload r)) \<and>
      (faulty evs \<longleftrightarrow> faulty r \<or> unat m < unat c + length (payload r))"
    using assms
  proof (induction "reader_size r" arbitrary: r c evs n rule: less_induct)
    case less
    have cm: "unat c \<le> unat m" using less.prems(1) by (simp add: word_le_nat_alt)
    show ?case
    proof (cases r)
      case Nil
      with less.prems cm show ?thesis by (auto simp: drain_Nil)
    next
      case (Cons ev r')
      obtain d x where ev: "ev = (d, x)" by (cases ev)
      show ?thesis
      proof (cases x)
        case (Fault e)
        with Cons ev less.prems cm show ?thesis by (auto simp: drain_Fault)
      next
        case Never
        with Cons ev less.prems cm show ?thesis by (auto simp: drain_Never)
      next
        case (Bytes b)
        define t c' where "t = take cap b" and "c' = c + of_nat (length t)"
        have t: "t \<noteq> []" "length t \<le> cap"
          using Cons ev Bytes less.prems(3,4) by (auto simp: t_def)
        note nw = counter_no_wrap [OF less.prems(1,2) t(2), folded c'_def]
        have r: "r = (d, Bytes b) # r'" using Cons ev Bytes by simp
        have pl: "b @ payload r' = t @ payload (rest_after cap b r')"
          by (simp add: t_def rest_after_payload)
        have dr: "(if c' > m then ([(0, Fault (cap_error m))], c')
            else (let (evs, count) = drain cap \<lparr>lr_inner = rest_after cap b r', lr_max = m,
                        lr_counter = c'\<rparr>
                  in ((0, Bytes t) # evs, count))) = (evs, n)"
          using less.prems(5)
          unfolding r drain_Bytes [OF less.prems(1) t(1) [unfolded t_def]] t_def c'_def Let_def .
        show ?thesis
        proof (cases "c' > m")
          case True
          then have "unat m < unat c + length t" using nw(2) by blast
          moreover have "evs = [(0, Fault (cap_error m))]" using True dr by simp
          ultimately show ?thesis using cm pl by (simp add: r)
        next
          case False
          obtain evs' where d': "drain cap \<lparr>lr_inner = rest_after cap b r', lr_max = m,
              lr_counter = c'\<rparr> = (evs', n)" and evs: "evs = (0, Bytes t) # evs'"
            using False dr by (auto split: prod.splits)
          have "reader_size (rest_after cap b r') < reader_size r"
            using rest_after_size [of cap b r'] less.prems(3) by (simp add: r)
          moreover have "c' \<le> m" using False by simp
          moreover have "proper (rest_after cap b r')"
            using less.prems(4) by (simp add: r rest_after_proper)
          ultimately have
            "prefix (payload evs') (payload (rest_after cap b r')) \<and>
             unat c' + length (payload evs') \<le> unat m \<and>
             (\<not> faulty evs' \<longrightarrow> payload evs' = payload (rest_after cap b r') \<and>
                unat n = unat c' + length (payload (rest_after cap b r'))) \<and>
             (faulty evs' \<longleftrightarrow> faulty r' \<or> unat m < unat c' + length (payload (rest_after cap b r')))"
            using less.hyps [OF _ _ less.prems(2,3) _ d'] by simp
          moreover have "length (payload r) = length t + length (payload (rest_after cap b r'))"
            using arg_cong [OF pl, of length] by (simp add: r)
          ultimately show ?thesis using pl nw(1) by (simp add: r evs add.assoc)
        qed
      qed
    qed
  qed
  then show "prefix (payload evs) (payload r)" "unat c + length (payload evs) \<le> unat m"
    "\<not> faulty evs \<Longrightarrow> payload evs = payload r \<and> unat n = unat c + length (payload r)"
    "faulty evs \<longleftrightarrow> faulty r \<or> unat m < unat c + length (payload r)" by blast+
qed

text \<open>
  C38: the byte cap is exact: what a consumer can read through the limited reader is a prefix of
  the source no longer than the cap; the reader ends in an error exactly when the source does or is longer than
  the cap, and otherwise delivers the whole source, whose length is the counter.
\<close>
theorem byte_cap_is_exact:
  assumes "unat mx + cap < 2 ^ 64" "0 < cap" "proper r" "drain cap (limited_reader_new r mx) = (evs, n)"
  shows "prefix (payload evs) (payload r) \<and> length (payload evs) \<le> unat mx \<and>
    (faulty evs \<longleftrightarrow> faulty r \<or> unat mx < length (payload r)) \<and>
    (\<not> faulty evs \<longrightarrow> payload evs = payload r \<and> unat n = length (payload r))"
  using drain_spec [OF _ assms(1-3) assms(4) [unfolded limited_reader_new_def]] by simp

lemma byte_cap_is_exact_witness:
  "\<exists>evs n. drain 8 (limited_reader_new [(0, Bytes ''abc''), (5, Bytes ''de'')] 4) = (evs, n) \<and>
     faulty evs \<and> length (payload evs) \<le> 4"
proof -
  obtain evs n where d: "drain 8 (limited_reader_new [(0, Bytes ''abc''), (5, Bytes ''de'')] 4) = (evs, n)"
    by fastforce
  from byte_cap_is_exact [OF _ _ _ d] d show ?thesis by simp
qed

end
