(* ===== verification/Rfc3339.thy ===== *)
theory Rfc3339
  imports Prelude "HOL-Library.Signed_Division"
begin

text \<open>
  \<open>format_rfc3339\<close> of \<open>src/backend/fs.rs\<close>: the calendar date of a UNIX time, computed with
  truncating divisions, and its ISO-8601 text. Its correctness is the subject of the
  theory \<open>Calendar\<close>.
\<close>

text \<open>
  Lines that turn the day count into year, month and day. \<open>days\<close> is an \<open>i64\<close> that is
  never negative; \<open>doe\<close>, \<open>yoe\<close>, \<open>doy\<close>, \<open>mp\<close> and \<open>d\<close> are \<open>u64\<close>. A day count is below
  \<open>2 ^ 48\<close>, so no value reaches its width, and \<open>Calendar.civil_no_underflow\<close> shows that no
  subtraction goes below zero; plain numbers are used.
\<close>

definition year_of_era :: "nat \<Rightarrow> nat" where
  "year_of_era doe = (doe - doe div 1460 + doe div 36524 - doe div 146096) div 365"

definition day_of_year :: "nat \<Rightarrow> nat" where
  "day_of_year doe =
     (let yoe = year_of_era doe in doe - (365 * yoe + yoe div 4 - yoe div 100))"

definition civil_from_days :: "nat \<Rightarrow> int \<times> nat \<times> nat" where
  "civil_from_days days =
     (let z = int days + 719468;
          era = (if z \<ge> 0 then z else z - 146096) sdiv 146097;
          doe = nat (z - era * 146097);
          yoe = year_of_era doe;
          y = int yoe + era * 400;
          doy = day_of_year doe;
          mp = (5 * doy + 2) div 153;
          d = doy - (153 * mp + 2) div 5 + 1;
          m_out = (if mp < 10 then mp + 3 else mp - 9);
          y_out = (if m_out \<le> 2 then y + 1 else y)
      in (y_out, m_out, d))"

definition format_rfc3339 :: "u64 \<Rightarrow> string" where
  "format_rfc3339 secs =
     (let days = unat (secs div 86400);
          secs_of_day = unat (secs mod 86400);
          (h, m, s) = (secs_of_day div 3600, (secs_of_day div 60) mod 60, secs_of_day mod 60);
          (y_out, m_out, d) = civil_from_days days
      in pad_left 4 (dec (nat y_out)) @ ''-'' @ pad_left 2 (dec m_out) @ ''-''
         @ pad_left 2 (dec d) @ ''T'' @ pad_left 2 (dec h) @ '':'' @ pad_left 2 (dec m)
         @ '':'' @ pad_left 2 (dec s) @ ''Z'')"

end
