(* ===== verification/Validate.thy ===== *)
theory Validate
  imports Error
begin

text \<open>
  \<open>src/validate.rs\<close>: the validator every user-supplied path goes through.
\<close>

definition is_traversal :: "string \<Rightarrow> bool" where
  "is_traversal path \<longleftrightarrow> list_ex (\<lambda>seg. seg = ''..'' \<or> seg = ''.'') (split_on CHR ''/'' path)"

definition allowed_byte :: "char \<Rightarrow> bool" where
  "allowed_byte b \<longleftrightarrow> is_ascii_alphanumeric b \<or> b \<in> {CHR ''-'', CHR ''.'', CHR ''_'', CHR ''/''}"

definition validate_path :: "string \<Rightarrow> unit res" where
  "validate_path path =
     (if path = [] then Inl (InvalidPath ''empty path'')
      else if CHR 0x00 \<in> set path then Inl (InvalidPath ''null byte in path'')
      else if \<not> list_all allowed_byte path then
        Inl (InvalidPath
          ''path contains disallowed characters (allowed: 0-9 a-z A-Z - . _ /)'')
      else if is_traversal path then Inl (InvalidPath ''path traversal detected'')
      else Inr ())"

lemma validate_path_Inr_iff:
  "validate_path p = Inr () \<longleftrightarrow>
     p \<noteq> [] \<and> (\<forall>b \<in> set p. allowed_byte b) \<and>
     (\<forall>seg \<in> set (split_on CHR ''/'' p). seg \<noteq> ''.'' \<and> seg \<noteq> ''..'')"
proof -
  have nul: "\<not> allowed_byte CHR 0x00"
    by (simp add: allowed_byte_def is_ascii_alphanumeric_def is_ascii_digit_def)
  show ?thesis
    using nul by (auto simp: validate_path_def is_traversal_def list_all_iff list_ex_iff)
qed

lemma validate_path_Inl: "validate_path p = Inl e \<Longrightarrow> \<exists>m. e = InvalidPath m"
  by (auto simp: validate_path_def split: if_splits)


end
