(* ===== verification/FsBackend.thy ===== *)
theory FsBackend
  imports Backend Rfc3339 Validate
begin

text \<open>
  \<open>src/backend/fs.rs\<close>: the local file-system backend. \<open>resolve\<close> joins the user's path to
  the root, checks the root is among the ancestors and refuses a symbolic link; the opens
  use \<open>O_NOFOLLOW\<close>. Between the steps of one operation other processes may change
  the file system (\<open>x_env\<close>); the two lookups of \<open>resolve\<close> (\<open>canonicalize\<close>, then \<open>lstat\<close>) and the \<open>mkdir\<close>s of one
  \<open>create_dir_all\<close> are each taken as one step.
\<close>

definition is_symlink_loop :: "io_error \<Rightarrow> bool" where
  "is_symlink_loop e \<longleftrightarrow> raw_os_error e = Some (errno_code ELOOP)"

definition symlink_refused :: FerryError where
  "symlink_refused = InvalidPath ''path is a symlink; symlinks are not permitted''"

definition warn_event :: "string \<Rightarrow> (string \<times> string) list \<Rightarrow> log_event" where
  "warn_event msg flds = \<lparr>ev_level = WARN, ev_message = msg, ev_fields = flds\<rparr>"

definition fs_backend_new :: "string \<Rightarrow> fsys \<Rightarrow> (io_error + string) \<times> fsys" where
  "fs_backend_new data_directory s =
     (case create_dir_all s (components data_directory) of
        (Inl e, s') \<Rightarrow> (Inl e, s')
      | (Inr u, s') \<Rightarrow> (Inr data_directory, s'))"

definition ok_prefix :: "string \<Rightarrow> string \<Rightarrow> fsys \<Rightarrow> bool" where
  "ok_prefix root joined s =
     (let canonical_root = (case canonicalize s (kpath_of root) of Inr c \<Rightarrow> c | Inl e \<Rightarrow> root)
      in list_ex (\<lambda>a. a = components canonical_root \<or> a = components root)
           (ancestors_of (components joined)))"

definition resolve :: "string \<Rightarrow> string \<Rightarrow> fsys \<Rightarrow> string res \<times> log_event list" where
  "resolve root path s =
     (let joined = path_join root path in
      if \<not> ok_prefix root joined s then
        (Inl (InvalidPath ''resolved path escapes fs root''),
         [warn_event ''path resolution escaped fs root''
            [(''requested_path'', path), (''root'', from_utf8_lossy root)]])
      else (case lstat s (kpath_of joined) of
              Inr (Symlink t) \<Rightarrow>
                (Inl symlink_refused,
                 [warn_event ''rejected: path is a symlink'' [(''requested_path'', path)]])
            | Inr n \<Rightarrow> (Inr joined, [])
            | Inl e \<Rightarrow> if kind_not_found e then (Inr joined, []) else (Inl (Io e), [])))"

definition interfere :: "'b externs \<Rightarrow> nat \<Rightarrow> 'b world \<Rightarrow> 'b world" where
  "interfere X i w = w\<lparr>w_fs := x_env X i (w_fs w)\<rparr>"

section \<open>Listing\<close>

definition entry_of :: "string \<Rightarrow> string \<Rightarrow> int \<Rightarrow> FileEntry" where
  "entry_of fname data mtime =
     \<lparr>fe_name = from_utf8_lossy fname, fe_size = of_nat (length data),
      fe_last_modified = (if mtime \<ge> 0 then Some (format_rfc3339 (word_of_int mtime)) else None)\<rparr>"

definition collect_entry :: "string \<Rightarrow> fsys \<Rightarrow> string \<Rightarrow> FileEntry list" where
  "collect_entry root s fname =
     (case lstat s (kpath_of (path_join root fname)) of
        Inl e \<Rightarrow> []
      | Inr n \<Rightarrow> (case n of File data mtime \<Rightarrow> [entry_of fname data mtime] | _ \<Rightarrow> []))"

text \<open>The loop over \<open>next_entry\<close>.\<close>

fun collect_entries :: "'b externs \<Rightarrow> string \<Rightarrow> string list \<Rightarrow> FileEntry list \<Rightarrow> 'b world \<Rightarrow>
    FileEntry list res \<times> 'b world" where
  "collect_entries X root names collected w =
     (case x_next_entry X names of
        Some e \<Rightarrow> (Inl (Io e), w)
      | None \<Rightarrow>
          (case names of
             [] \<Rightarrow> (Inr collected, w)
           | fname # names' \<Rightarrow>
               (let w1 = interfere X 0 w
                in collect_entries X root names' (collected @ collect_entry root (w_fs w1) fname) w1)))"

declare collect_entries.simps [simp del]

definition after_cursor :: "string option \<Rightarrow> FileEntry \<Rightarrow> bool" where
  "after_cursor cursor e = (case cursor of Some c \<Rightarrow> fe_name e > c | None \<Rightarrow> True)"

definition fs_list :: "'b externs \<Rightarrow> string \<Rightarrow> ListOptions \<Rightarrow> 'b world \<Rightarrow>
    (FileEntry list res \<times> 'b world) option" where
  "fs_list X root opts w =
     Some (let limit = (case opt_limit opts of Some n \<Rightarrow> n | None \<Rightarrow> DEFAULT_LIST_LIMIT) in
       case read_dir (w_fs w) (kpath_of root) of
         Inl e \<Rightarrow> (Inl (Io e), w)
       | Inr names \<Rightarrow>
           (case collect_entries X root names [] w of
              (Inl e, w1) \<Rightarrow> (Inl e, w1)
            | (Inr collected, w1) \<Rightarrow>
                (let sorted_entries = sort_key fe_name collected;
                     filtered = filter (after_cursor (opt_start_after opts)) sorted_entries
                 in (Inr (take limit filtered), w1))))"

section \<open>Reading and writing\<close>

definition node_reader :: "'b externs \<Rightarrow> node \<Rightarrow> reader" where
  "node_reader X n =
     (case n of
        File data mtime \<Rightarrow> x_file_reader X data
      | Special data \<Rightarrow> x_file_reader X data
      | _ \<Rightarrow> [(0, Fault (Os EISDIR))])"

definition fs_open_read :: "'b externs \<Rightarrow> string \<Rightarrow> string \<Rightarrow> 'b world \<Rightarrow> reader res \<times> 'b world" where
  "fs_open_read X root path w =
     (case resolve root path (w_fs w) of
        (Inl e, evs) \<Rightarrow> (Inl e, emit evs w)
      | (Inr resolved, evs) \<Rightarrow>
          (let w1 = interfere X 1 (emit evs w) in
           case open_rdonly (w_fs w1) (kpath_of resolved) of
             Inr f \<Rightarrow> (Inr (node_reader X f), w1)
           | Inl e \<Rightarrow>
               if kind_not_found e then (Inl (NotFound path), w1)
               else if is_symlink_loop e then
                 (Inl symlink_refused,
                  emit [warn_event ''open refused: path became a symlink between check and open''
                          [(''requested_path'', path)]] w1)
               else (Inl (Io e), w1)))"

text \<open>\<open>if let Some(parent) = resolved.parent()\<close>: the directories above the file.\<close>

definition make_parents :: "string \<Rightarrow> fsys \<Rightarrow> (io_error + unit) \<times> fsys" where
  "make_parents q s =
     (case parent_components (components q) of Some parent \<Rightarrow> create_dir_all s parent
      | None \<Rightarrow> (Inr (), s))"

definition fs_write_all :: "'b externs \<Rightarrow> string \<Rightarrow> string \<Rightarrow> reader \<Rightarrow> nat option \<Rightarrow> 'b world \<Rightarrow>
    unit res \<times> 'b world" where
  "fs_write_all X root path rd size_hint w =
     (case resolve root path (w_fs w) of
        (Inl e, evs) \<Rightarrow> (Inl e, emit evs w)
      | (Inr resolved, evs) \<Rightarrow>
          (let w1 = interfere X 2 (emit evs w);
               (made, s2) = make_parents resolved (w_fs w1);
               w2 = w1\<lparr>w_fs := s2\<rparr>
           in case made of
                Inl e \<Rightarrow> (Inl (Io e), w2)
              | Inr u \<Rightarrow>
                  (let w3 = interfere X 3 w2;
                       (opened, s4) = open_trunc (w_fs w3) (kpath_of resolved);
                       w4 = w3\<lparr>w_fs := s4\<rparr>
                   in case opened of
                        Inl e \<Rightarrow>
                          if is_symlink_loop e then
                            (Inl symlink_refused,
                             emit [warn_event
                                     ''write refused: destination is or became a symlink''
                                     [(''requested_path'', path)]] w4)
                          else (Inl (Io e), w4)
                      | Inr l \<Rightarrow>
                          (let (written, err) = x_io_copy X rd;
                               w5 = w4\<lparr>w_fs := write_node (w_fs w4) l written\<rparr>
                           in case err of
                                Some e \<Rightarrow> (Inl (Io e), w5)
                              | None \<Rightarrow>
                                  (case x_flush X written of
                                     Some e \<Rightarrow> (Inl (Io e), w5)
                                   | None \<Rightarrow> (Inr (), w5))))))"

definition fs_backend :: "'b externs \<Rightarrow> string \<Rightarrow> 'b backend" where
  "fs_backend X root =
     \<lparr>be_kind = Fs, be_list = fs_list X root, be_open_read = fs_open_read X root,
      be_write_all = fs_write_all X root\<rparr>"

end
