(* ===== verification/Config.thy ===== *)
theory Config
  imports Kernel
begin

text \<open>
  \<open>src/config.rs\<close>: the runtime configuration, the shape of the YAML file (decoding it is
  \<open>serde_yaml_ng\<close>'s, a parameter), the resolution of one into the other with the secrets
  read from the environment, and the redacting \<open>Debug\<close> implementations. The process
  environment is a map from names to the values that are valid Unicode.
\<close>

type_synonym environment = "string \<Rightarrow> string option"

record FsConfig =
  fc_data_directory :: string

record S3Config =
  sc_region :: string
  sc_endpoint_url :: string
  sc_bucket :: string
  sc_bucket_path :: string
  sc_access_key_id :: string
  sc_secret_access_key :: string

record SecurityConfig =
  inter_service_token :: "string option"
  trust_network :: bool
  admin_enabled :: bool

record LimitsConfig =
  max_request_bytes :: u64
  max_response_bytes :: u64
  request_timeout_secs :: u64
  copy_inactivity_secs :: u64

record AppConfig =
  ac_port :: u16
  ac_documentation_enabled :: bool
  ac_cors_origin :: string
  ac_fs :: FsConfig
  ac_s3 :: "S3Config option"
  ac_limits :: LimitsConfig
  ac_security :: SecurityConfig

section \<open>Defaults\<close>

definition limits_default :: LimitsConfig where
  "limits_default =
     \<lparr>max_request_bytes = 33554432, max_response_bytes = 5368709120,
      request_timeout_secs = 300, copy_inactivity_secs = 30\<rparr>"

definition fs_default :: FsConfig where
  "fs_default = \<lparr>fc_data_directory = ''./data''\<rparr>"

definition security_default :: SecurityConfig where
  "security_default =
     \<lparr>inter_service_token = None, trust_network = False, admin_enabled = False\<rparr>"

definition config_default :: AppConfig where
  "config_default =
     \<lparr>ac_port = 8080, ac_documentation_enabled = True, ac_cors_origin = [],
      ac_fs = fs_default, ac_s3 = None, ac_limits = limits_default,
      ac_security = security_default\<rparr>"

section \<open>The YAML shape\<close>

record SecurityConfigYaml =
  y_inter_service_token_env :: "string option"
  y_trust_network :: "bool option"

record FsConfigYaml =
  y_data_directory :: "string option"

record S3ConfigYaml =
  y_region :: string
  y_endpoint_url :: string
  y_bucket :: string
  y_bucket_path :: string
  y_access_key_id_env :: string
  y_secret_access_key_env :: string

record LimitsConfigYaml =
  y_max_request_bytes :: "u64 option"
  y_max_response_bytes :: "u64 option"
  y_request_timeout_secs :: "u64 option"
  y_copy_inactivity_secs :: "u64 option"

record AppConfigYaml =
  y_port :: "u16 option"
  y_documentation_enabled :: "bool option"
  y_cors_origin :: "string option"
  y_fs :: "FsConfigYaml option"
  y_s3 :: "S3ConfigYaml option"
  y_limits :: "LimitsConfigYaml option"
  y_security :: "SecurityConfigYaml option"

definition unwrap_or :: "'a option \<Rightarrow> 'a \<Rightarrow> 'a" where
  "unwrap_or x d = (case x of Some v \<Rightarrow> v | None \<Rightarrow> d)"

lemma unwrap_or_simps [simp]: "unwrap_or None d = d" "unwrap_or (Some v) d = v"
  by (simp_all add: unwrap_or_def)

section \<open>The environment\<close>

definition admin_enabled_from_env :: "environment \<Rightarrow> bool" where
  "admin_enabled_from_env env =
     (case env ''FILEFERRY_ADMIN_ENABLED'' of Some v \<Rightarrow> env_truthy v | None \<Rightarrow> False)"

definition require_env :: "environment \<Rightarrow> string \<Rightarrow> string + string" where
  "require_env env name =
     (case env name of
        Some v \<Rightarrow> if v \<noteq> [] then Inr v
                  else Inl (''env var '' @ name @ '' referenced by config but is empty'')
      | None \<Rightarrow> Inl (''env var '' @ name @ '' referenced by config but is unset''))"

section \<open>Validation of the key prefix\<close>

text \<open>
  The \<open>Debug\<close> form of a string, exact on ASCII; characters beyond ASCII are taken to be
  printable.
\<close>

definition debug_char :: "char \<Rightarrow> string" where
  "debug_char c =
     (if c = CHR 0x09 then [CHR 0x5C, CHR ''t'']
      else if c = CHR 0x0D then [CHR 0x5C, CHR ''r'']
      else if c = CHR 0x0A then [CHR 0x5C, CHR ''n'']
      else if c = CHR 0x00 then [CHR 0x5C, CHR ''0'']
      else if c = CHR 0x22 \<or> c = CHR 0x5C then [CHR 0x5C, c]
      else if byte_val c < 32 \<or> byte_val c = 127 then
        [CHR 0x5C] @ ''u{'' @
        (if byte_val c < 16 then hex_fixed 1 (byte_val c) else hex_fixed 2 (byte_val c)) @ ''}''
      else [c])"

definition debug_string :: "string \<Rightarrow> string" where
  "debug_string s = [CHR 0x22] @ concat (map debug_char s) @ [CHR 0x22]"

definition s3_config_validate :: "S3Config \<Rightarrow> string + unit" where
  "s3_config_validate cfg =
     (if contains ''..'' (sc_bucket_path cfg) then
        Inl (''config.s3.bucket_path may not contain '' @ [CHR 0x27] @ ''..'' @ [CHR 0x27] @
             '' (rejected value: '' @ debug_string (sc_bucket_path cfg) @ '')'')
      else if starts_with ''/'' (sc_bucket_path cfg) then
        Inl (''config.s3.bucket_path may not start with '' @ [CHR 0x27] @ ''/'' @ [CHR 0x27] @
             '' (rejected value: '' @ debug_string (sc_bucket_path cfg) @ '')'')
      else Inr ())"

section \<open>From YAML to the runtime configuration\<close>

definition security_from_yaml :: "environment \<Rightarrow> SecurityConfigYaml option \<Rightarrow>
    string + SecurityConfig" where
  "security_from_yaml env y =
     (case y of
        Some s \<Rightarrow>
          (case (case y_inter_service_token_env s of
                   Some name \<Rightarrow> if name \<noteq> [] then map_sum id Some (require_env env name)
                                else Inr None
                 | None \<Rightarrow> Inr None) of
             Inl e \<Rightarrow> Inl e
           | Inr token \<Rightarrow>
               Inr \<lparr>inter_service_token = token,
                    trust_network = unwrap_or (y_trust_network s) False,
                    admin_enabled = admin_enabled_from_env env\<rparr>)
      | None \<Rightarrow> Inr (security_default\<lparr>admin_enabled := admin_enabled_from_env env\<rparr>))"

definition limits_from_yaml :: "LimitsConfigYaml option \<Rightarrow> LimitsConfig" where
  "limits_from_yaml y =
     \<lparr>max_request_bytes =
        unwrap_or (Option.bind y y_max_request_bytes) (max_request_bytes limits_default),
      max_response_bytes =
        unwrap_or (Option.bind y y_max_response_bytes) (max_response_bytes limits_default),
      request_timeout_secs =
        unwrap_or (Option.bind y y_request_timeout_secs) (request_timeout_secs limits_default),
      copy_inactivity_secs =
        unwrap_or (Option.bind y y_copy_inactivity_secs) (copy_inactivity_secs limits_default)\<rparr>"

definition s3_from_yaml :: "environment \<Rightarrow> S3ConfigYaml \<Rightarrow> string + S3Config" where
  "s3_from_yaml env s3 =
     (case require_env env (y_access_key_id_env s3) of Inl e \<Rightarrow> Inl e
      | Inr access_key_id \<Rightarrow>
     (case require_env env (y_secret_access_key_env s3) of Inl e \<Rightarrow> Inl e
      | Inr secret_access_key \<Rightarrow>
          (let s3_cfg = \<lparr>sc_region = y_region s3, sc_endpoint_url = y_endpoint_url s3,
                         sc_bucket = y_bucket s3, sc_bucket_path = y_bucket_path s3,
                         sc_access_key_id = access_key_id,
                         sc_secret_access_key = secret_access_key\<rparr>
           in case s3_config_validate s3_cfg of Inl e \<Rightarrow> Inl e | Inr u \<Rightarrow> Inr s3_cfg)))"

definition cors_refusal :: string where
  "cors_refusal =
     ''config.cors_origin is set but CORS is not implemented in this build. '' @
     ''Terminate CORS at your reverse proxy (see SECURITY.md) or leave the field empty.''"

definition from_yaml :: "environment \<Rightarrow> AppConfigYaml \<Rightarrow> string + AppConfig" where
  "from_yaml env y =
     (case security_from_yaml env (y_security y) of Inl e \<Rightarrow> Inl e
      | Inr security \<Rightarrow>
          (let cfg = \<lparr>ac_port = unwrap_or (y_port y) (ac_port config_default),
                      ac_documentation_enabled =
                        unwrap_or (y_documentation_enabled y)
                          (ac_documentation_enabled config_default),
                      ac_cors_origin = unwrap_or (y_cors_origin y) (ac_cors_origin config_default),
                      ac_fs = \<lparr>fc_data_directory =
                                 unwrap_or (Option.bind (y_fs y) y_data_directory)
                                   (fc_data_directory (ac_fs config_default))\<rparr>,
                      ac_s3 = None, ac_limits = limits_from_yaml (y_limits y),
                      ac_security = security\<rparr>
           in case (case y_s3 y of
                      Some s3 \<Rightarrow> (case s3_from_yaml env s3 of Inl e \<Rightarrow> Inl e
                                  | Inr s3_cfg \<Rightarrow> Inr (cfg\<lparr>ac_s3 := Some s3_cfg\<rparr>))
                    | None \<Rightarrow> Inr cfg) of
                Inl e \<Rightarrow> Inl e
              | Inr cfg' \<Rightarrow> if ac_cors_origin cfg' \<noteq> [] then Inl cors_refusal else Inr cfg'))"

section \<open>Loading\<close>

definition resolve_path :: "environment \<Rightarrow> fsys \<Rightarrow> string option \<Rightarrow> string option" where
  "resolve_path env s explicit_path =
     (case explicit_path of Some p \<Rightarrow> Some p
      | None \<Rightarrow>
          (let default_path = (if path_exists s (kpath_of ''./fileferry.yaml'')
                               then Some ''./fileferry.yaml'' else None)
           in case env ''FILEFERRY_CONFIG'' of
                Some env_path \<Rightarrow> if env_path \<noteq> [] then Some env_path else default_path
              | None \<Rightarrow> default_path))"

definition load_config :: "environment \<Rightarrow> (string \<Rightarrow> string + AppConfigYaml) \<Rightarrow> fsys \<Rightarrow>
    string option \<Rightarrow> (string + AppConfig) \<times> log_event list" where
  "load_config env parse_yaml s explicit_path =
     (case resolve_path env s explicit_path of
        None \<Rightarrow>
          (let cfg = config_default
                 \<lparr>ac_security := security_default\<lparr>admin_enabled := admin_enabled_from_env env\<rparr>\<rparr>
           in (Inr cfg,
               [\<lparr>ev_level = INFO,
                 ev_message = ''no fileferry.yaml found; using built-in defaults'',
                 ev_fields = []\<rparr>]))
      | Some path \<Rightarrow>
          (let logged = [\<lparr>ev_level = INFO, ev_message = ''loading config'',
                          ev_fields = [(''path'', from_utf8_lossy path)]\<rparr>]
           in case read_to_string s (kpath_of path) of
                Inl e \<Rightarrow> (Inl (''reading config '' @ from_utf8_lossy path @ '': '' @ io_display e),
                          logged)
              | Inr text \<Rightarrow>
                  (case parse_yaml text of
                     Inl e \<Rightarrow> (Inl (''parsing config '' @ from_utf8_lossy path @ '': '' @ e), logged)
                   | Inr yaml \<Rightarrow> (from_yaml env yaml, logged))))"

section \<open>Debug output\<close>

text \<open>
  A \<open>Debug\<close> implementation is the calls it makes to the formatter's builder; what a
  formatter prints is a function of this tree.
\<close>

datatype debug =
    DStr string
  | DNat nat
  | DBool bool
  | DNone
  | DSome debug
  | DStruct string "(string \<times> debug) list"

definition debug_opt :: "('a \<Rightarrow> debug) \<Rightarrow> 'a option \<Rightarrow> debug" where
  "debug_opt f x = (case x of Some v \<Rightarrow> DSome (f v) | None \<Rightarrow> DNone)"

definition debug_s3_config :: "S3Config \<Rightarrow> debug" where
  "debug_s3_config c =
     DStruct ''S3Config''
       [(''region'', DStr (sc_region c)), (''endpoint_url'', DStr (sc_endpoint_url c)),
        (''bucket'', DStr (sc_bucket c)), (''bucket_path'', DStr (sc_bucket_path c)),
        (''access_key_id'', DStr ''***REDACTED***''),
        (''secret_access_key'', DStr ''***REDACTED***'')]"

definition debug_security_config :: "SecurityConfig \<Rightarrow> debug" where
  "debug_security_config c =
     DStruct ''SecurityConfig''
       [(''inter_service_token'',
         debug_opt DStr (map_option (\<lambda>_. ''***REDACTED***'') (inter_service_token c))),
        (''trust_network'', DBool (trust_network c)),
        (''admin_enabled'', DBool (admin_enabled c))]"

text \<open>The derived ones.\<close>

definition debug_limits_config :: "LimitsConfig \<Rightarrow> debug" where
  "debug_limits_config c =
     DStruct ''LimitsConfig''
       [(''max_request_bytes'', DNat (unat (max_request_bytes c))),
        (''max_response_bytes'', DNat (unat (max_response_bytes c))),
        (''request_timeout_secs'', DNat (unat (request_timeout_secs c))),
        (''copy_inactivity_secs'', DNat (unat (copy_inactivity_secs c)))]"

definition debug_app_config :: "AppConfig \<Rightarrow> debug" where
  "debug_app_config c =
     DStruct ''AppConfig''
       [(''port'', DNat (unat (ac_port c))),
        (''documentation_enabled'', DBool (ac_documentation_enabled c)),
        (''cors_origin'', DStr (ac_cors_origin c)),
        (''fs'', DStruct ''FsConfig'' [(''data_directory'', DStr (fc_data_directory (ac_fs c)))]),
        (''s3'', debug_opt debug_s3_config (ac_s3 c)),
        (''limits'', debug_limits_config (ac_limits c)),
        (''security'', debug_security_config (ac_security c))]"

end
