(* ===== verification/S3Backend.thy ===== *)
theory S3Backend
  imports Backend Config
begin

text \<open>
  \<open>src/backend/s3.rs\<close>: the backend over an S3-compatible bucket. The client is the
  functions \<open>x_s3_list\<close>, \<open>x_s3_get\<close> and \<open>x_s3_put\<close> of the externs, over a service state;
  the backend itself keeps the client's settings, the bucket and the key prefix. The pages of a listing are read
  by a loop that ends when the service says so, so it is a partial function.
\<close>

record s3_client =
  cl_region :: string
  cl_access_key_id :: string
  cl_secret_access_key :: string
  cl_provider_name :: string
  cl_endpoint_url :: "string option"
  cl_force_path_style :: bool

record s3_backend_state =
  sb_client :: s3_client
  sb_bucket :: string
  sb_bucket_path :: string

definition s3_backend_new :: "S3Config \<Rightarrow> s3_backend_state res" where
  "s3_backend_new cfg =
     (let client = \<lparr>cl_region = sc_region cfg, cl_access_key_id = sc_access_key_id cfg,
                    cl_secret_access_key = sc_secret_access_key cfg,
                    cl_provider_name = ''fileferry-static'',
                    cl_endpoint_url = (if sc_endpoint_url cfg \<noteq> [] then Some (sc_endpoint_url cfg)
                                       else None),
                    cl_force_path_style = True\<rparr>
      in Inr \<lparr>sb_client = client, sb_bucket = sc_bucket cfg,
               sb_bucket_path = sc_bucket_path cfg\<rparr>)"

definition s3_key :: "s3_backend_state \<Rightarrow> string \<Rightarrow> string" where
  "s3_key sb path =
     (if sb_bucket_path sb = [] then path
      else if ends_with_char CHR ''/'' (sb_bucket_path sb) then sb_bucket_path sb @ path
      else sb_bucket_path sb @ ''/'' @ path)"

definition s3_strip_prefix :: "s3_backend_state \<Rightarrow> string \<Rightarrow> string option" where
  "s3_strip_prefix sb key =
     (if sb_bucket_path sb = [] then Some key
      else (let pre = (if ends_with_char CHR ''/'' (sb_bucket_path sb) then sb_bucket_path sb
                       else sb_bucket_path sb @ ''/'')
            in strip_prefix pre key))"

definition s3_prefix_arg :: "s3_backend_state \<Rightarrow> string option" where
  "s3_prefix_arg sb =
     (if sb_bucket_path sb = [] then None
      else if ends_with_char CHR ''/'' (sb_bucket_path sb) then Some (sb_bucket_path sb)
      else Some (sb_bucket_path sb @ ''/''))"

section \<open>Listing\<close>

text \<open>What the body of the inner loop makes of one object; \<open>None\<close> is \<open>continue\<close>.\<close>

definition s3_entry :: "s3_backend_state \<Rightarrow> s3_object \<Rightarrow> FileEntry option" where
  "s3_entry sb obj =
     (case ob_key obj of
        None \<Rightarrow> None
      | Some key \<Rightarrow>
          (case s3_strip_prefix sb key of
             None \<Rightarrow> None
           | Some name \<Rightarrow>
               if name = [] \<or> CHR ''/'' \<in> set name then None
               else
                 (let size = (case ob_size obj of Some n \<Rightarrow> n | None \<Rightarrow> 0);
                      size_u64 = (if size < 0 then 0 else word_of_int size);
                      last_modified = map_option (\<lambda>t. case t of Some str \<Rightarrow> str | None \<Rightarrow> [])
                                        (ob_last_modified obj)
                  in Some \<lparr>fe_name = name, fe_size = size_u64,
                           fe_last_modified = last_modified\<rparr>)))"

fun s3_collect :: "s3_backend_state \<Rightarrow> nat \<Rightarrow> s3_object list \<Rightarrow> FileEntry list \<Rightarrow> FileEntry list" where
  "s3_collect sb limit [] out = out"
| "s3_collect sb limit (obj # objs) out =
     (case s3_entry sb obj of
        None \<Rightarrow> s3_collect sb limit objs out
      | Some e \<Rightarrow>
          (let out' = out @ [e] in
           if length out' \<ge> limit then out' else s3_collect sb limit objs out'))"

definition s3_list_request :: "s3_backend_state \<Rightarrow> string option \<Rightarrow> string option \<Rightarrow> list_request" where
  "s3_list_request sb start_after_key continuation_token =
     \<lparr>lq_bucket = sb_bucket sb, lq_prefix = s3_prefix_arg sb, lq_token = continuation_token,
      lq_start_after = (case continuation_token of Some t \<Rightarrow> None | None \<Rightarrow> start_after_key)\<rparr>"

partial_function (option) s3_list_pages :: "'b externs \<Rightarrow> s3_backend_state \<Rightarrow> nat \<Rightarrow> string option \<Rightarrow>
    FileEntry list \<Rightarrow> string option \<Rightarrow> 'b \<Rightarrow> (FileEntry list res \<times> 'b) option" where
  "s3_list_pages X sb limit start_after_key out continuation_token b =
     (case x_s3_list X b (s3_list_request sb start_after_key continuation_token) of
        (Inl e, b') \<Rightarrow> Some (Inl (Upstream (''s3 list: '' @ e)), b')
      | (Inr resp, b') \<Rightarrow>
          (let contents = (case lo_contents resp of Some objs \<Rightarrow> objs | None \<Rightarrow> []);
               out' = s3_collect sb limit contents out;
               truncated = (case lo_is_truncated resp of Some t \<Rightarrow> t | None \<Rightarrow> False)
           in if length out' \<ge> limit \<or> \<not> truncated then Some (Inr out', b')
              else (case lo_next_token resp of
                      None \<Rightarrow> Some (Inr out', b')
                    | Some t \<Rightarrow>
                        s3_list_pages X sb limit start_after_key out' (Some t) b')))"

declare s3_list_pages.simps [code]

definition s3_list :: "'b externs \<Rightarrow> s3_backend_state \<Rightarrow> ListOptions \<Rightarrow> 'b world \<Rightarrow>
    (FileEntry list res \<times> 'b world) option" where
  "s3_list X sb opts w =
     (let limit = (case opt_limit opts of Some n \<Rightarrow> n | None \<Rightarrow> DEFAULT_LIST_LIMIT);
          start_after_key = map_option
            (\<lambda>name. case s3_prefix_arg sb of Some p \<Rightarrow> p @ name | None \<Rightarrow> name)
            (opt_start_after opts)
      in map_option (\<lambda>(r, b'). (r, w\<lparr>w_s3 := b'\<rparr>))
           (s3_list_pages X sb limit start_after_key [] None (w_s3 w)))"

section \<open>Reading and writing\<close>

definition s3_open_read :: "'b externs \<Rightarrow> s3_backend_state \<Rightarrow> string \<Rightarrow> 'b world \<Rightarrow>
    reader res \<times> 'b world" where
  "s3_open_read X sb path w =
     (let (r, b') = x_s3_get X (w_s3 w) (sb_bucket sb) (s3_key sb path);
          w' = w\<lparr>w_s3 := b'\<rparr>
      in case r of
           Inl (NoSuchKey m) \<Rightarrow> (Inl (NotFound path), w')
         | Inl (OtherGetError m) \<Rightarrow> (Inl (Upstream (''s3 get: '' @ m)), w')
         | Inr body \<Rightarrow> (Inr body, w'))"

definition s3_write_all :: "'b externs \<Rightarrow> s3_backend_state \<Rightarrow> string \<Rightarrow> reader \<Rightarrow> nat option \<Rightarrow>
    'b world \<Rightarrow> unit res \<times> 'b world" where
  "s3_write_all X sb path rd size_hint w =
     (case x_tmp_new X of Some e \<Rightarrow> (Inl (Io e), w)
      | None \<Rightarrow>
     (case x_tmp_create X of Some e \<Rightarrow> (Inl (Io e), w)
      | None \<Rightarrow>
          (let (buffered, err) = x_io_copy X rd in
           case err of Some e \<Rightarrow> (Inl (Io e), w)
           | None \<Rightarrow>
          (case x_flush X buffered of Some e \<Rightarrow> (Inl (Io e), w)
           | None \<Rightarrow>
          (case x_byte_stream X buffered of
             Inl m \<Rightarrow> (Inl (Upstream (''preparing upload: '' @ m)), w)
           | Inr body \<Rightarrow>
               (let (r, b') = x_s3_put X (w_s3 w) (sb_bucket sb) (s3_key sb path) body;
                    w' = w\<lparr>w_s3 := b'\<rparr>
                in case r of
                     Inl m \<Rightarrow> (Inl (Upstream (''s3 put: '' @ m)), w')
                   | Inr u \<Rightarrow> (Inr (), w')))))))"

definition s3_backend :: "'b externs \<Rightarrow> s3_backend_state \<Rightarrow> 'b backend" where
  "s3_backend X sb =
     \<lparr>be_kind = S3, be_list = s3_list X sb, be_open_read = s3_open_read X sb,
      be_write_all = s3_write_all X sb\<rparr>"

section \<open>The offline stub\<close>

text \<open>
  \<open>src/backend/offline.rs\<close>: it reports the configured type and refuses every call. The
  environment is a map from names to values that are valid Unicode.
\<close>

definition offline_error :: FerryError where
  "offline_error = Upstream ''offline mode: outbound blocked by FILEFERRY_OFFLINE''"

definition offline_backend :: "StorageType \<Rightarrow> 'b backend" where
  "offline_backend reports_as =
     \<lparr>be_kind = reports_as,
      be_list = (\<lambda>opts w. Some (Inl offline_error, w)),
      be_open_read = (\<lambda>path w. (Inl offline_error, w)),
      be_write_all = (\<lambda>path rd size_hint w. (Inl offline_error, w))\<rparr>"

definition offline_from_env :: "(string \<Rightarrow> string option) \<Rightarrow> bool" where
  "offline_from_env env = (case env ''FILEFERRY_OFFLINE'' of Some v \<Rightarrow> env_truthy v | None \<Rightarrow> False)"

section \<open>Keys\<close>

lemma s3_key_prefix_arg:
  "s3_key sb path = (case s3_prefix_arg sb of Some p \<Rightarrow> p @ path | None \<Rightarrow> path)"
  by (simp add: s3_key_def s3_prefix_arg_def)

lemma s3_strip_prefix_arg:
  "s3_strip_prefix sb key =
     (case s3_prefix_arg sb of Some p \<Rightarrow> strip_prefix p key | None \<Rightarrow> Some key)"
  by (simp add: s3_strip_prefix_def s3_prefix_arg_def)

lemma s3_strip_prefix_key: "s3_strip_prefix sb key = Some name \<longleftrightarrow> key = s3_key sb name"
  by (auto simp: s3_key_prefix_arg s3_strip_prefix_arg strip_prefix_Some_iff split: option.splits)

lemma s3_key_inj: "s3_key sb p = s3_key sb q \<Longrightarrow> p = q"
  by (auto simp: s3_key_prefix_arg split: option.splits)

end
