(* ===== verification/Middleware.thy ===== *)
theory Middleware
  imports S3Backend
begin

text \<open>
  The request pipeline's parts that are not handlers: header maps, the state of the
  application, the bearer-token gate (\<open>src/auth.rs\<close>), the default security headers
  (\<open>src/security_headers.rs\<close>), trace contexts (\<open>src/trace_headers.rs\<close>) and the access log
  (\<open>src/access_log.rs\<close>). A service maps a request and the world to a response and the
  world after it; \<open>None\<close> is a service that does not return.
\<close>

type_synonym 'b service = "request \<Rightarrow> 'b world \<Rightarrow> (response \<times> 'b world) option"

record 'b app_state =
  st_backends :: "'b backends"
  st_config :: AppConfig

section \<open>Header maps\<close>

definition header_get :: "string \<Rightarrow> (string \<times> string) list \<Rightarrow> string option" where
  "header_get name hs = map_of hs name"

text \<open>\<open>entry(name).or_insert(value)\<close> and \<open>insert(name, value)\<close>.\<close>

definition header_or_insert :: "string \<Rightarrow> string \<Rightarrow> (string \<times> string) list \<Rightarrow>
    (string \<times> string) list" where
  "header_or_insert name v hs = (if header_get name hs \<noteq> None then hs else hs @ [(name, v)])"

definition header_insert :: "string \<Rightarrow> string \<Rightarrow> (string \<times> string) list \<Rightarrow>
    (string \<times> string) list" where
  "header_insert name v hs = filter (\<lambda>(n, x). n \<noteq> name) hs @ [(name, v)]"

lemma header_get_or_insert [simp]:
  "header_get n (header_or_insert name v hs) =
     (if n = name then Some (case header_get name hs of Some x \<Rightarrow> x | None \<Rightarrow> v)
      else header_get n hs)"
  by (auto simp: header_or_insert_def header_get_def map_add_def split: option.splits)

lemma map_of_filter_other: "map_of (filter (\<lambda>(n, x). n \<noteq> name) hs) =
    (\<lambda>n. if n = name then None else map_of hs n)"
  by (induction hs) auto

lemma header_get_insert [simp]:
  "header_get n (header_insert name v hs) = (if n = name then Some v else header_get n hs)"
  by (auto simp: header_insert_def header_get_def map_of_filter_other map_add_def split: option.splits)

section \<open>The bearer-token gate\<close>

definition ct_eq_str :: "'b externs \<Rightarrow> string \<Rightarrow> string \<Rightarrow> bool" where
  "ct_eq_str X a b = (if length a \<noteq> length b then False else x_ct_eq X a b)"

definition unauthorized :: "string \<Rightarrow> response" where
  "unauthorized message = json_response 401 (error_body ''unauthorized'' message)"

definition presented_token :: "'b externs \<Rightarrow> request \<Rightarrow> string" where
  "presented_token X req =
     (let auth = (case Option.bind (header_get ''authorization'' (rq_headers req)) (x_hv_to_str X) of
                    Some v \<Rightarrow> v | None \<Rightarrow> [])
      in trim (case strip_prefix ''Bearer '' auth of Some t \<Rightarrow> t | None \<Rightarrow> []))"

definition require_bearer :: "'b externs \<Rightarrow> 'b app_state \<Rightarrow> 'b service \<Rightarrow> 'b service" where
  "require_bearer X st next_service req w =
     (case inter_service_token (ac_security (st_config st)) of
        None \<Rightarrow> next_service req w
      | Some expected \<Rightarrow>
          (let presented = presented_token X req in
           if presented = [] then Some (unauthorized ''missing bearer token'', w)
           else if \<not> ct_eq_str X presented expected then
             Some (unauthorized ''invalid bearer token'', w)
           else next_service req w))"

section \<open>Security headers\<close>

definition security_headers :: "'b service \<Rightarrow> 'b service" where
  "security_headers next_service req w =
     map_option (\<lambda>(response, w').
       (response\<lparr>r_headers :=
          header_or_insert ''referrer-policy'' ''no-referrer''
         (header_or_insert ''x-content-type-options'' ''nosniff''
         (header_or_insert ''x-frame-options'' ''DENY''
         (header_or_insert ''strict-transport-security''
            ''max-age=63072000; includeSubDomains; preload''
         (header_or_insert ''content-security-policy''
            (''default-src '' @ [CHR 0x27] @ ''none'' @ [CHR 0x27] @
             ''; frame-ancestors '' @ [CHR 0x27] @ ''none'' @ [CHR 0x27])
            (r_headers response)))))\<rparr>, w')) (next_service req w)"

section \<open>Trace contexts\<close>

definition xorshift64 :: "u64 \<Rightarrow> u64" where
  "xorshift64 s0 =
     (let s1 = xor s0 (push_bit 13 s0);
          s2 = xor s1 (drop_bit 7 s1)
      in xor s2 (push_bit 17 s2))"

fun xorshift_bytes :: "nat \<Rightarrow> u64 \<Rightarrow> u8 list" where
  "xorshift_bytes 0 s = []"
| "xorshift_bytes (Suc n) s =
     (let s' = xorshift64 s in ucast (and s' 0xff) # xorshift_bytes n s')"

text \<open>Nanoseconds since the epoch as a \<open>u64\<close>, 0 before the epoch.\<close>

definition epoch_nanos :: "int \<Rightarrow> u64" where
  "epoch_nanos t = (if t \<ge> 0 then word_of_int t else 0)"

definition random_bytes :: "'b externs \<Rightarrow> nat \<Rightarrow> 'b world \<Rightarrow> u8 list \<times> 'b world" where
  "random_bytes X n w =
     (let (t, w1) = system_now X w;
          seed = xor (epoch_nanos t) (w_trace_counter w1);
          w2 = w1\<lparr>w_trace_counter := w_trace_counter w1 + 1\<rparr>
      in (xorshift_bytes n seed, w2))"

definition hex_bytes :: "u8 list \<Rightarrow> string" where
  "hex_bytes bs = concat (map (\<lambda>b. hex_fixed 2 (unat b)) bs)"

definition generate_span_id :: "'b externs \<Rightarrow> 'b world \<Rightarrow> string \<times> 'b world" where
  "generate_span_id X w = (let (bs, w') = random_bytes X 8 w in (hex_bytes bs, w'))"

definition random_hex_128 :: "'b externs \<Rightarrow> 'b world \<Rightarrow> string \<times> 'b world" where
  "random_hex_128 X w = (let (bs, w') = random_bytes X 16 w in (hex_bytes bs, w'))"

text \<open>The trace id of an inbound \<open>traceparent\<close> header: the second of four parts, 32 hex digits.\<close>

definition inbound_trace_id :: "'b externs \<Rightarrow> request \<Rightarrow> string option" where
  "inbound_trace_id X req =
     (case Option.bind (header_get ''traceparent'' (rq_headers req)) (x_hv_to_str X) of
        None \<Rightarrow> None
      | Some s \<Rightarrow>
          (let parts = split_on CHR ''-'' s in
           if length parts = 4 \<and> length (parts ! 1) = 32 \<and> list_all is_ascii_hexdigit (parts ! 1)
           then Some (parts ! 1) else None))"

definition extract_or_generate_trace_id :: "'b externs \<Rightarrow> request \<Rightarrow> 'b world \<Rightarrow>
    string \<times> 'b world" where
  "extract_or_generate_trace_id X req w =
     (case inbound_trace_id X req of
        Some t \<Rightarrow> (to_ascii_lowercase t, w)
      | None \<Rightarrow> random_hex_128 X w)"

definition insert_if_valid :: "'b externs \<Rightarrow> string \<Rightarrow> string \<Rightarrow> response \<Rightarrow> response" where
  "insert_if_valid X name s response =
     (case x_hv_from_str X s of
        Some v \<Rightarrow> response\<lparr>r_headers := header_insert name v (r_headers response)\<rparr>
      | None \<Rightarrow> response)"

definition traceparent :: "'b externs \<Rightarrow> 'b service \<Rightarrow> 'b service" where
  "traceparent X next_service req w =
     (let (trace_id, w1) = extract_or_generate_trace_id X req w;
          (span_id, w2) = generate_span_id X w1;
          traceparent_value = ''00-'' @ trace_id @ ''-'' @ span_id @ ''-01''
      in map_option (\<lambda>(response, w3).
           (insert_if_valid X ''x-trace-id'' trace_id
              (insert_if_valid X ''traceparent'' traceparent_value response), w3))
         (next_service req w2))"

section \<open>The access log\<close>

definition extract_trace_id :: "'b externs \<Rightarrow> request \<Rightarrow> 'b world \<Rightarrow> string \<times> 'b world" where
  "extract_trace_id X req w =
     (case inbound_trace_id X req of
        Some t \<Rightarrow> (t, w)
      | None \<Rightarrow>
          (let (t, w1) = system_now X w;
               n = w_access_counter w1;
               w2 = w1\<lparr>w_access_counter := n + 1\<rparr>
           in (hex_fixed 16 (unat (epoch_nanos t + n)), w2)))"

definition access_event :: "string \<Rightarrow> string \<Rightarrow> nat \<Rightarrow> nat \<Rightarrow> string \<Rightarrow> log_event" where
  "access_event meth route st duration_us trace_id =
     \<lparr>ev_level = INFO, ev_message = ''http_request_completed'',
      ev_fields = [(''method'', meth), (''route'', route), (''status'', dec st),
                   (''duration_us'', dec duration_us), (''trace_id'', trace_id)]\<rparr>"

definition access_log_middleware :: "'b externs \<Rightarrow> 'b service \<Rightarrow> 'b service" where
  "access_log_middleware X next_service req w =
     (let (start, w1) = instant_now X w;
          meth = rq_method req;
          route = (case rq_matched_path req of Some m \<Rightarrow> m | None \<Rightarrow> ''<unmatched>'');
          (trace_id, w2) = extract_trace_id X req w1
      in map_option (\<lambda>(response, w3).
           (let st = r_status response;
                (stop, w4) = instant_now X w3;
                duration_us = (stop - start) div 1000
            in (response, emit [access_event meth route st duration_us trace_id] w4)))
         (next_service req w2))"

section \<open>Shapes of identifiers\<close>

definition is_lower_hex :: "char \<Rightarrow> bool" where
  "is_lower_hex c \<longleftrightarrow> is_ascii_digit c \<or> (CHR ''a'' \<le> c \<and> c \<le> CHR ''f'')"

lemma hex_digit_lower: "d < 16 \<Longrightarrow> is_lower_hex (hex_digit d)"
  unfolding is_lower_hex_def is_ascii_digit_def char_range hex_digit_def
  by (auto simp: byte_val_def)

lemma hex_fixed_lower: "c \<in> set (hex_fixed w n) \<Longrightarrow> is_lower_hex c"
  by (induction w arbitrary: n) (auto simp: hex_digit_lower)

lemma length_hex_bytes [simp]: "length (hex_bytes bs) = 2 * length bs"
  by (induction bs) (auto simp: hex_bytes_def)

lemma hex_bytes_lower: "c \<in> set (hex_bytes bs) \<Longrightarrow> is_lower_hex c"
  by (auto simp: hex_bytes_def dest: hex_fixed_lower)

lemma length_xorshift_bytes [simp]: "length (xorshift_bytes n s) = n"
  by (induction n arbitrary: s) (auto simp: Let_def)

lemma ascii_lower_hexdigit: "is_ascii_hexdigit c \<Longrightarrow> is_lower_hex (ascii_lower c)"
  unfolding is_lower_hex_def is_ascii_hexdigit_def is_ascii_digit_def ascii_lower_def char_range
  by (auto simp: byte_val_def)

lemma inbound_trace_id_Some:
  "inbound_trace_id X req = Some t \<Longrightarrow> length t = 32 \<and> (\<forall>c \<in> set t. is_ascii_hexdigit c)"
  by (auto simp: inbound_trace_id_def Let_def list_all_iff split: option.splits if_splits)

lemma trace_id_shape:
  assumes "extract_or_generate_trace_id X req w = (t, w')"
  shows "length t = 32 \<and> (\<forall>c \<in> set t. is_lower_hex c)"
proof (cases "inbound_trace_id X req")
  case None
  with assms show ?thesis
    by (auto simp: extract_or_generate_trace_id_def random_hex_128_def random_bytes_def Let_def
        dest: hex_bytes_lower split: prod.splits)
next
  case (Some s)
  with assms have "t = to_ascii_lowercase s" by (simp add: extract_or_generate_trace_id_def)
  with inbound_trace_id_Some [OF Some] show ?thesis
    by (auto simp: to_ascii_lowercase_def intro: ascii_lower_hexdigit)
qed

lemma span_id_shape:
  "generate_span_id X w = (t, w') \<Longrightarrow> length t = 16 \<and> (\<forall>c \<in> set t. is_lower_hex c)"
  by (auto simp: generate_span_id_def random_bytes_def Let_def dest: hex_bytes_lower
      split: prod.splits)

end
