(* ===== verification/Router.thy ===== *)
theory Router
  imports FsBackend Middleware Validate
begin

text \<open>
  \<open>src/extract.rs\<close> and \<open>src/router.rs\<close>: the typed extractors, the five handlers, the route
  table and the layers around it. Matching a method and a path against the route table is
  axum's: \<open>get\<close> also serves \<open>HEAD\<close> without the body, another method is answered 405 with
  an \<open>allow\<close> header, an unknown path goes to the fallback. \<open>TraceLayer\<close> leaves the response as it is, and
  its own log events are not modelled.
\<close>

section \<open>Extractors\<close>

definition BODY_READ_TIMEOUT :: nat where
  "BODY_READ_TIMEOUT = 30"

definition typed_query :: "'b externs \<Rightarrow> request \<Rightarrow> ListFilesQuery res" where
  "typed_query X req =
     (case x_query X req of
        Inr v \<Rightarrow> Inr v
      | Inl (FailedToDeserializeQueryString err) \<Rightarrow> Inl (BadQuery (clip_user_message err))
      | Inl (OtherQueryRejection other) \<Rightarrow> Inl (BadQuery (clip_user_message other)))"

definition typed_json :: "'b externs \<Rightarrow> request \<Rightarrow> CopyFileRequest res" where
  "typed_json X req =
     (case x_json_within X BODY_READ_TIMEOUT req of
        Inl elapsed \<Rightarrow> Inl BodyReadTimeout
      | Inr (Inr v) \<Rightarrow> Inr v
      | Inr (Inl (JsonRejection st msg)) \<Rightarrow>
          if st = 413 then Inl (BodyTooLarge 0) else Inl (BadBody (clip_user_message msg)))"

section \<open>Handlers\<close>

definition root_response :: response where
  "root_response = json_response 200 (JObj [(''data'', JStr ''FileFerry'')])"

definition health_response :: response where
  "health_response = json_response 200 (JObj [(''status'', JStr ''ok'')])"

definition desc :: "string \<Rightarrow> json" where
  "desc s = JObj [(''description'', JStr s)]"

definition enum_schema :: json where
  "enum_schema = JObj [(''type'', JStr ''string''), (''enum'', JArr [JStr ''FS'', JStr ''S3''])]"

definition string_schema :: json where
  "string_schema = JObj [(''type'', JStr ''string'')]"

definition openapi_list_parameters :: json where
  "openapi_list_parameters =
     JArr [JObj [(''name'', JStr ''type''), (''in'', JStr ''query''), (''required'', JBool True),
                 (''schema'', enum_schema)],
           JObj [(''name'', JStr ''limit''), (''in'', JStr ''query''), (''required'', JBool False),
                 (''schema'', JObj [(''type'', JStr ''integer''), (''minimum'', JNum 1),
                                    (''maximum'', JNum MAX_LIST_LIMIT)])],
           JObj [(''name'', JStr ''startAfter''), (''in'', JStr ''query''),
                 (''required'', JBool False), (''schema'', string_schema)]]"

definition openapi_copy_schema :: json where
  "openapi_copy_schema =
     JObj [(''type'', JStr ''object''),
           (''required'', JArr [JStr ''sourceStorageType'', JStr ''sourceFilePath'',
              JStr ''destinationStorageType'', JStr ''destinationFilePath'']),
           (''properties'', JObj [(''sourceStorageType'', enum_schema),
              (''sourceFilePath'', string_schema), (''destinationStorageType'', enum_schema),
              (''destinationFilePath'', string_schema)])]"

definition openapi_doc :: json where
  "openapi_doc =
     JObj [(''openapi'', JStr ''3.1.0''),
       (''info'', JObj [(''title'', JStr ''FileFerry''), (''version'', JStr ''0.2.2-alpha''),
          (''description'', JStr (''Generic file-transfer proxy. '' @
             ''See docs at /introduction.md in the book.''))]),
       (''paths'', JObj
         [(''/'', JObj [(''get'', JObj [(''summary'', JStr ''Service banner''),
             (''responses'', JObj [(''200'', desc ''ok'')])])]),
          (''/health'', JObj [(''get'', JObj [(''summary'', JStr ''Liveness''),
             (''responses'', JObj [(''200'', desc ''ok'')])])]),
          (''/v1/files'', JObj [(''get'', JObj
            [(''summary'', JStr ''List root-level files in a backend''),
             (''parameters'', openapi_list_parameters),
             (''responses'', JObj
               [(''200'', desc ''file list (see meta.nextCursor for pagination)''),
                (''413'', desc ''limit exceeds server cap'')])])]),
          (''/v1/files/copy'', JObj [(''post'', JObj
            [(''summary'', JStr ''Copy a file between backends''),
             (''requestBody'', JObj [(''required'', JBool True),
               (''content'', JObj [(''application/json'',
                  JObj [(''schema'', openapi_copy_schema)])])]),
             (''responses'', JObj
               [(''204'', desc ''copied''),
                (''400'', desc ''invalid path or same source/destination''),
                (''404'', desc ''source not found''),
                (''502'', desc ''upstream storage failure'')])])])])]"

definition openapi :: "'b app_state \<Rightarrow> response" where
  "openapi st =
     (if \<not> admin_enabled (ac_security (st_config st)) then status_response 404
      else if \<not> ac_documentation_enabled (st_config st) then
        json_response 404 (JObj [(''error'', JStr ''documentation_disabled'')])
      else json_response 200 openapi_doc)"

definition list_files :: "'b app_state \<Rightarrow> ListFilesQuery \<Rightarrow> 'b world \<Rightarrow>
    (ListFilesResponse res \<times> 'b world) option" where
  "list_files st q w =
     (case pick (st_backends st) (lfq_storage_type q) of
        Inl e \<Rightarrow> Some (Inl e, w)
      | Inr backend \<Rightarrow>
          (case (case lfq_limit q of
                   None \<Rightarrow> Inr DEFAULT_LIST_LIMIT
                 | Some n \<Rightarrow> if n = 0 then Inr DEFAULT_LIST_LIMIT
                             else if n > MAX_LIST_LIMIT then Inl (ListLimitTooLarge MAX_LIST_LIMIT)
                             else Inr n) of
             Inl e \<Rightarrow> Some (Inl e, w)
           | Inr limit \<Rightarrow>
               (case (case lfq_start_after q of Some cursor \<Rightarrow> validate_path cursor
                      | None \<Rightarrow> Inr ()) of
                  Inl e \<Rightarrow> Some (Inl e, w)
                | Inr u \<Rightarrow>
                    (case be_list backend
                            \<lparr>opt_limit = Some limit, opt_start_after = lfq_start_after q\<rparr> w of
                       None \<Rightarrow> None
                     | Some (Inl e, w') \<Rightarrow> Some (Inl e, w')
                     | Some (Inr files, w') \<Rightarrow>
                         (let count = length files;
                              next_cursor = (if count = limit \<and> files \<noteq> []
                                             then Some (fe_name (last files)) else None)
                          in Some (Inr \<lparr>lfr_data = files,
                                        lfr_meta = \<lparr>meta_count = count,
                                                    meta_next_cursor = next_cursor\<rparr>\<rparr>, w'))))))"

definition copy_file :: "'b externs \<Rightarrow> 'b app_state \<Rightarrow> CopyFileRequest \<Rightarrow> 'b world \<Rightarrow>
    nat res \<times> 'b world" where
  "copy_file X st req w =
     (if source_storage_type req = destination_storage_type req then (Inl SameStorageType, w)
      else (case validate_path (source_file_path req) of Inl e \<Rightarrow> (Inl e, w)
      | Inr u1 \<Rightarrow>
     (case validate_path (destination_file_path req) of Inl e \<Rightarrow> (Inl e, w)
      | Inr u2 \<Rightarrow>
     (case pick (st_backends st) (source_storage_type req) of Inl e \<Rightarrow> (Inl e, w)
      | Inr src \<Rightarrow>
     (case pick (st_backends st) (destination_storage_type req) of Inl e \<Rightarrow> (Inl e, w)
      | Inr dst \<Rightarrow>
     (case stream_copy X src (source_file_path req) dst (destination_file_path req)
             (max_response_bytes (ac_limits (st_config st)))
             (1000 * unat (copy_inactivity_secs (ac_limits (st_config st)))) w of
        (Inl e, w') \<Rightarrow> (Inl e, w')
      | (Inr n, w') \<Rightarrow> (Inr 204, w')))))))"

section \<open>Services\<close>

definition fail_with :: "FerryError \<Rightarrow> 'b world \<Rightarrow> response \<times> 'b world" where
  "fail_with e w = (let (response, evs) = into_response e in (response, emit evs w))"

definition list_files_service :: "'b externs \<Rightarrow> 'b app_state \<Rightarrow> 'b service" where
  "list_files_service X st req w =
     (case typed_query X req of
        Inl e \<Rightarrow> Some (fail_with e w)
      | Inr q \<Rightarrow>
          (case list_files st q w of
             None \<Rightarrow> None
           | Some (Inl e, w') \<Rightarrow> Some (fail_with e w')
           | Some (Inr files, w') \<Rightarrow>
               Some (json_response 200 (list_files_response_json files), w')))"

definition copy_file_service :: "'b externs \<Rightarrow> 'b app_state \<Rightarrow> 'b service" where
  "copy_file_service X st req w =
     (case typed_json X req of
        Inl e \<Rightarrow> Some (fail_with e w)
      | Inr creq \<Rightarrow>
          (case copy_file X st creq w of
             (Inl e, w') \<Rightarrow> Some (fail_with e w')
           | (Inr st, w') \<Rightarrow> Some (status_response st, w')))"

definition method_not_allowed :: "string \<Rightarrow> response" where
  "method_not_allowed allowed = \<lparr>r_status = 405, r_headers = [(''allow'', allowed)], r_body = EmptyBody\<rparr>"

definition route_get :: "'b service \<Rightarrow> 'b service" where
  "route_get h req w =
     (if rq_method req = ''GET'' then h req w
      else if rq_method req = ''HEAD'' then
        map_option (\<lambda>(response, w'). (response\<lparr>r_body := EmptyBody\<rparr>, w')) (h req w)
      else Some (method_not_allowed ''GET,HEAD'', w))"

definition route_post :: "'b service \<Rightarrow> 'b service" where
  "route_post h req w =
     (if rq_method req = ''POST'' then h req w else Some (method_not_allowed ''POST'', w))"

definition route_table :: "'b externs \<Rightarrow> 'b app_state \<Rightarrow> (string \<times> 'b service) list" where
  "route_table X st =
     [(''/'', route_get (\<lambda>req w. Some (root_response, w))),
      (''/health'', route_get (\<lambda>req w. Some (health_response, w))),
      (''/api'', route_get (\<lambda>req w. Some (openapi st, w))),
      (''/v1/files'', require_bearer X st (route_get (list_files_service X st))),
      (''/v1/files/copy'', require_bearer X st (route_post (copy_file_service X st)))]"

text \<open>
  axum's default fallback, behind the gate or not: its \<open>layer\<close> wraps the fallback too, and \<open>merge\<close> keeps one of two.
\<close>

definition fallback :: "'b externs \<Rightarrow> 'b app_state \<Rightarrow> 'b service" where
  "fallback X st =
     (let not_found = (\<lambda>req w. Some (status_response 404, w))
      in if x_fallback_gated X then require_bearer X st not_found else not_found)"

definition routes :: "'b externs \<Rightarrow> 'b app_state \<Rightarrow> 'b service" where
  "routes X st req w =
     (case map_of (route_table X st) (rq_path req) of
        Some h \<Rightarrow> h req w
      | None \<Rightarrow> fallback X st req w)"

section \<open>Layers\<close>

definition timeout_layer :: "'b externs \<Rightarrow> u64 \<Rightarrow> 'b service \<Rightarrow> 'b service" where
  "timeout_layer X secs next_service req w =
     (case x_deadline X secs req w of
        Some w' \<Rightarrow> Some (status_response 408, w')
      | None \<Rightarrow> next_service req w)"

definition body_limit :: "nat \<Rightarrow> 'b service \<Rightarrow> 'b service" where
  "body_limit max_body next_service req w =
     next_service (req\<lparr>rq_body_limit := Some max_body\<rparr>) w"

definition build_router :: "'b externs \<Rightarrow> 'b app_state \<Rightarrow> 'b service" where
  "build_router X st req w =
     (let max_body = unat (max_request_bytes (ac_limits (st_config st)));
          timeout = request_timeout_secs (ac_limits (st_config st));
          api = routes X st;
          matched = (if map_of (route_table X st) (rq_path req) \<noteq> None
                     then Some (rq_path req) else None)
      in access_log_middleware X
           (security_headers
              (traceparent X
                 (body_limit max_body
                    (timeout_layer X timeout api))))
           (req\<lparr>rq_matched_path := matched\<rparr>) w)"

end
