(* ===== verification/KernelFacts.thy ===== *)
theory KernelFacts
  imports Kernel
begin

text \<open>
  Facts about the file system of \<open>Kernel\<close>: lookups after updates, what path resolution
  depends on, resolution below a directory without symbolic links, and the frame of
  \<open>mkdir\<close>, \<open>create_dir_all\<close> and \<open>open\<close>.
\<close>

section \<open>Lookups\<close>

lemma lookup_Nil [simp]: "lookup s [] = Some Dir"
  by (simp add: lookup_def)

lemma lookup_set_node:
  "lookup (set_node p n s) q =
     (if q = [] then Some Dir else if q = p then Some n else lookup s q)"
  by (simp add: lookup_def set_node_def update_conv')

lemma set_node_simps [simp]:
  "cwd (set_node p n s) = cwd s" "fault (set_node p n s) = fault s" "now (set_node p n s) = now s"
  by (simp_all add: set_node_def)

text \<open>Everything in the first file system is in the second, unchanged.\<close>

definition fs_le :: "fsys \<Rightarrow> fsys \<Rightarrow> bool" where
  "fs_le s s' \<longleftrightarrow> (\<forall>l n. lookup s l = Some n \<longrightarrow> lookup s' l = Some n) \<and>
     cwd s' = cwd s \<and> fault s' = fault s \<and> now s' = now s"

lemma fs_le_refl [simp]: "fs_le s s"
  by (simp add: fs_le_def)

lemma fs_le_trans: "fs_le a b \<Longrightarrow> fs_le b c \<Longrightarrow> fs_le a c"
  by (auto simp: fs_le_def)

lemma fs_le_lookup: "fs_le s s' \<Longrightarrow> lookup s l = Some n \<Longrightarrow> lookup s' l = Some n"
  by (simp add: fs_le_def)

lemma fs_le_set_node: "lookup s l = None \<Longrightarrow> fs_le s (set_node l n s)"
  by (auto simp: fs_le_def lookup_set_node)

section \<open>Path resolution\<close>


lemmas walk_Nil [simp] = walk.simps(1)

lemma walk_Cons_Dir:
  assumes "walk s fl k d (c # cs) = Inr l"
  shows "lookup s d = Some Dir"
  using assms by (subst (asm) walk.simps) (auto split: if_splits)

text \<open>
  One step of a walk, by what the next name is; \<open>walk_cases\<close> is the elimination rule.
\<close>

lemma walk_dot: "lookup s d = Some Dir \<Longrightarrow> walk s fl k d (''.'' # cs) = walk s fl k d cs"
  by (subst walk.simps) simp

lemma walk_dotdot:
  "lookup s d = Some Dir \<Longrightarrow> walk s fl k d (''..'' # cs) = walk s fl k (butlast d) cs"
  by (subst walk.simps) simp

lemma walk_None:
  assumes "lookup s d = Some Dir" "c \<noteq> ''.''" "c \<noteq> ''..''" "lookup s (d @ [c]) = None"
  shows "walk s fl k d (c # cs) = (if cs = [] then Inr (d @ [c]) else Inl ENOENT)"
  by (subst walk.simps) (simp add: assms)

lemma walk_plain_step:
  assumes "lookup s d = Some Dir" "c \<noteq> ''.''" "c \<noteq> ''..''" "lookup s (d @ [c]) = Some n"
    and "\<And>t. n \<noteq> Symlink t"
  shows "walk s fl k d (c # cs) = walk s fl k (d @ [c]) cs"
  by (subst walk.simps) (simp add: assms split: node.split)

lemma walk_link_last:
  assumes "lookup s d = Some Dir" "c \<noteq> ''.''" "c \<noteq> ''..''" "lookup s (d @ [c]) = Some (Symlink t)"
  shows "walk s False k d [c] = Inr (d @ [c])"
  by (subst walk.simps) (simp add: assms)

definition link_names :: "string \<Rightarrow> string list" where
  "link_names t = segments t @ (if last t = CHR ''/'' then [''.''] else [])"

lemma walk_link:
  assumes "lookup s d = Some Dir" "c \<noteq> ''.''" "c \<noteq> ''..''" "lookup s (d @ [c]) = Some (Symlink t)"
    and "cs \<noteq> [] \<or> fl"
  shows "walk s fl k d (c # cs) =
    (case k of 0 \<Rightarrow> Inl ELOOP
     | Suc k' \<Rightarrow> if t = [] then Inl ENOENT
                else walk s fl k' (if is_absolute t then [] else d) (link_names t @ cs))"
  using assms by (subst walk.simps) (auto simp: link_names_def split: nat.split)

lemma walk_induct [consumes 1, case_names Nil dot dotdot None plain link_last link]:
  assumes "walk s fl k d cs = Inr l"
    and "\<And>k d. P k d [] d"
    and "\<And>k d cs l. lookup s d = Some Dir \<Longrightarrow> walk s fl k d cs = Inr l \<Longrightarrow> P k d cs l \<Longrightarrow>
        P k d (''.'' # cs) l"
    and "\<And>k d cs l. lookup s d = Some Dir \<Longrightarrow> walk s fl k (butlast d) cs = Inr l \<Longrightarrow>
        P k (butlast d) cs l \<Longrightarrow> P k d (''..'' # cs) l"
    and "\<And>k d c. lookup s d = Some Dir \<Longrightarrow> c \<noteq> ''.'' \<Longrightarrow> c \<noteq> ''..'' \<Longrightarrow>
        lookup s (d @ [c]) = None \<Longrightarrow> P k d [c] (d @ [c])"
    and "\<And>k d c cs n l. lookup s d = Some Dir \<Longrightarrow> c \<noteq> ''.'' \<Longrightarrow> c \<noteq> ''..'' \<Longrightarrow>
        lookup s (d @ [c]) = Some n \<Longrightarrow> (\<And>t. n \<noteq> Symlink t) \<Longrightarrow>
        walk s fl k (d @ [c]) cs = Inr l \<Longrightarrow> P k (d @ [c]) cs l \<Longrightarrow> P k d (c # cs) l"
    and "\<And>k d c t. \<not> fl \<Longrightarrow> lookup s d = Some Dir \<Longrightarrow> c \<noteq> ''.'' \<Longrightarrow> c \<noteq> ''..'' \<Longrightarrow>
        lookup s (d @ [c]) = Some (Symlink t) \<Longrightarrow> P k d [c] (d @ [c])"
    and "\<And>k d c cs t l. lookup s d = Some Dir \<Longrightarrow> c \<noteq> ''.'' \<Longrightarrow> c \<noteq> ''..'' \<Longrightarrow>
        lookup s (d @ [c]) = Some (Symlink t) \<Longrightarrow> cs \<noteq> [] \<or> fl \<Longrightarrow> t \<noteq> [] \<Longrightarrow>
        walk s fl k (if is_absolute t then [] else d) (link_names t @ cs) = Inr l \<Longrightarrow>
        P k (if is_absolute t then [] else d) (link_names t @ cs) l \<Longrightarrow> P (Suc k) d (c # cs) l"
  shows "P k d cs l"
proof -
  have "s' = s \<Longrightarrow> fl' = fl \<Longrightarrow> walk s' fl' k d cs = Inr l \<Longrightarrow> P k d cs l" for s' fl'
  proof (induction s' fl' k d cs arbitrary: l rule: walk.induct)
    case (1 s' fl' k d)
    then show ?case using assms(2) by simp
  next
    case (2 s' fl' k d c cs)
    note eqs = "2.prems"(1,2)
    note w = "2.prems"(3) [unfolded eqs]
    have dir: "lookup s d = Some Dir" using w by (rule walk_Cons_Dir)
    note IH = "2.IH" [unfolded eqs]
    show ?case
    proof (cases "c = ''.'' \<or> c = ''..''")
      case True
      then show ?thesis
        using w dir assms(3,4) IH(1,2) by (auto simp: walk_dot walk_dotdot)
    next
      case False
      then have c: "c \<noteq> ''.''" "c \<noteq> ''..''" by auto
      show ?thesis
      proof (cases "lookup s (d @ [c])")
        case None
        with w dir c have "cs = []" "l = d @ [c]" by (auto simp: walk_None split: if_splits)
        with assms(5) [OF dir c None] show ?thesis by simp
      next
        case (Some n)
        show ?thesis
        proof (cases n)
          case (Symlink t)
          show ?thesis
          proof (cases "cs = [] \<and> \<not> fl")
            case True
            with w dir c Some Symlink show ?thesis
              by (auto simp: walk_link_last intro!: assms(7))
          next
            case False
            with w dir c Some Symlink obtain k' where k: "k = Suc k'" "t \<noteq> []"
              "walk s fl k' (if is_absolute t then [] else d) (link_names t @ cs) = Inr l"
              by (auto simp: walk_link split: nat.splits if_splits)
            have "P k' (if is_absolute t then [] else d) (link_names t @ cs) l"
              using IH False dir c Some Symlink k by (auto simp: link_names_def)
            with assms(8) [OF dir c] Some Symlink False k show ?thesis by auto
          qed
        qed (use w dir c Some assms(6) [OF dir c Some] IH in \<open>auto simp: walk_plain_step\<close>)
      qed
    qed
  qed
  from this [OF refl refl assms(1)] show ?thesis .
qed

text \<open>Putting a regular file where there was none, or another one, moves no successful walk.\<close>

lemma walk_set_file:
  assumes "walk s fl k d cs = Inr l"
    and "lookup s p = None \<or> (\<exists>data t. lookup s p = Some (File data t))"
  shows "walk (set_node p (File data' t') s) fl k d cs = Inr l"
  using assms
proof (induction rule: walk_induct)
  case (dot k d cs l)
  then show ?case by (subst walk_dot) (auto simp: lookup_set_node)
next
  case (dotdot k d cs l)
  then show ?case by (subst walk_dotdot) (auto simp: lookup_set_node)
next
  case (None k d c)
  then show ?case
    by (cases "d @ [c] = p") (subst walk.simps; auto simp: lookup_set_node)+
next
  case (plain k d c cs n l)
  then show ?case
    by (subst walk_plain_step [where n = "if d @ [c] = p then File data' t' else n"])
      (auto simp: lookup_set_node)
next
  case (link_last k d c t)
  then show ?case by (subst walk.simps) (auto simp: lookup_set_node)
next
  case (link k d c cs t l)
  then have "lookup (set_node p (File data' t') s) d = Some Dir"
    "lookup (set_node p (File data' t') s) (d @ [c]) = Some (Symlink t)"
    by (auto simp: lookup_set_node)
  with link show ?case by (simp add: walk_link)
qed simp

text \<open>A walk to an existing node takes the same way in a larger file system.\<close>

lemma walk_mono:
  assumes "walk s fl k d cs = Inr l" "fs_le s s'" "lookup s l \<noteq> None"
  shows "walk s' fl k d cs = Inr l"
  using assms
proof (induction rule: walk_induct)
  case (dot k d cs l)
  then show ?case by (simp add: walk_dot fs_le_lookup)
next
  case (dotdot k d cs l)
  then show ?case by (simp add: walk_dotdot fs_le_lookup)
next
  case (plain k d c cs n l)
  then show ?case by (subst walk_plain_step [where n = n]) (simp_all add: fs_le_lookup)
next
  case (link_last k d c t)
  then show ?case by (cases fl) (simp_all add: walk_link_last fs_le_lookup)
next
  case (link k d c cs t l)
  then show ?case by (simp add: walk_link [OF fs_le_lookup _ _ fs_le_lookup])
qed simp_all

text \<open>The last name of the path is the last name of its place, unless a link is followed.\<close>

lemma walk_last:
  assumes "walk s False k d cs = Inr l" "cs \<noteq> []" "last cs \<noteq> ''.''" "last cs \<noteq> ''..''"
  shows "l \<noteq> [] \<and> last l = last cs"
  using assms
proof (induction rule: walk_induct)
  case (plain k d c cs n l)
  then show ?case by (cases "cs = []") auto
qed auto

text \<open>Walking on from a directory the first part of a path leads to.\<close>

lemma walk_append:
  assumes "walk s True k d as = Inr R" "lookup s R = Some Dir" "cs \<noteq> []"
  shows "\<exists>k' \<le> k. walk s fl k d (as @ cs) = walk s fl k' R cs"
  using assms
proof (induction rule: walk_induct)
  case (link k d c as t l)
  then obtain k' where k': "k' \<le> k"
    "walk s fl k (if is_absolute t then [] else d) ((link_names t @ as) @ cs) = walk s fl k' l cs"
    by blast
  moreover have "walk s fl (Suc k) d (c # as @ cs) =
      walk s fl k (if is_absolute t then [] else d) (link_names t @ as @ cs)"
    using link by (subst walk_link) auto
  ultimately show ?case by (metis append.assoc append_Cons le_Suc_eq)
qed (auto simp: walk_dot walk_dotdot walk_plain_step)

text \<open>Dropping \<open>.\<close> from a path that leads to a directory.\<close>

abbreviation nodots :: "string list \<Rightarrow> string list" where
  "nodots \<equiv> filter (\<lambda>c. c \<noteq> ''.'')"

lemma nodots_ConsD:
  assumes "c # nodots cs = nodots ys"
  obtains zs us where "ys = zs @ c # us" "nodots zs = []" "nodots cs = nodots us" "c \<noteq> ''.''"
  using assms by (auto simp: Cons_eq_filter_iff filter_empty_conv)

lemma walk_dots:
  assumes "lookup s d = Some Dir" "nodots zs = []"
  shows "walk s fl k d (zs @ cs) = walk s fl k d cs"
  using assms by (induction zs) (auto simp: walk_dot split: if_splits)

lemma walk_nodots:
  assumes "walk s True k d cs = Inr l" "lookup s l = Some Dir" "nodots cs = nodots ys"
    and "lookup s d = Some Dir"
  shows "walk s True k d ys = Inr l"
  using assms
proof (induction arbitrary: ys rule: walk_induct)
  case (Nil k d)
  then show ?case using walk_dots [of s d ys True k "[]"] by simp
next
  case (dotdot k d cs l)
  then have eq: "''..'' # nodots cs = nodots ys" by simp
  from eq obtain zs us where ys: "ys = zs @ ''..'' # us" "nodots zs = []" "nodots cs = nodots us"
    by (rule nodots_ConsD)
  have up: "lookup s (butlast d) = Some Dir"
    using dotdot.hyps by (cases cs) (auto dest: walk_Cons_Dir simp: dotdot.prems)
  show ?case
    unfolding ys(1) by (simp add: walk_dots dotdot ys walk_dotdot up)
next
  case (plain k d c cs n l)
  then have eq: "c # nodots cs = nodots ys" by simp
  from eq obtain zs us where ys: "ys = zs @ c # us" "nodots zs = []" "nodots cs = nodots us"
    by (rule nodots_ConsD)
  have "lookup s (d @ [c]) = Some Dir"
    using plain.hyps plain.prems(1) by (cases cs) (auto dest: walk_Cons_Dir)
  then show ?case
    unfolding ys(1) using plain ys by (simp add: walk_dots walk_plain_step [where n = n])
next
  case (link k d c cs t l)
  then have eq: "c # nodots cs = nodots ys" by simp
  from eq obtain zs us where ys: "ys = zs @ c # us" "nodots zs = []" "nodots cs = nodots us"
    by (rule nodots_ConsD)
  have "walk s True k (if is_absolute t then [] else d) (link_names t @ us) = Inr l"
    using link.IH [of "link_names t @ us"] link.prems link.hyps(1) ys(3) by simp
  then show ?case
    unfolding ys(1) using link.hyps link.prems ys by (simp add: walk_dots walk_link)
qed (auto simp: walk_dot)

section \<open>Below a directory without links\<close>

definition plain_below :: "fsys \<Rightarrow> string list \<Rightarrow> bool" where
  "plain_below s R \<longleftrightarrow> (\<forall>l t. strict_prefix R l \<longrightarrow> lookup s l \<noteq> Some (Symlink t))"

definition dot_free :: "string list \<Rightarrow> bool" where
  "dot_free cs \<longleftrightarrow> (\<forall>c \<in> set cs. c \<noteq> ''.'' \<and> c \<noteq> ''..'')"

lemma dot_free_simps [simp]:
  "dot_free []" "dot_free (c # cs) \<longleftrightarrow> c \<noteq> ''.'' \<and> c \<noteq> ''..'' \<and> dot_free cs"
  "dot_free (as @ cs) \<longleftrightarrow> dot_free as \<and> dot_free cs"
  by (auto simp: dot_free_def)

lemma nodots_dot_free [simp]: "dot_free cs \<Longrightarrow> nodots cs = cs"
  by (auto simp: dot_free_def filter_id_conv)

lemma strict_prefix_snoc: "prefix R d \<Longrightarrow> strict_prefix R (d @ [c])"
  by (auto simp: strict_prefix_def prefix_def)

lemma walk_plain:
  assumes "walk s fl k d cs = Inr l" "plain_below s R" "prefix R d" "''..'' \<notin> set cs"
  shows "l = d @ nodots cs"
  using assms
proof (induction rule: walk_induct)
  case (plain k d c cs n l)
  then show ?case by (simp add: prefix_order.trans [of R d "d @ [c]"])
next
  case (link k d c cs t l)
  then show ?case using strict_prefix_snoc [of R d c] by (auto simp: plain_below_def)
qed auto

text \<open>Every initial part of a path that leads to a directory leads to an existing node.\<close>

lemma walk_initial_exists:
  assumes "walk s False k d as = Inr l" "walk s True k d (as @ bs) = Inr R" "lookup s R = Some Dir"
  shows "lookup s l \<noteq> None"
  using assms
proof (induction arbitrary: bs rule: walk_induct)
  case (Nil k d)
  then show ?case by (cases bs) (auto dest: walk_Cons_Dir)
next
  case (None k d c)
  then show ?case by (cases bs) (auto simp: walk_None)
next
  case (plain k d c cs n l)
  then show ?case by (simp add: walk_plain_step [where n = n])
next
  case (link k d c cs t l)
  then have "walk s True k (if is_absolute t then [] else d) ((link_names t @ cs) @ bs) = Inr R"
    by (simp add: walk_link)
  then show ?case using link.IH link.prems(2) by blast
qed (auto simp: walk_dot walk_dotdot)

lemma walk_plain_forward:
  assumes "\<And>i. i < length cs \<Longrightarrow> lookup s (d @ take i cs) = Some Dir"
    and "plain_below s R" "prefix R d" "dot_free cs"
  shows "walk s fl k d cs = Inr (d @ cs)"
  using assms
proof (induction cs arbitrary: d)
  case (Cons c cs)
  have d: "lookup s d = Some Dir" using Cons.prems(1) [of 0] by simp
  show ?case
  proof (cases "cs = []")
    case True
    have "\<And>t. lookup s (d @ [c]) \<noteq> Some (Symlink t)"
      using Cons.prems(2,3) strict_prefix_snoc [of R d c] by (auto simp: plain_below_def)
    then show ?thesis
      using True d Cons.prems(4)
      by (cases "lookup s (d @ [c])") (auto simp: walk_None walk_plain_step)
  next
    case False
    have dc: "lookup s (d @ [c]) = Some Dir" using Cons.prems(1) [of 1] False by simp
    have "lookup s ((d @ [c]) @ take i cs) = Some Dir" if "i < length cs" for i
      using Cons.prems(1) [of "Suc i"] that by simp
    then have "walk s fl k (d @ [c]) cs = Inr ((d @ [c]) @ cs)"
      using Cons.prems(2-4) by (intro Cons.IH) (auto simp: prefix_def)
    then show ?thesis using d dc Cons.prems(4) by (simp add: walk_plain_step [where n = Dir])
  qed
qed simp

section \<open>System calls\<close>

text \<open>The place a path names, no call being refused.\<close>

definition start_of :: "fsys \<Rightarrow> kpath \<Rightarrow> string list" where
  "start_of s kp = (if kp_abs kp then [] else cwd s)"

definition kp_walk_names :: "kpath \<Rightarrow> string list" where
  "kp_walk_names kp = kp_names kp @ (if kp_trailing kp then [''.''] else [])"

definition place :: "fsys \<Rightarrow> bool \<Rightarrow> kpath \<Rightarrow> errno + string list" where
  "place s fl kp = walk s fl MAXSYMLINKS (start_of s kp) (kp_walk_names kp)"

lemma place_set_file:
  assumes "place s fl kp = Inr l" "lookup s p = None \<or> (\<exists>data t. lookup s p = Some (File data t))"
  shows "place (set_node p (File data' t') s) fl kp = Inr l"
  using assms(1) unfolding place_def start_of_def set_node_simps by (rule walk_set_file [OF _ assms(2)])

lemma sys_walk_Inr: "sys_walk s call fl kp = Inr l \<Longrightarrow> place s fl kp = Inr l \<and> fault s call kp = None"
  by (auto simp: sys_walk_def place_def start_of_def kp_walk_names_def
      split: if_splits option.splits sum.splits)

lemma sys_walk_ENOENT:
  "sys_walk s call fl kp = Inl (Os ENOENT) \<Longrightarrow> \<forall>call kp. fault s call kp \<noteq> Some ENOENT \<Longrightarrow>
   kp_abs kp \<or> kp_names kp \<noteq> [] \<Longrightarrow> place s fl kp = Inl ENOENT"
  by (auto simp: sys_walk_def place_def start_of_def kp_walk_names_def
      split: if_splits option.splits sum.splits)

lemma open_rdonly_Inr:
  "open_rdonly s kp = Inr n \<Longrightarrow>
   \<exists>l. place s False kp = Inr l \<and> lookup s l = Some n \<and> (\<forall>t. n \<noteq> Symlink t)"
  by (auto simp: open_rdonly_def dest!: sys_walk_Inr split: sum.splits option.splits node.splits)

text \<open>What \<open>open\<close> for writing finds, and leaves.\<close>

definition opened :: "fsys \<Rightarrow> string list \<Rightarrow> fsys \<Rightarrow> bool" where
  "opened s l s' \<longleftrightarrow>
     ((lookup s l = None \<or> (\<exists>d t. lookup s l = Some (File d t))) \<and>
      s' = set_node l (File [] (now s)) s) \<or>
     ((\<exists>d. lookup s l = Some (Special d)) \<and> s' = s)"

lemma open_trunc_Inr:
  "open_trunc s kp = (Inr l, s') \<Longrightarrow>
   place s False kp = Inr l \<and> \<not> kp_trailing kp \<and> l \<noteq> [] \<and> opened s l s'"
proof -
  assume o: "open_trunc s kp = (Inr l, s')"
  then have kt: "\<not> kp_trailing kp" by (auto simp: open_trunc_def split: sum.splits if_splits)
  then have "kp\<lparr>kp_trailing := False\<rparr> = kp" by simp
  with o kt show ?thesis
    by (cases "l = []")
      (auto simp: open_trunc_def opened_def dest!: sys_walk_Inr
        split: sum.splits option.splits node.splits)
qed

lemma open_trunc_Inl: "open_trunc s kp = (Inl e, s') \<Longrightarrow> s' = s"
  by (auto simp: open_trunc_def split: sum.splits option.splits node.splits if_splits)

lemma mkdir_cases:
  assumes "mkdir s kp = (r, s')"
  obtains (made) l where "r = Inr ()" "place s False (kp\<lparr>kp_trailing := False\<rparr>) = Inr l"
      "lookup s l = None" "s' = set_node l Dir s"
    | (refused) e where "r = Inl e" "s' = s"
proof (cases "sys_walk s SysMkdir False (kp\<lparr>kp_trailing := False\<rparr>)")
  case (Inl e)
  with assms show ?thesis by (intro refused [of e]) (simp_all add: mkdir_def)
next
  case (Inr l)
  note pl = conjunct1 [OF sys_walk_Inr [OF Inr]]
  show ?thesis
  proof (cases "lookup s l")
    case None
    with assms Inr pl show ?thesis by (intro made [of l]) (simp_all add: mkdir_def)
  next
    case (Some n)
    with assms Inr show ?thesis by (intro refused [of "Os EEXIST"]) (simp_all add: mkdir_def)
  qed
qed

lemma mkdir_fs_le: "mkdir s kp = (r, s') \<Longrightarrow> fs_le s s'"
  by (erule mkdir_cases) (auto simp: fs_le_set_node)

text \<open>
  An invariant of the file system that every \<open>mkdir\<close> of an ancestor keeps holds after
  \<open>create_dir_all\<close>.
\<close>

lemma create_dir_all_invariant:
  assumes "create_dir_all s cs = (r, s')" "P s"
    and "\<And>a s r s'. a \<in> set (ancestors_of cs) \<Longrightarrow> P s \<Longrightarrow> mkdir s (kpath_of_components a) = (r, s') \<Longrightarrow> P s'"
  shows "P s'"
  using assms
proof (induction "length cs" arbitrary: cs s r s' rule: less_induct)
  case less
  note step = less.prems(3)
  have self: "cs \<in> set (ancestors_of cs)" by simp
  show ?case
  proof (cases "cs = []")
    case True
    with less.prems(1,2) show ?thesis by (simp add: create_dir_all.simps [of s "[]"])
  next
    case False
    obtain r1 s1 where m: "mkdir s (kpath_of_components cs) = (r1, s1)" by fastforce
    have P1: "P s1" using step [OF self less.prems(2) m] .
    show ?thesis
    proof (cases "parent_components cs")
      case None
      with less.prems(1) m P1 False show ?thesis
        by (simp add: create_dir_all.simps [of s cs] split: sum.splits if_splits)
    next
      case (Some p)
      then have len: "length p < length cs"
        using False by (auto simp: parent_components_def split: if_splits)
      have anc: "a \<in> set (ancestors_of cs)" if "a \<in> set (ancestors_of p)" for a
        using that Some by (subst ancestors_of.simps) simp
      obtain r2 s2 where c: "create_dir_all s1 p = (r2, s2)" by fastforce
      have P2: "P s2" using less.hyps [OF len c P1] anc step by blast
      obtain r3 s3 where m3: "mkdir s2 (kpath_of_components cs) = (r3, s3)" by fastforce
      have P3: "P s3" using step [OF self P2 m3] .
      from less.prems(1) m c m3 Some False P1 P2 P3 show ?thesis
        by (simp add: create_dir_all.simps [of s cs] split: sum.splits if_splits)
    qed
  qed
qed

lemma create_dir_all_fs_le: "create_dir_all s cs = (r, s') \<Longrightarrow> fs_le s s'"
  by (erule create_dir_all_invariant) (auto intro: fs_le_trans mkdir_fs_le)

lemma write_node_lookup:
  "lookup (write_node s l data) q =
     (case lookup s l of
        Some (File d t) \<Rightarrow> if q = l then Some (File data (now s)) else lookup s q
      | _ \<Rightarrow> lookup s q)"
  by (auto simp: write_node_def lookup_set_node split: option.splits node.splits)

lemma write_node_set_node:
  "l \<noteq> [] \<Longrightarrow> write_node (set_node l (File d t) s) l data = set_node l (File data (now s)) (set_node l (File d t) s)"
  by (simp add: write_node_def lookup_set_node)

end
