(* ===== verification/Interfaces.thy ===== *)
theory Interfaces
  imports Backend
begin

text \<open>
  What the copy relies on of its two ends, as interfaces: a \<open>source\<close> delivers the content
  of what it opens or fails, a \<open>sink\<close> that reports success has stored exactly what it was
  given, an \<open>atomic_sink\<close> leaves its contents alone when the reader fails, and a \<open>transfer\<close>
  joins a source and a sink. The lemmas about \<open>stream_copy\<close> are proved here once, for any
  two ends; the backends' theories interpret the locales. (The contract of \<open>list\<close> is the locale
  \<open>listing\<close> of the theory \<open>Listing\<close>.)
\<close>

section \<open>The copy, end by end\<close>

definition store :: "'b world \<Rightarrow> fsys \<times> 'b" where
  "store w = (w_fs w, w_s3 w)"

lemma store_simps [simp]:
  "store (emit evs w) = store w" "store (w\<lparr>w_tick := t\<rparr>) = store w"
  by (simp_all add: store_def)

lemma stream_copy_cases:
  assumes "stream_copy X src sp dst dp mx inactivity w = (r, w')"
  obtains
    (no_source) e where "be_open_read src sp (w\<lparr>w_tick := Suc (w_tick w)\<rparr>) = (Inl e, w')" "r = Inl e"
  | (failed) rd w1 evs n e where
      "be_open_read src sp (w\<lparr>w_tick := Suc (w_tick w)\<rparr>) = (Inr rd, w1)"
      "drain (x_copy_buf X) (limited_reader_new (x_timeout_reader X inactivity rd) mx) = (evs, n)"
      "be_write_all dst dp evs None w1 = (Inl e, w')" "r = Inl e"
  | (copied) rd w1 evs n w2 ms where
      "be_open_read src sp (w\<lparr>w_tick := Suc (w_tick w)\<rparr>) = (Inr rd, w1)"
      "drain (x_copy_buf X) (limited_reader_new (x_timeout_reader X inactivity rd) mx) = (evs, n)"
      "be_write_all dst dp evs None w1 = (Inr (), w2)" "r = Inr n" "store w' = store w2"
      "w_log w' = w_log w2 @ [copy_event X (be_kind src) (be_kind dst) sp dp n ms]"
      "w' = emit [copy_event X (be_kind src) (be_kind dst) sp dp n ms] (w2\<lparr>w_tick := Suc (w_tick w2)\<rparr>)"
proof -
  define w0 where "w0 = w\<lparr>w_tick := Suc (w_tick w)\<rparr>"
  obtain o1 w1 where o: "be_open_read src sp w0 = (o1, w1)" by fastforce
  show ?thesis
  proof (cases o1)
    case (Inl e)
    with assms o no_source show ?thesis
      by (auto simp: stream_copy_def instant_now_def w0_def [symmetric])
  next
    case (Inr rd)
    obtain evs n where d: "drain (x_copy_buf X)
        (limited_reader_new (x_timeout_reader X inactivity rd) mx) = (evs, n)" by fastforce
    obtain o2 w2 where wr: "be_write_all dst dp evs None w1 = (o2, w2)" by fastforce
    show ?thesis
    proof (cases o2)
      case o2: (Inl e)
      with assms o Inr d wr show ?thesis
        using failed [of rd w1 evs n e] by (auto simp: stream_copy_def instant_now_def Let_def w0_def [symmetric])
    next
      case o2: (Inr u)
      with assms o Inr d wr show ?thesis
        using copied [of rd w1 evs n w2]
        by (auto simp: stream_copy_def instant_now_def Let_def w0_def [symmetric])
    qed
  qed
qed

section \<open>The reader between the two ends\<close>

lemma payload_cut: "prefix (payload (a @ [(d, Fault e)])) (payload (a @ b))"
  by (induction a rule: payload.induct) auto

lemma faulty_cut: "faulty (a @ [(d, Fault e)])"
  by (induction a rule: payload.induct) auto

lemma timeout_reader_cases:
  assumes "timeout_reader_ok X"
  obtains (same) "x_timeout_reader X b r = r" "list_all (\<lambda>ev. \<not> stalls b ev) r"
  | (cut) a d e c where "x_timeout_reader X b r = a @ [(d, Fault e)]" "r = a @ c"
proof (cases "list_all (\<lambda>ev. \<not> stalls b ev) r")
  case True
  with assms same show ?thesis by (auto simp: timeout_reader_ok_def)
next
  case False
  then have "\<exists>ev \<in> set r. stalls b ev" by (auto simp: list_all_iff)
  from split_list_first_prop [OF this] obtain a ev c where
    r: "r = a @ ev # c" "stalls b ev" "list_all (\<lambda>ev. \<not> stalls b ev) a"
    by (auto simp: list_all_iff)
  from assms have "r = a @ ev # c \<and> list_all (\<lambda>ev. \<not> stalls b ev) a \<and> stalls b ev \<longrightarrow>
      (\<exists>d e. x_timeout_reader X b r = a @ [(d, Fault e)])"
    unfolding timeout_reader_ok_def by blast
  with r obtain d e where "x_timeout_reader X b r = a @ [(d, Fault e)]" by blast
  with r cut show ?thesis by blast
qed

lemma timeout_reader_facts:
  assumes "timeout_reader_ok X" "proper r"
  shows "proper (x_timeout_reader X b r)" "prefix (payload (x_timeout_reader X b r)) (payload r)"
    "faulty r \<Longrightarrow> faulty (x_timeout_reader X b r)"
    "\<not> faulty (x_timeout_reader X b r) \<Longrightarrow> x_timeout_reader X b r = r"
proof -
  have "proper (x_timeout_reader X b r) \<and> prefix (payload (x_timeout_reader X b r)) (payload r) \<and>
      (faulty r \<longrightarrow> faulty (x_timeout_reader X b r)) \<and>
      (\<not> faulty (x_timeout_reader X b r) \<longrightarrow> x_timeout_reader X b r = r)"
    using assms(1)
  proof (cases rule: timeout_reader_cases [where b = b and r = r])
    case (cut a d e c)
    with assms(2) show ?thesis by (auto simp: proper_def payload_cut faulty_cut)
  qed (use assms(2) in simp)
  then show "proper (x_timeout_reader X b r)" "prefix (payload (x_timeout_reader X b r)) (payload r)"
    "faulty r \<Longrightarrow> faulty (x_timeout_reader X b r)"
    "\<not> faulty (x_timeout_reader X b r) \<Longrightarrow> x_timeout_reader X b r = r" by blast+
qed

text \<open>The cap leaves room for one more buffer below \<open>2 ^ 64\<close>, and buffers are not empty.\<close>

definition buffer_ok :: "'b externs \<Rightarrow> u64 \<Rightarrow> bool" where
  "buffer_ok X mx \<longleftrightarrow> 0 < x_copy_buf X \<and> unat mx + x_copy_buf X < 2 ^ 64"

lemma limited_facts:
  assumes "timeout_reader_ok X" "proper r" "buffer_ok X mx"
    and "drain (x_copy_buf X) (limited_reader_new (x_timeout_reader X b r) mx) = (evs, n)"
  shows "prefix (payload evs) (payload r)" "length (payload evs) \<le> unat mx"
    and "\<not> faulty evs \<Longrightarrow> payload evs = payload r \<and> unat n = length (payload r)"
    and "faulty r \<or> unat mx < length (payload r) \<Longrightarrow> faulty evs"
    and "\<not> faulty r \<Longrightarrow> length (payload r) \<le> unat mx \<Longrightarrow> list_all (\<lambda>ev. \<not> stalls b ev) r \<Longrightarrow> \<not> faulty evs"
proof -
  note tr = timeout_reader_facts [OF assms(1,2), of b]
  note ds = drain_spec [of 0 mx "x_copy_buf X" "x_timeout_reader X b r" evs n]
  have d: "drain (x_copy_buf X) \<lparr>lr_inner = x_timeout_reader X b r, lr_max = mx, lr_counter = 0\<rparr> = (evs, n)"
    using assms(4) by (simp add: limited_reader_new_def)
  note ds = ds [OF _ _ _ tr(1) d]
  have buf: "unat mx + x_copy_buf X < 2 ^ 64" "0 < x_copy_buf X" using assms(3) by (auto simp: buffer_ok_def)
  note ds = ds [OF _ buf]
  show p: "prefix (payload evs) (payload r)" using prefix_order.trans [OF ds(1) tr(2)] by simp
  show "length (payload evs) \<le> unat mx" using ds(2) by simp
  show "payload evs = payload r \<and> unat n = length (payload r)" if "\<not> faulty evs"
    using that ds(3,4) tr(4) by auto
  show "faulty evs" if "faulty r \<or> unat mx < length (payload r)"
    using that ds(4) tr(3,4) by fastforce
  show "\<not> faulty evs" if "\<not> faulty r" "length (payload r) \<le> unat mx" "list_all (\<lambda>ev. \<not> stalls b ev) r"
    using that ds(4) assms(1) by (auto simp: timeout_reader_ok_def)
qed

lemma limited_faulty:
  assumes "timeout_reader_ok X" "proper r" "buffer_ok X mx"
    and "drain (x_copy_buf X) (limited_reader_new (x_timeout_reader X b r) mx) = (evs, n)"
    and "faulty (x_timeout_reader X b r) \<or> unat mx < length (payload r)"
  shows "faulty evs"
  using drain_spec(4) [of 0 mx "x_copy_buf X" "x_timeout_reader X b r" evs n]
    limited_facts(4) [OF assms(1-4)] timeout_reader_facts(1) [OF assms(1,2), of b] assms(3-5)
  by (auto simp: limited_reader_new_def buffer_ok_def)

lemma prompt_reader:
  assumes "\<not> faulty r" "\<forall>ev \<in> set r. fst ev = 0"
  shows "list_all (\<lambda>ev. \<not> stalls b ev) r"
  using assms by (induction r rule: payload.induct) (auto simp: stalls_def)

section \<open>Sources and sinks\<close>

locale source =
  fixes src :: "'b backend"
    and content :: "string \<Rightarrow> fsys \<times> 'b \<Rightarrow> string option"
    and ready :: "string \<Rightarrow> fsys \<times> 'b \<Rightarrow> bool"
  assumes open_read_content:
      "ready p (store w) \<Longrightarrow> be_open_read src p w = (Inr rd, w') \<Longrightarrow>
       proper rd \<and> (faulty rd \<or> content p (store w) = Some (payload rd))"
    and open_read_keeps:
      "ready p (store w) \<Longrightarrow> be_open_read src p w = (r, w') \<Longrightarrow>
       content q (store w') = content q (store w)"

locale sink =
  fixes dst :: "'b backend"
    and content :: "string \<Rightarrow> fsys \<times> 'b \<Rightarrow> string option"
    and ready :: "string \<Rightarrow> fsys \<times> 'b \<Rightarrow> bool"
  assumes write_all_stored:
      "ready p (store w) \<Longrightarrow> be_write_all dst p rd h w = (Inr (), w') \<Longrightarrow>
       \<not> faulty rd \<and> content p (store w') = Some (payload rd)"

locale atomic_sink = sink +
  assumes write_all_faulty:
      "ready p (store w) \<Longrightarrow> faulty rd \<Longrightarrow> be_write_all dst p rd h w = (r, w') \<Longrightarrow>
       (\<exists>e. r = Inl e) \<and> content q (store w') = content q (store w)"

locale transfer = from_end: source src source_content source_ready + to_end: sink dst target_content target_ready
  for src :: "'b backend" and source_content source_ready
    and dst :: "'b backend" and target_content target_ready +
  assumes open_read_target_ready:
      "source_ready p (store w) \<Longrightarrow> target_ready q (store w) \<Longrightarrow>
       be_open_read src p w = (r, w') \<Longrightarrow> target_ready q (store w')"
begin

lemma copied_exactly:
  assumes "source_ready sp (store w)" "target_ready dp (store w)"
    and "timeout_reader_ok X" "buffer_ok X mx"
    and "stream_copy X src sp dst dp mx inactivity w = (Inr n, w')"
  shows "\<exists>data. source_content sp (store w) = Some data \<and> target_content dp (store w') = Some data \<and>
    unat n = length data \<and> length data \<le> unat mx"
  using assms(5)
proof (cases rule: stream_copy_cases)
  case (copied rd w1 evs m w2 ms)
  have sr: "source_ready sp (store (w\<lparr>w_tick := Suc (w_tick w)\<rparr>))" using assms(1) by simp
  have tr: "target_ready dp (store w1)"
    using open_read_target_ready [OF sr _ copied(1), of dp] assms(2) by simp
  note wa = to_end.write_all_stored [OF tr copied(3)]
  note oc = from_end.open_read_content [OF sr copied(1)]
  note lf = limited_facts [OF assms(3) conjunct1 [OF oc] assms(4) copied(2)]
  have "payload evs = payload rd" "unat m = length (payload rd)" "\<not> faulty rd"
    "length (payload rd) \<le> unat mx"
    using lf(2-4) wa by auto
  with oc wa copied(4,5) show ?thesis by auto
qed simp_all

text \<open>A source that ends in an error or exceeds the cap is never reported as copied.\<close>

lemma oversized_fails:
  assumes "source_ready sp (store w)" "target_ready dp (store w)"
    and "timeout_reader_ok X" "buffer_ok X mx"
    and "source_content sp (store w) = Some data" "unat mx < length data"
  shows "\<exists>e. fst (stream_copy X src sp dst dp mx inactivity w) = Inl e"
proof -
  obtain r w' where sc: "stream_copy X src sp dst dp mx inactivity w = (r, w')" by fastforce
  show ?thesis
  proof (cases r)
    case (Inr n)
    from copied_exactly [OF assms(1-4) sc [unfolded Inr]] assms(5,6) show ?thesis by auto
  qed (simp add: sc)
qed

end

locale atomic_transfer = transfer + to_end: atomic_sink dst target_content target_ready +
  assumes open_read_target_kept:
      "source_ready p (store w) \<Longrightarrow> be_open_read src p w = (r, w') \<Longrightarrow>
       target_content q (store w') = target_content q (store w)"
begin

text \<open>A copy whose source stalls, fails or is too big leaves the destination as it was.\<close>

lemma failed_source_changes_nothing:
  assumes "source_ready sp (store w)" "target_ready dp (store w)"
    and "timeout_reader_ok X" "buffer_ok X mx"
    and "be_open_read src sp (w\<lparr>w_tick := Suc (w_tick w)\<rparr>) = (Inr rd, w1)"
    and "faulty (x_timeout_reader X inactivity rd) \<or> unat mx < length (payload rd)"
    and "stream_copy X src sp dst dp mx inactivity w = (r, w')"
  shows "(\<exists>e. r = Inl e) \<and> target_content q (store w') = target_content q (store w)"
proof -
  have sr: "source_ready sp (store (w\<lparr>w_tick := Suc (w_tick w)\<rparr>))" using assms(1) by simp
  have tr: "target_ready dp (store w1)"
    using open_read_target_ready [OF sr _ assms(5), of dp] assms(2) by simp
  have kept: "target_content q (store w1) = target_content q (store w)"
    using open_read_target_kept [OF sr assms(5), of q] by simp
  note oc = from_end.open_read_content [OF sr assms(5)]
  note fault = limited_faulty [OF assms(3) conjunct1 [OF oc] assms(4) _ assms(6)]
  from assms(7) show ?thesis
  proof (cases rule: stream_copy_cases)
    case (no_source e)
    with assms(5) show ?thesis by simp
  next
    case (failed rd' w1' evs n e)
    then have "be_write_all dst dp evs None w1 = (Inl e, w')" "faulty evs"
      using assms(5) fault by auto
    with to_end.write_all_faulty [OF tr] failed(4) kept show ?thesis by metis
  next
    case (copied rd' w1' evs n w2 ms)
    then have "be_write_all dst dp evs None w1 = (Inr (), w2)" "faulty evs"
      using assms(5) fault by auto
    with to_end.write_all_stored [OF tr] show ?thesis by blast
  qed
qed

end

end
