(* ===== verification/FsFacts.thy ===== *)
theory FsFacts
  imports FsBackend KernelFacts Validate Interfaces
begin

text \<open>
  What the operations of the file-system backend do to the tree: which place a validated
  path names below the root, what creating its parents adds, and every way a write can
  end.
\<close>

section \<open>Validated paths\<close>

lemma validated_segments:
  "validate_path p = Inr () \<Longrightarrow> dot_free (segments p) \<and> p \<noteq> []"
  by (auto simp: validate_path_Inr_iff dot_free_def segments_def)

lemma segments_not_Nil: "\<not> is_absolute p \<Longrightarrow> p \<noteq> [] \<Longrightarrow> segments p \<noteq> []"
proof -
  assume p: "\<not> is_absolute p" "p \<noteq> []"
  then obtain c cs where "p = c # cs" "c \<noteq> CHR ''/''" by (cases p) (auto simp: is_absolute_def)
  then obtain seg segs where "split_on CHR ''/'' p = seg # segs" "seg \<noteq> []"
    by (cases "split_on CHR ''/'' cs") auto
  then show ?thesis by (simp add: segments_def)
qed

lemma body_components_dot_free: "dot_free segs \<Longrightarrow> body_components segs = map Normal segs"
  by (auto simp: body_components_def component_of_def dot_free_def filter_id_conv)

section \<open>The root directory\<close>

definition root_at :: "fsys \<Rightarrow> string \<Rightarrow> string list \<Rightarrow> bool" where
  "root_at s root R \<longleftrightarrow> root \<noteq> [] \<and>
     walk s True MAXSYMLINKS (if is_absolute root then [] else cwd s) (segments root) = Inr R \<and>
     lookup s R = Some Dir"

lemma root_at_mono: "root_at s root R \<Longrightarrow> fs_le s s' \<Longrightarrow> root_at s' root R"
  by (auto simp: root_at_def fs_le_def intro: walk_mono)

lemma kpath_of_join:
  assumes "\<not> is_absolute p" "root \<noteq> []" "segments p \<noteq> []"
  shows "kpath_of (path_join root p) =
    \<lparr>kp_abs = is_absolute root, kp_names = segments root @ segments p,
     kp_trailing = (last (path_join root p) = CHR ''/'')\<rparr>"
  using assms by (simp add: kpath_of_def is_absolute_join segments_join)

lemma place_join:
  assumes "root_at s root R" "plain_below s R" "\<not> is_absolute p" "segments p \<noteq> []"
    and "dot_free (segments p)"
    and "place s fl (kpath_of (path_join root p)) = Inr l"
  shows "l = R @ segments p"
proof -
  define rest where
    "rest = segments p @ (if last (path_join root p) = CHR ''/'' then [''.''] else [])"
  define d0 where "d0 = (if is_absolute root then [] else cwd s)"
  have "walk s fl MAXSYMLINKS d0 (segments root @ rest) = Inr l"
    using assms(1,3,4,6)
    by (simp add: place_def start_of_def kp_walk_names_def root_at_def kpath_of_join rest_def d0_def)
  moreover have "walk s True MAXSYMLINKS d0 (segments root) = Inr R" "lookup s R = Some Dir"
    using assms(1) by (simp_all add: root_at_def d0_def)
  moreover have "rest \<noteq> []" using assms(4) by (simp add: rest_def)
  ultimately obtain k where k: "walk s fl k R rest = Inr l"
    using walk_append [of s MAXSYMLINKS d0 "segments root" R rest fl] by auto
  have "''..'' \<notin> set rest" using assms(5) by (auto simp: rest_def dot_free_def)
  with walk_plain [OF k assms(2)] have "l = R @ nodots rest" by simp
  then show ?thesis using assms(5) by (simp add: rest_def)
qed

section \<open>Creating the parents of a file\<close>

lemma component_names_append [simp]:
  "component_names (as @ cs) = component_names as @ component_names cs"
  by (induction as rule: component_names.induct) auto

lemma component_names_Normal [simp]: "component_names (map Normal ns) = ns"
  by (induction ns) auto

lemma component_names_body:
  "component_names (body_components segs) = nodots segs"
  by (induction segs) (auto simp: body_components_def component_of_def)

lemma component_names_components:
  "nodots (component_names (components p)) = nodots (segments p)"
  by (auto simp: components_def component_names_body split: list.splits)

lemma RootDir_components: "RootDir \<in> set (components p) \<longleftrightarrow> is_absolute p"
  by (auto simp: components_def split: list.splits)

lemma ancestors_of_RootDir: "a \<in> set (ancestors_of (RootDir # cs)) \<Longrightarrow> RootDir \<in> set a"
proof (induction cs rule: rev_induct)
  case Nil
  then show ?case by (subst (asm) ancestors_of.simps) (simp add: parent_components_def)
next
  case (snoc c cs)
  then show ?case using ancestors_of_snoc [of "RootDir # cs" c] by auto
qed

lemma ancestor_abs:
  assumes "a \<in> set (ancestors_of (components q @ map Normal ns))"
  shows "RootDir \<in> set a \<longleftrightarrow> is_absolute q"
proof (cases "is_absolute q")
  case True
  then obtain cs where "components q = RootDir # cs" by (auto simp: components_def)
  with assms True show ?thesis using ancestors_of_RootDir [of a "cs @ map Normal ns"] by simp
next
  case False
  then have "RootDir \<notin> set (components q @ map Normal ns)" by (auto simp: RootDir_components)
  moreover have "set a \<subseteq> set (components q @ map Normal ns)"
    using ancestors_of_imp_prefix [OF assms] by (rule set_mono_prefix)
  ultimately show ?thesis using False by blast
qed

text \<open>
  The directories a write may add: new ones only, each a proper initial part of the file's
  own path below the root.
\<close>

definition grown :: "fsys \<Rightarrow> string list \<Rightarrow> string list \<Rightarrow> fsys \<Rightarrow> bool" where
  "grown s R segs s' \<longleftrightarrow> fs_le s s' \<and>
     (\<forall>l. lookup s' l \<noteq> lookup s l \<longrightarrow>
        lookup s l = None \<and> lookup s' l = Some Dir \<and> strict_prefix R l \<and> strict_prefix l (R @ segs))"

lemma grown_refl [simp]: "grown s R segs s"
  by (simp add: grown_def)

lemma grown_plain: "grown s R segs s' \<Longrightarrow> plain_below s R \<Longrightarrow> plain_below s' R"
  unfolding grown_def plain_below_def by (metis node.distinct(7) option.inject)

lemma grown_root: "grown s R segs s' \<Longrightarrow> root_at s root R \<Longrightarrow> root_at s' root R"
  by (auto simp: grown_def intro: root_at_mono)

lemma grown_set_node:
  assumes "grown s R segs s'" "lookup s' l = None" "strict_prefix R l" "strict_prefix l (R @ segs)"
  shows "grown s R segs (set_node l Dir s')"
proof -
  have "lookup s l = None" using assms(1,2) by (metis grown_def)
  moreover have "fs_le s (set_node l Dir s')"
    using assms(1,2) fs_le_set_node fs_le_trans grown_def by blast
  ultimately show ?thesis using assms by (auto simp: grown_def lookup_set_node)
qed

lemma walk_root_components:
  assumes "root_at s root R"
  shows "walk s True MAXSYMLINKS (if is_absolute root then [] else cwd s)
    (component_names (components root)) = Inr R"
proof -
  define d0 where "d0 = (if is_absolute root then [] else cwd s)"
  have w: "walk s True MAXSYMLINKS d0 (segments root) = Inr R" "lookup s R = Some Dir"
    using assms by (simp_all add: root_at_def d0_def)
  have "lookup s d0 = Some Dir"
    using w by (cases "segments root") (auto dest: walk_Cons_Dir)
  then show ?thesis
    using walk_nodots [OF w component_names_components [symmetric]] by (simp add: d0_def)
qed

lemma mkdir_ancestor_grown:
  assumes "root_at s root R" "plain_below s R" "dot_free segs" "segs \<noteq> []"
    and "grown s R segs s1"
    and "a \<in> set (ancestors_of (butlast (components root @ map Normal segs)))"
    and "mkdir s1 (kpath_of_components a) = (r, s2)"
  shows "grown s R segs s2"
  using assms(7)
proof (cases rule: mkdir_cases)
  case (refused e)
  with assms(5) show ?thesis by simp
next
  case (made l)
  note root1 = grown_root [OF assms(5,1)] and plain1 = grown_plain [OF assms(5,2)]
  have bl: "butlast (components root @ map Normal segs) =
      components root @ map Normal (butlast segs)"
    using assms(4) by (simp add: butlast_append map_butlast)
  define d0 where "d0 = (if is_absolute root then [] else cwd s1)"
  have abs: "RootDir \<in> set a \<longleftrightarrow> is_absolute root"
    using assms(6) ancestor_abs [of a root "butlast segs"] by (simp add: bl)
  have w: "walk s1 False MAXSYMLINKS d0 (component_names a) = Inr l"
    using made(2) abs by (simp add: place_def start_of_def kp_walk_names_def
        kpath_of_components_def d0_def)
  have wroot: "walk s1 True MAXSYMLINKS d0 (component_names (components root)) = Inr R"
    unfolding d0_def by (rule walk_root_components [OF root1])
  have pre: "prefix a (components root @ map Normal (butlast segs))"
    using assms(6) by (simp add: bl ancestors_of_imp_prefix)
  have Rdir: "lookup s1 R = Some Dir" using root1 by (simp add: root_at_def)
  show ?thesis
  proof (cases "prefix a (components root)")
    case True
    then obtain bs where "components root = a @ bs" by (auto simp: prefix_def)
    then have "lookup s1 l \<noteq> None"
      using walk_initial_exists [OF w _ Rdir] wroot by simp
    with made(3) show ?thesis by simp
  next
    case False
    then obtain us where us: "a = components root @ us" "us \<noteq> []"
      "prefix us (map Normal (butlast segs))"
      using pre by (auto simp: prefix_append)
    from us(3) obtain ns where "us = map Normal ns" "prefix ns (butlast segs)"
      using prefix_map_rightE by blast
    with us have a: "a = components root @ map Normal ns" "ns \<noteq> []" "prefix ns (butlast segs)"
      by auto
    then have dfree: "dot_free ns"
      using assms(3) set_mono_prefix [OF a(3)] by (auto simp: dot_free_def dest: in_set_butlastD)
    have "\<exists>k. walk s1 False k R ns = Inr l"
      using w walk_append [OF wroot Rdir a(2), of False] by (auto simp: a(1))
    then have l: "l = R @ ns"
      using walk_plain [OF _ plain1, of False _ R ns l] dfree by (auto simp: dot_free_def)
    have "strict_prefix (butlast segs) segs"
      using assms(4) by (metis append_butlast_last_id strict_prefixI')
    then have "strict_prefix ns segs" using a(3) by (rule prefix_order.le_less_trans [rotated])
    then have "strict_prefix R l" "strict_prefix l (R @ segs)"
      using a(2) l by (auto simp: strict_prefix_def)
    then show ?thesis using grown_set_node assms(5) made(3,4) by blast
  qed
qed

lemma create_parents_grown:
  assumes "root_at s root R" "plain_below s R" "\<not> is_absolute p" "segments p \<noteq> []"
    and "dot_free (segments p)"
    and "parent_components (components (path_join root p)) = Some parent"
    and "create_dir_all s parent = (r, s')"
  shows "grown s R (segments p) s'"
proof -
  have root: "root \<noteq> []" using assms(1) by (simp add: root_at_def)
  have "parent = butlast (components root @ map Normal (segments p))"
    using assms(3,5,6) root
    by (auto simp: parent_components_def components_join_prefix body_components_dot_free split: if_splits)
  with assms show ?thesis
    by (elim create_dir_all_invariant) (auto intro: mkdir_ancestor_grown)
qed

section \<open>How a write ends\<close>

lemma emit_Nil [simp]: "emit [] w = w"
  by (simp add: emit_def)

lemma resolve_Inr: "resolve root p s = (Inr q, evs) \<Longrightarrow> q = path_join root p \<and> evs = []"
  by (auto simp: resolve_def Let_def split: if_splits sum.splits node.splits)

lemma fs_write_all_cases:
  assumes "fs_write_all X root p rd h w = (r, w')"
  obtains
    (refused) e where "r = Inl e" "w_fs w' = w_fs w" "w_s3 w' = w_s3 w"
  | (no_parents) e s2 where "make_parents (path_join root p) (x_env X 2 (w_fs w)) = (Inl e, s2)"
      "r = Inl (Io e)" "w_fs w' = s2" "w_s3 w' = w_s3 w"
  | (not_opened) e s2 where "make_parents (path_join root p) (x_env X 2 (w_fs w)) = (Inr (), s2)"
      "r = Inl e" "w_fs w' = x_env X 3 s2" "w_s3 w' = w_s3 w"
  | (written) s2 l s4 data err where
      "make_parents (path_join root p) (x_env X 2 (w_fs w)) = (Inr (), s2)"
      "open_trunc (x_env X 3 s2) (kpath_of (path_join root p)) = (Inr l, s4)"
      "x_io_copy X rd = (data, err)" "w_fs w' = write_node s4 l data" "w_s3 w' = w_s3 w"
      "r = Inr () \<longleftrightarrow> err = None \<and> x_flush X data = None"
proof -
  obtain res evs where res: "resolve root p (w_fs w) = (res, evs)" by fastforce
  show ?thesis
  proof (cases res)
    case (Inl e)
    with assms res show ?thesis
      by (intro refused [of e]) (auto simp: fs_write_all_def)
  next
    case (Inr q)
    then have q: "q = path_join root p" and evs: "evs = []" using resolve_Inr res by blast+
    obtain made s2 where mp: "make_parents q (x_env X 2 (w_fs w)) = (made, s2)" by fastforce
    note defs = fs_write_all_def res Inr evs interfere_def Let_def
    show ?thesis
    proof (cases made)
      case made: (Inl e)
      with assms mp show ?thesis
        using no_parents [of e s2] by (auto simp: defs q)
    next
      case made: (Inr u)
      obtain opn s4 where o: "open_trunc (x_env X 3 s2) (kpath_of q) = (opn, s4)" by fastforce
      show ?thesis
      proof (cases opn)
        case (Inl e)
        with open_trunc_Inl o have "s4 = x_env X 3 s2" by blast
        with assms mp made o Inl show ?thesis
          using not_opened [of s2] mp by (auto simp: defs q split: if_splits)
      next
        case opn: (Inr l)
        obtain data err where c: "x_io_copy X rd = (data, err)" by fastforce
        show ?thesis
        proof (rule written [of s2 l s4 data err])
          show "make_parents (path_join root p) (x_env X 2 (w_fs w)) = (Inr (), s2)"
            using mp made q by simp
          show "open_trunc (x_env X 3 s2) (kpath_of (path_join root p)) = (Inr l, s4)"
            using o opn q by simp
        qed (use assms mp made o opn c in \<open>auto simp: defs q split: option.splits\<close>)
      qed
    qed
  qed
qed

lemma fs_write_all_s3: "w_s3 (snd (fs_write_all X root p rd h w)) = w_s3 w"
  by (cases "fs_write_all X root p rd h w") (auto elim: fs_write_all_cases)

section \<open>Contents\<close>

text \<open>
  The bytes a path names, for a reader that does not follow a final link; and paths whose
  last name no device or pipe bears.
\<close>

definition content_at :: "fsys \<Rightarrow> string \<Rightarrow> string option" where
  "content_at s q =
     (case place s False (kpath_of q) of
        Inl e \<Rightarrow> None
      | Inr l \<Rightarrow> (case lookup s l of
                   Some (File data t) \<Rightarrow> Some data | Some (Special data) \<Rightarrow> Some data
                 | _ \<Rightarrow> None))"

definition no_device_named :: "fsys \<Rightarrow> string \<Rightarrow> bool" where
  "no_device_named s p \<longleftrightarrow>
     (\<forall>l data. lookup s l = Some (Special data) \<longrightarrow> segments p = [] \<or> last l \<noteq> last (segments p))"

lemma fs_open_read_Inr:
  assumes "fs_open_read X root p w = (Inr rd, w')"
  shows "\<exists>n l. rd = node_reader X n \<and> place (x_env X 1 (w_fs w)) False (kpath_of (path_join root p)) = Inr l \<and>
    lookup (x_env X 1 (w_fs w)) l = Some n \<and> (\<forall>t. n \<noteq> Symlink t)"
proof -
  obtain res evs where res: "resolve root p (w_fs w) = (res, evs)" by fastforce
  with assms obtain q where q: "res = Inr q" by (cases res) (auto simp: fs_open_read_def)
  with res resolve_Inr have qq: "q = path_join root p" "evs = []" by blast+
  from assms obtain n where "rd = node_reader X n"
    "open_rdonly (x_env X 1 (w_fs w)) (kpath_of q) = Inr n"
    using res q qq by (auto simp: fs_open_read_def interfere_def Let_def split: sum.splits if_splits)
  with open_rdonly_Inr qq show ?thesis by blast
qed

lemma fs_open_read_world:
  "w_fs (snd (fs_open_read X root p w)) \<in> {w_fs w, x_env X 1 (w_fs w)}"
  "w_s3 (snd (fs_open_read X root p w)) = w_s3 w"
  by (auto simp: fs_open_read_def interfere_def Let_def split: prod.splits sum.splits if_splits)

lemma node_reader_content:
  assumes "file_reader_ok X" "\<forall>t. n \<noteq> Symlink t"
  shows "proper (node_reader X n)"
    "faulty (node_reader X n) \<or>
     (case n of File data t \<Rightarrow> payload (node_reader X n) = data
      | Special data \<Rightarrow> payload (node_reader X n) = data | _ \<Rightarrow> False)"
  using assms by (cases n; auto simp: node_reader_def file_reader_ok_def)+

lemma fs_open_read_content:
  assumes "quiet_env X" "file_reader_ok X" "fs_open_read X root p w = (Inr rd, w')"
  shows "proper rd" "faulty rd \<or> content_at (w_fs w) (path_join root p) = Some (payload rd)"
proof -
  from fs_open_read_Inr [OF assms(3)] assms(1) obtain n l where n: "rd = node_reader X n"
    "place (w_fs w) False (kpath_of (path_join root p)) = Inr l" "lookup (w_fs w) l = Some n"
    "\<forall>t. n \<noteq> Symlink t" by (auto simp: quiet_env_def)
  note nr = node_reader_content [OF assms(2) n(4)]
  show "proper rd" using nr n by simp
  show "faulty rd \<or> content_at (w_fs w) (path_join root p) = Some (payload rd)"
    using nr(2) n by (auto simp: content_at_def split: node.splits)
qed

lemma last_join: "segments p \<noteq> [] \<Longrightarrow> segments (path_join root p) \<noteq> [] \<and>
    last (segments (path_join root p)) = last (segments p)"
proof (cases "is_absolute p")
  case True
  then have "path_join root p = p" by (simp add: path_join_def)
  then show "segments p \<noteq> [] \<Longrightarrow> ?thesis" by simp
qed (simp add: segments_join)

lemma join_no_segments:
  assumes "segments p = []" "validate_path p = Inr ()"
  shows "kpath_of (path_join root p) = \<lparr>kp_abs = True, kp_names = [], kp_trailing = False\<rparr>"
proof -
  have "is_absolute p" using assms validated_segments segments_not_Nil by blast
  then show ?thesis using assms(1) by (simp add: path_join_def kpath_of_def)
qed

lemma place_last:
  assumes "place s False (kpath_of (path_join root p)) = Inr l" "validate_path p = Inr ()"
    and "\<not> kp_trailing (kpath_of (path_join root p))" "l \<noteq> []"
  shows "segments p \<noteq> [] \<and> last l = last (segments p)"
proof (cases "segments p = []")
  case True
  with assms show ?thesis
    by (simp add: join_no_segments place_def start_of_def kp_walk_names_def)
next
  case False
  have "last (segments p) \<in> set (segments p)" using False by simp
  then have "last (segments p) \<noteq> ''.''" "last (segments p) \<noteq> ''..''"
    using validated_segments [OF assms(2)] by (auto simp: dot_free_def)
  moreover have "walk s False MAXSYMLINKS (start_of s (kpath_of (path_join root p)))
      (segments (path_join root p)) = Inr l"
    using assms(1,3) by (simp add: place_def kp_walk_names_def) (simp add: kpath_of_def)
  ultimately show ?thesis using walk_last [of s MAXSYMLINKS _ "segments (path_join root p)" l]
      last_join [OF False, of root] False by auto
qed

lemma make_parents_fs_le: "make_parents q s = (r, s') \<Longrightarrow> fs_le s s'"
  by (auto simp: make_parents_def create_dir_all_fs_le split: option.splits)

lemma make_parents_special:
  assumes "make_parents q s = (r, s')" "lookup s' l = Some (Special data)"
  shows "lookup s l = Some (Special data)"
proof -
  have "\<forall>l d. lookup s' l = Some (Special d) \<longrightarrow> lookup s l = Some (Special d)"
  proof (cases "parent_components (components q)")
    case None
    with assms(1) show ?thesis by (simp add: make_parents_def)
  next
    case (Some parent)
    with assms(1) have "create_dir_all s parent = (r, s')" by (simp add: make_parents_def)
    then show ?thesis
    proof (rule create_dir_all_invariant)
      fix a s1 r1 s2
      assume "\<forall>l d. lookup s1 l = Some (Special d) \<longrightarrow> lookup s l = Some (Special d)"
        "mkdir s1 (kpath_of_components a) = (r1, s2)"
      then show "\<forall>l d. lookup s2 l = Some (Special d) \<longrightarrow> lookup s l = Some (Special d)"
        by (elim mkdir_cases) (auto simp: lookup_set_node split: if_splits)
    qed simp
  qed
  with assms(2) show ?thesis by blast
qed

lemma opened_written:
  assumes "opened s l s'" "l \<noteq> []" "place s False kp = Inr l" "\<forall>d. lookup s l \<noteq> Some (Special d)"
  shows "place (write_node s' l data) False kp = Inr l"
    "lookup (write_node s' l data) l = Some (File data (now s))"
proof -
  have leaf: "lookup s l = None \<or> (\<exists>d t. lookup s l = Some (File d t))"
    and s': "s' = set_node l (File [] (now s)) s"
    using assms(1,4) by (auto simp: opened_def)
  then have wn: "write_node s' l data = set_node l (File data (now s)) s'"
    using assms(2) by (simp add: write_node_def lookup_set_node)
  have "place s' False kp = Inr l"
    unfolding s' by (rule place_set_file [OF assms(3) leaf])
  then show "place (write_node s' l data) False kp = Inr l"
    unfolding wn by (rule place_set_file) (simp add: s' lookup_set_node assms(2))
  show "lookup (write_node s' l data) l = Some (File data (now s))"
    using assms(2) by (simp add: wn lookup_set_node)
qed

lemma fs_write_all_content:
  assumes "quiet_env X" "io_copy_ok X" "validate_path p = Inr ()" "no_device_named (w_fs w) p"
    and "fs_write_all X root p rd h w = (Inr (), w')"
  shows "\<not> faulty rd" "content_at (w_fs w') (path_join root p) = Some (payload rd)"
  using assms(5)
proof (atomize (full), cases rule: fs_write_all_cases)
  case (written s2 l s4 data err)
  have env: "x_env X i t = t" for i t using assms(1) by (simp add: quiet_env_def)
  note mp = written(1) [unfolded env] and ot = open_trunc_Inr [OF written(2) [unfolded env]]
  have err: "err = None" using written(6) by simp
  note ok = io_copy_okD [OF assms(2) written(3)]
  have "\<forall>d. lookup s2 l \<noteq> Some (Special d)"
    using place_last [OF _ assms(3), of s2 root l] ot make_parents_special [OF mp] assms(4)
    by (auto simp: no_device_named_def)
  with opened_written [of s2 l s4 "kpath_of (path_join root p)" data] ot ok err
  show "\<not> faulty rd \<and> content_at (w_fs w') (path_join root p) = Some (payload rd)"
    by (auto simp: written(4) content_at_def)
qed simp_all

section \<open>Confinement\<close>

text \<open>
  \<open>served s root R p\<close>: the root resolves to the directory \<open>R\<close>, no symbolic link lies below
  it, and \<open>p\<close> is a relative path the validator accepts.
\<close>

definition served :: "fsys \<Rightarrow> string \<Rightarrow> string list \<Rightarrow> string \<Rightarrow> bool" where
  "served s root R p \<longleftrightarrow> root_at s root R \<and> plain_below s R \<and> validate_path p = Inr () \<and> \<not> is_absolute p"

lemma servedD:
  assumes "served s root R p"
  shows "root_at s root R" "plain_below s R" "\<not> is_absolute p" "segments p \<noteq> []" "dot_free (segments p)"
  using assms validated_segments segments_not_Nil by (auto simp: served_def)

lemma make_parents_grown:
  assumes "served s root R p" "make_parents (path_join root p) s = (r, s')"
  shows "grown s R (segments p) s'"
proof (cases "parent_components (components (path_join root p))")
  case None
  with assms(2) show ?thesis by (simp add: make_parents_def)
next
  case (Some parent)
  with assms(2) have "create_dir_all s parent = (r, s')" by (simp add: make_parents_def)
  with Some create_parents_grown servedD [OF assms(1)] show ?thesis by blast
qed

lemma served_grown: "served s root R p \<Longrightarrow> grown s R segs s' \<Longrightarrow> served s' root R p"
  by (auto simp: served_def intro: grown_root grown_plain)

lemma opened_lookup:
  assumes "opened s l s'" "l \<noteq> []"
  shows "q \<noteq> l \<Longrightarrow> lookup (write_node s' l data) q = lookup s q"
    and "lookup (write_node s' l data) l = lookup s l \<or>
         lookup (write_node s' l data) l = Some (File data (now s))"
  using assms by (auto simp: opened_def write_node_lookup lookup_set_node split: option.splits node.splits)

lemma fs_write_frame:
  assumes "quiet_env X" "io_copy_ok X" "served (w_fs w) root R p"
    and "fs_write_all X root p rd h w = (r, w')"
  shows "\<exists>s2. grown (w_fs w) R (segments p) s2 \<and>
    (\<forall>l. l \<noteq> R @ segments p \<longrightarrow> lookup (w_fs w') l = lookup s2 l) \<and>
    (lookup (w_fs w') (R @ segments p) = lookup (w_fs w) (R @ segments p) \<or>
     (\<exists>data t. lookup (w_fs w') (R @ segments p) = Some (File data t) \<and> prefix data (payload rd)))"
proof -
  have env: "x_env X i t = t" for i t using assms(1) by (simp add: quiet_env_def)
  have same: "lookup s2 (R @ segments p) = lookup (w_fs w) (R @ segments p)"
    if "grown (w_fs w) R (segments p) s2" for s2
    using that unfolding grown_def by blast
  from assms(4) show ?thesis
  proof (cases rule: fs_write_all_cases)
    case (refused e)
    then show ?thesis by (intro exI [of _ "w_fs w"]) simp
  next
    case (no_parents e s2)
    then have g: "grown (w_fs w) R (segments p) s2"
      using make_parents_grown assms(3) by (auto simp: env)
    show ?thesis using g same [OF g] unfolding no_parents(3) by blast
  next
    case (not_opened e s2)
    then have g: "grown (w_fs w) R (segments p) s2"
      using make_parents_grown assms(3) by (auto simp: env)
    show ?thesis using g same [OF g] unfolding not_opened(3) env by blast
  next
    case (written s2 l s4 data err)
    then have g: "grown (w_fs w) R (segments p) s2"
      using make_parents_grown assms(3) by (auto simp: env)
    have o: "place s2 False (kpath_of (path_join root p)) = Inr l" "l \<noteq> []" "opened s2 l s4"
      using open_trunc_Inr [OF written(2)] by (auto simp: env)
    have l: "l = R @ segments p"
      using place_join o(1) servedD [OF served_grown [OF assms(3) g]] by blast
    have "prefix data (payload rd)" using io_copy_okD(1) [OF assms(2) written(3)] .
    moreover have "lookup (w_fs w') l = lookup s2 l \<or> lookup (w_fs w') l = Some (File data (now s2))"
      unfolding written(4) by (rule opened_lookup(2) [OF o(3,2)])
    moreover have "\<forall>q. q \<noteq> l \<longrightarrow> lookup (w_fs w') q = lookup s2 q"
      unfolding written(4) by (auto intro: opened_lookup(1) [OF o(3,2)])
    ultimately show ?thesis using g same [OF g] unfolding l by auto
  qed
qed

text \<open>A path the ancestors check refuses reaches no system call that opens or creates.\<close>

lemma refused_escape:
  assumes "\<not> ok_prefix root (path_join root p) s"
  shows "fst (resolve root p s) = Inl (InvalidPath ''resolved path escapes fs root'')"
  using assms by (simp add: resolve_def Let_def)

lemma ok_prefix_absolute:
  assumes "is_absolute p" "ok_prefix root (path_join root p) s"
  shows "prefix (components root) (components p) \<or>
    (\<exists>c. canonicalize s (kpath_of root) = Inr c \<and> prefix (components c) (components p))"
proof -
  have "path_join root p = p" using assms(1) by (simp add: path_join_def)
  with assms(2) show ?thesis
    by (auto simp: ok_prefix_def Let_def list_ex_iff dest: ancestors_of_imp_prefix split: sum.splits)
qed

section \<open>The backend as a source and a sink\<close>

definition fs_content :: "string \<Rightarrow> string \<Rightarrow> fsys \<times> 'b \<Rightarrow> string option" where
  "fs_content root p st = content_at (fst st) (path_join root p)"

definition fs_source_ready :: "'b externs \<Rightarrow> string \<Rightarrow> fsys \<times> 'b \<Rightarrow> bool" where
  "fs_source_ready X p st \<longleftrightarrow> quiet_env X \<and> file_reader_ok X"

definition fs_sink_ready :: "'b externs \<Rightarrow> string \<Rightarrow> fsys \<times> 'b \<Rightarrow> bool" where
  "fs_sink_ready X p st \<longleftrightarrow>
     quiet_env X \<and> io_copy_ok X \<and> validate_path p = Inr () \<and> no_device_named (fst st) p"

lemma fs_backend_simps [simp]:
  "be_kind (fs_backend X root) = Fs" "be_list (fs_backend X root) = fs_list X root"
  "be_open_read (fs_backend X root) = fs_open_read X root"
  "be_write_all (fs_backend X root) = fs_write_all X root"
  by (simp_all add: fs_backend_def)

lemma fs_open_read_store:
  assumes "quiet_env X" "fs_open_read X root p w = (r, w')"
  shows "store w' = store w"
  using fs_open_read_world [of X root p w] assms by (auto simp: store_def quiet_env_def)

interpretation fs_source: source "fs_backend X root" "fs_content root" "fs_source_ready X"
  for X :: "'b externs" and root
proof
  fix p w rd w'
  assume "fs_source_ready X p (store w)" "be_open_read (fs_backend X root) p w = (Inr rd, w')"
  then show "proper rd \<and> (faulty rd \<or> fs_content root p (store w) = Some (payload rd))"
    using fs_open_read_content [of X root p w rd w']
    by (auto simp: fs_source_ready_def fs_content_def store_def)
next
  fix p w r w' q
  assume "fs_source_ready X p (store w)" "be_open_read (fs_backend X root) p w = (r, w')"
  then show "fs_content root q (store w') = fs_content root q (store w)"
    using fs_open_read_store [of X root p w r w'] by (simp add: fs_source_ready_def)
qed

interpretation fs_sink: sink "fs_backend X root" "fs_content root" "fs_sink_ready X"
  for X :: "'b externs" and root
proof
  fix p w rd h w'
  assume "fs_sink_ready X p (store w)" "be_write_all (fs_backend X root) p rd h w = (Inr (), w')"
  then show "\<not> faulty rd \<and> fs_content root p (store w') = Some (payload rd)"
    using fs_write_all_content [of X p w root rd h w']
    by (auto simp: fs_sink_ready_def fs_content_def store_def)
qed

section \<open>Reading succeeds\<close>

text \<open>No call is refused, and the root's name can be passed to the system.\<close>

definition unfaulted :: "fsys \<Rightarrow> string \<Rightarrow> bool" where
  "unfaulted s root \<longleftrightarrow> (\<forall>call kp. fault s call kp = None) \<and> CHR 0x00 \<notin> set root"

text \<open>A regular file below \<open>R\<close>, every directory on the way to it in place.\<close>

definition file_below :: "fsys \<Rightarrow> string list \<Rightarrow> string list \<Rightarrow> string \<Rightarrow> bool" where
  "file_below s R segs data \<longleftrightarrow>
     (\<forall>i < length segs. lookup s (R @ take i segs) = Some Dir) \<and>
     (\<exists>t. lookup s (R @ segs) = Some (File data t))"

lemma set_segments: "seg \<in> set (segments p) \<Longrightarrow> set seg \<subseteq> set p"
  by (auto simp: segments_def dest: set_split_on)

lemma validated_no_nul: "validate_path p = Inr () \<Longrightarrow> CHR 0x00 \<notin> set p"
  by (auto simp: validate_path_def split: if_splits)

lemma last_path_join: "p \<noteq> [] \<Longrightarrow> last (path_join root p) = last p"
  by (simp add: path_join_def)

lemma sys_walk_join:
  assumes "served s root R p" "unfaulted s root" "last p \<noteq> CHR ''/''"
  obtains k where "sys_walk s call fl (kpath_of (path_join root p)) =
    (case walk s fl k R (segments p) of Inl e \<Rightarrow> Inl (Os e) | Inr l \<Rightarrow> Inr l)"
proof -
  note sv = servedD [OF assms(1)]
  have v: "validate_path p = Inr ()" using assms(1) by (simp add: served_def)
  have root: "root \<noteq> []" using sv(1) by (simp add: root_at_def)
  define d0 where "d0 = (if is_absolute root then [] else cwd s)"
  have w: "walk s True MAXSYMLINKS d0 (segments root) = Inr R" "lookup s R = Some Dir"
    using sv(1) by (simp_all add: root_at_def d0_def)
  obtain k where k: "walk s fl MAXSYMLINKS d0 (segments root @ segments p) = walk s fl k R (segments p)"
    using walk_append [OF w sv(4), of fl] by blast
  have "\<forall>seg \<in> set (segments root @ segments p). CHR 0x00 \<notin> set seg"
    using set_segments validated_no_nul [OF v] assms(2) by (fastforce simp: unfaulted_def)
  with k sv root assms(2,3) validated_segments [OF v]
  have "sys_walk s call fl (kpath_of (path_join root p)) =
      (case walk s fl k R (segments p) of Inl e \<Rightarrow> Inl (Os e) | Inr l \<Rightarrow> Inr l)"
    by (simp add: sys_walk_def kpath_of_join last_path_join unfaulted_def d0_def split: if_splits)
  then show ?thesis ..
qed

lemma sys_walk_below:
  assumes "served s root R p" "unfaulted s root" "last p \<noteq> CHR ''/''"
    and "\<And>i. i < length (segments p) \<Longrightarrow> lookup s (R @ take i (segments p)) = Some Dir"
  shows "sys_walk s call False (kpath_of (path_join root p)) = Inr (R @ segments p)"
proof -
  obtain k where "sys_walk s call False (kpath_of (path_join root p)) =
    (case walk s False k R (segments p) of Inl e \<Rightarrow> Inl (Os e) | Inr l \<Rightarrow> Inr l)"
    using sys_walk_join [OF assms(1-3)] .
  moreover have "walk s False k R (segments p) = Inr (R @ segments p)"
    using assms(4) servedD(2,5) [OF assms(1)] by (intro walk_plain_forward [where R = R]) auto
  ultimately show ?thesis by simp
qed

lemma sys_walk_file:
  assumes "served s root R p" "unfaulted s root" "file_below s R (segments p) data" "last p \<noteq> CHR ''/''"
  shows "sys_walk s call False (kpath_of (path_join root p)) = Inr (R @ segments p)"
  using assms by (intro sys_walk_below) (auto simp: file_below_def)

lemma fs_open_read_succeeds:
  assumes "quiet_env X" "served (w_fs w) root R p" "unfaulted (w_fs w) root"
    and "file_below (w_fs w) R (segments p) data" "last p \<noteq> CHR ''/''"
  shows "fs_open_read X root p w = (Inr (x_file_reader X data), w)"
proof -
  have env: "interfere X i w = w" for i using assms(1) by (simp add: interfere_def quiet_env_def)
  note sw = sys_walk_file [OF assms(2-5)]
  obtain t where found: "lookup (w_fs w) (R @ segments p) = Some (File data t)"
    using assms(4) by (auto simp: file_below_def)
  have "ok_prefix root (path_join root p) (w_fs w)"
    using root_among_ancestors [of p root] servedD(3) [OF assms(2)]
    by (auto simp: ok_prefix_def Let_def list_ex_iff)
  then have "resolve root p (w_fs w) = (Inr (path_join root p), [])"
    by (simp add: resolve_def Let_def lstat_def sw found)
  then show ?thesis
    by (simp add: fs_open_read_def env open_rdonly_def sw found node_reader_def)
qed

section \<open>Reading a directory\<close>

lemma collect_entries_world: "\<exists>s. snd (collect_entries X root names acc w) = w\<lparr>w_fs := s\<rparr>"
proof (induction X root names acc w rule: collect_entries.induct)
  case (1 X root names acc w)
  have keep: "\<exists>s. w = w\<lparr>w_fs := s\<rparr>" by (intro exI [of _ "w_fs w"]) simp
  show ?case
  proof (cases "x_next_entry X names")
    case (Some e)
    with keep show ?thesis by (simp add: collect_entries.simps)
  next
    case None
    show ?thesis
    proof (cases names)
      case Nil
      with None keep show ?thesis by (simp add: collect_entries.simps)
    next
      case (Cons fname names')
      from 1 [OF None Cons refl] obtain s where
        "snd (collect_entries X root names'
           (acc @ collect_entry root (w_fs (interfere X 0 w)) fname) (interfere X 0 w)) =
         (interfere X 0 w)\<lparr>w_fs := s\<rparr>" by blast
      with None Cons show ?thesis
        by (subst collect_entries.simps) (auto simp: Let_def interfere_def)
    qed
  qed
qed

lemma collect_entries_quiet:
  assumes "quiet_env X" "readdir_ok X"
  shows "collect_entries X root names acc w =
    (Inr (acc @ concat (map (collect_entry root (w_fs w)) names)), w)"
proof (induction names arbitrary: acc)
  case Nil
  show ?case using assms(2) by (simp add: collect_entries.simps readdir_ok_def)
next
  case (Cons fname names)
  have "interfere X 0 w = w" using assms(1) by (simp add: interfere_def quiet_env_def)
  with Cons show ?case
    using assms(2) by (subst collect_entries.simps) (simp add: readdir_ok_def Let_def)
qed

text \<open>A listing changes the tree only by what interferes with it.\<close>

lemma collect_entries_interference:
  assumes "\<And>i s. E s (x_env X i s)" "\<And>s. E s s" "\<And>a b c. E a b \<Longrightarrow> E b c \<Longrightarrow> E a c"
  shows "E (w_fs w) (w_fs (snd (collect_entries X root names acc w)))"
proof (induction names arbitrary: acc w)
  case Nil
  then show ?case using assms(2) by (auto simp: collect_entries.simps [of X root "[]"] split: option.split)
next
  case (Cons fname names)
  have "E (w_fs w) (w_fs (interfere X 0 w))" using assms(1) by (simp add: interfere_def)
  with Cons assms(2,3) show ?case
    by (auto simp: collect_entries.simps [of X root "fname # names"] Let_def split: option.split)
qed

lemma fs_list_interference:
  assumes "\<And>i s. E s (x_env X i s)" "\<And>s. E s s" "\<And>a b c. E a b \<Longrightarrow> E b c \<Longrightarrow> E a c"
    and "fs_list X root opts w = Some (r, w')"
  shows "E (w_fs w) (w_fs w')"
proof (cases "read_dir (w_fs w) (kpath_of root)")
  case (Inr names)
  have "E (w_fs w) (w_fs (snd (collect_entries X root names [] w)))"
    by (rule collect_entries_interference [where E = E, OF assms(1-3)])
  with assms(4) Inr show ?thesis
    by (auto simp: fs_list_def Let_def split: sum.splits prod.splits)
qed (use assms(2,4) in \<open>auto simp: fs_list_def Let_def\<close>)

end
