(* ===== verification/S3Facts.thy ===== *)
theory S3Facts
  imports S3Backend Interfaces
begin

text \<open>
  What the S3 backend promises, given a service that keeps the documented behaviour of
  \<open>GetObject\<close>, \<open>PutObject\<close> and \<open>ListObjectsV2\<close>: the interfaces of \<open>Interfaces\<close> for S3 and
  for the offline stub. The theory \<open>S3Listing\<close> has the listing.
\<close>

section \<open>The service\<close>

text \<open>
  \<open>objects b bucket key\<close> is what the service stores. A read delivers the object, or a prefix of it and an error, a
  missing key is reported only of a key that is missing, a put that succeeds replaces
  exactly its object, reads and listings change nothing, and the upload body is the
  content of the temporary file. A put that fails is not constrained.
\<close>

definition object_store_ok :: "'b externs \<Rightarrow> ('b \<Rightarrow> string \<Rightarrow> string \<Rightarrow> string option) \<Rightarrow> bool" where
  "object_store_ok X objects \<longleftrightarrow>
     (\<forall>b bucket key. objects (snd (x_s3_get X b bucket key)) = objects b) \<and>
     (\<forall>b bucket key rd. fst (x_s3_get X b bucket key) = Inr rd \<longrightarrow>
        proper rd \<and> (\<exists>obj. objects b bucket key = Some obj \<and> prefix (payload rd) obj \<and>
                      (\<not> faulty rd \<longrightarrow> payload rd = obj))) \<and>
     (\<forall>b bucket key m. fst (x_s3_get X b bucket key) = Inl (NoSuchKey m) \<longrightarrow>
        objects b bucket key = None) \<and>
     (\<forall>b bucket key data. fst (x_s3_put X b bucket key data) = Inr () \<longrightarrow>
        objects (snd (x_s3_put X b bucket key data)) =
          (objects b)(bucket := (objects b bucket)(key \<mapsto> data))) \<and>
     (\<forall>b req. objects (snd (x_s3_list X b req)) = objects b) \<and>
     (\<forall>data body. x_byte_stream X data = Inr body \<longrightarrow> body = data)"

definition listed :: "list_request \<Rightarrow> s3_object \<Rightarrow> bool" where
  "listed req obj =
     (case ob_key obj of
        None \<Rightarrow> False
      | Some key \<Rightarrow>
          (case lq_prefix req of None \<Rightarrow> True | Some p \<Rightarrow> starts_with p key) \<and>
          (case lq_start_after req of None \<Rightarrow> True | Some k \<Rightarrow> k < key))"

definition contents_of :: "list_output \<Rightarrow> s3_object list" where
  "contents_of resp = (case lo_contents resp of Some objs \<Rightarrow> objs | None \<Rightarrow> [])"

text \<open>
  A response to \<open>req\<close> when \<open>rest\<close> is left to list: the first objects of \<open>rest\<close>. A response that
  leaves some out says so, has at least one object, and its token continues after it.
\<close>

definition page_ok :: "(list_request \<Rightarrow> s3_object list) \<Rightarrow> list_request \<Rightarrow> list_output \<Rightarrow> bool" where
  "page_ok left req resp \<longleftrightarrow>
     (\<exists>k. contents_of resp = take k (left req) \<and>
        (if k < length (left req)
         then 0 < k \<and> lo_is_truncated resp = Some True \<and>
           (\<exists>t. lo_next_token resp = Some t \<and>
              left (req\<lparr>lq_token := Some t, lq_start_after := None\<rparr>) = drop k (left req))
         else lo_is_truncated resp \<noteq> Some True))"

text \<open>
  \<open>catalog b bucket\<close> are the objects of a bucket in the order of their keys, \<open>left b req\<close> those
  a request with a token or a start still has to list. Listing changes neither.
\<close>

definition lists_ok :: "'b externs \<Rightarrow> ('b \<Rightarrow> string \<Rightarrow> s3_object list) \<Rightarrow>
    ('b \<Rightarrow> list_request \<Rightarrow> s3_object list) \<Rightarrow> bool" where
  "lists_ok X catalog left \<longleftrightarrow>
     (\<forall>b bucket. sorted_wrt (<) (map (the \<circ> ob_key) (catalog b bucket))) \<and>
     (\<forall>b req. lq_token req = None \<longrightarrow> left b req = filter (listed req) (catalog b (lq_bucket req))) \<and>
     (\<forall>b req. catalog (snd (x_s3_list X b req)) = catalog b \<and> left (snd (x_s3_list X b req)) = left b) \<and>
     (\<forall>b req resp. fst (x_s3_list X b req) = Inr resp \<longrightarrow> page_ok (left b) req resp)"

lemma object_store_get:
  assumes "object_store_ok X objects" "fst (x_s3_get X b bucket key) = Inr rd"
  shows "proper rd" "\<exists>obj. objects b bucket key = Some obj \<and> prefix (payload rd) obj \<and>
    (\<not> faulty rd \<longrightarrow> payload rd = obj)"
  using assms unfolding object_store_ok_def by blast+

definition s3_content :: "('b \<Rightarrow> string \<Rightarrow> string \<Rightarrow> string option) \<Rightarrow> s3_backend_state \<Rightarrow> string \<Rightarrow>
    fsys \<times> 'b \<Rightarrow> string option" where
  "s3_content objects sb p st = objects (snd st) (sb_bucket sb) (s3_key sb p)"

definition s3_ready :: "'b externs \<Rightarrow> ('b \<Rightarrow> string \<Rightarrow> string \<Rightarrow> string option) \<Rightarrow> string \<Rightarrow>
    fsys \<times> 'b \<Rightarrow> bool" where
  "s3_ready X objects p st \<longleftrightarrow> object_store_ok X objects \<and> io_copy_ok X"

lemma s3_backend_simps [simp]:
  "be_kind (s3_backend X sb) = S3" "be_list (s3_backend X sb) = s3_list X sb"
  "be_open_read (s3_backend X sb) = s3_open_read X sb"
  "be_write_all (s3_backend X sb) = s3_write_all X sb"
  by (simp_all add: s3_backend_def)

lemma s3_open_read_world:
  "w_fs (snd (s3_open_read X sb p w)) = w_fs w"
  "w_s3 (snd (s3_open_read X sb p w)) = snd (x_s3_get X (w_s3 w) (sb_bucket sb) (s3_key sb p))"
  by (auto simp: s3_open_read_def Let_def split: prod.splits sum.splits get_error.splits)

lemma s3_open_read_Inr:
  "s3_open_read X sb p w = (Inr rd, w') \<Longrightarrow>
   fst (x_s3_get X (w_s3 w) (sb_bucket sb) (s3_key sb p)) = Inr rd"
  by (auto simp: s3_open_read_def Let_def split: prod.splits sum.splits get_error.splits)

lemma s3_write_all_Inr:
  assumes "s3_write_all X sb p rd h w = (Inr (), w')"
  shows "\<exists>data body b'. x_io_copy X rd = (data, None) \<and> x_byte_stream X data = Inr body \<and>
    x_s3_put X (w_s3 w) (sb_bucket sb) (s3_key sb p) body = (Inr (), b') \<and> w' = w\<lparr>w_s3 := b'\<rparr>"
  using assms
  by (auto simp: s3_write_all_def Let_def split: option.splits prod.splits sum.splits)

lemma s3_write_all_unsent:
  assumes "snd (x_io_copy X rd) \<noteq> None"
  shows "\<exists>e. s3_write_all X sb p rd h w = (Inl e, w)"
  using assms by (auto simp: s3_write_all_def split: option.splits prod.splits)

lemma s3_write_all_fs: "w_fs (snd (s3_write_all X sb p rd h w)) = w_fs w"
  by (auto simp: s3_write_all_def Let_def split: option.splits prod.splits sum.splits)

interpretation s3_source: source "s3_backend X sb" "s3_content objects sb" "s3_ready X objects"
  for X :: "'b externs" and sb objects
proof
  fix p w rd w'
  assume "s3_ready X objects p (store w)" "be_open_read (s3_backend X sb) p w = (Inr rd, w')"
  then show "proper rd \<and> (faulty rd \<or> s3_content objects sb p (store w) = Some (payload rd))"
    using object_store_get [of X objects] s3_open_read_Inr [of X sb p w rd w']
    by (fastforce simp: s3_ready_def s3_content_def store_def)
next
  fix p w r w' q
  assume "s3_ready X objects p (store w)" "be_open_read (s3_backend X sb) p w = (r, w')"
  then show "s3_content objects sb q (store w') = s3_content objects sb q (store w)"
    using s3_open_read_world(2) [of X sb p w]
    by (auto simp: s3_ready_def object_store_ok_def s3_content_def store_def)
qed

interpretation s3_sink: atomic_sink "s3_backend X sb" "s3_content objects sb" "s3_ready X objects"
  for X :: "'b externs" and sb objects
proof
  fix p w rd h w'
  assume "s3_ready X objects p (store w)" "be_write_all (s3_backend X sb) p rd h w = (Inr (), w')"
  then obtain data body b' where "io_copy_ok X" "object_store_ok X objects"
    "x_io_copy X rd = (data, None)" "x_byte_stream X data = Inr body"
    "x_s3_put X (w_s3 w) (sb_bucket sb) (s3_key sb p) body = (Inr (), b')" "w' = w\<lparr>w_s3 := b'\<rparr>"
    using s3_write_all_Inr by (fastforce simp: s3_ready_def)
  moreover from this have "\<not> faulty rd" "body = payload rd"
    using io_copy_okD [of X rd data None] by (auto simp: object_store_ok_def)
  moreover have "objects b' = (objects (w_s3 w))
      (sb_bucket sb := (objects (w_s3 w) (sb_bucket sb))(s3_key sb p \<mapsto> body))"
    using calculation unfolding object_store_ok_def by (metis fst_conv snd_conv)
  ultimately show "\<not> faulty rd \<and> s3_content objects sb p (store w') = Some (payload rd)"
    by (simp add: s3_content_def store_def)
next
  fix p w rd h r w' q
  assume "s3_ready X objects p (store w)" "faulty rd"
    "be_write_all (s3_backend X sb) p rd h w = (r, w')"
  then show "(\<exists>e. r = Inl e) \<and> s3_content objects sb q (store w') = s3_content objects sb q (store w)"
    using s3_write_all_unsent [of X rd sb p h w] by (auto simp: s3_ready_def io_copy_ok_def)
qed

section \<open>The offline stub\<close>

lemma offline_backend_simps [simp]:
  "be_kind (offline_backend k) = k"
  "be_list (offline_backend k) opts w = Some (Inl offline_error, w)"
  "be_open_read (offline_backend k) p w = (Inl offline_error, w)"
  "be_write_all (offline_backend k) p rd h w = (Inl offline_error, w)"
  by (simp_all add: offline_backend_def)

interpretation offline_source: source "offline_backend k" content ready for k content ready
  by unfold_locales auto

interpretation offline_sink: atomic_sink "offline_backend k" content ready for k content ready
  by unfold_locales auto

end
