(* ===== verification/Demo.thy ===== *)
theory Demo
  imports FsFacts S3Facts
begin

text \<open>
  One concrete instance of everything the model takes as a parameter: a quiet file system
  with a data directory, external functions that do exactly what the program relies on,
  and an in-memory bucket. It shows that the hypotheses of the theorems can hold
  together, and it is what the witnesses evaluate.
\<close>

type_synonym bucket = "((string \<times> string) \<times> string) list"

fun demo_timeout :: "nat \<Rightarrow> reader \<Rightarrow> reader" where
  "demo_timeout b [] = []"
| "demo_timeout b (ev # r) =
     (if stalls b ev then [(0, Fault (Other ''timed out''))] else ev # demo_timeout b r)"

definition demo_objects :: "bucket \<Rightarrow> string \<Rightarrow> string \<Rightarrow> string option" where
  "demo_objects b bucket key = map_of b (bucket, key)"

definition demo_reader :: "string \<Rightarrow> reader" where
  "demo_reader data = (if data = [] then [] else [(0, Bytes data)])"

definition demo_get :: "bucket \<Rightarrow> string \<Rightarrow> string \<Rightarrow> (get_error + reader) \<times> bucket" where
  "demo_get b bucket key =
     (case map_of b (bucket, key) of
        None \<Rightarrow> (Inl (NoSuchKey ''NoSuchKey''), b)
      | Some data \<Rightarrow> (Inr (demo_reader data), b))"

definition demo_put :: "bucket \<Rightarrow> string \<Rightarrow> string \<Rightarrow> string \<Rightarrow> (string + unit) \<times> bucket" where
  "demo_put b bucket key data = (Inr (), AList.update (bucket, key) data b)"

text \<open>The bucket lists one object per page; a token is the last key of the page before.\<close>

definition demo_catalog :: "bucket \<Rightarrow> string \<Rightarrow> s3_object list" where
  "demo_catalog b bucket =
     map (\<lambda>key. \<lparr>ob_key = Some key,
                 ob_size = map_option (int \<circ> length) (map_of b (bucket, key)),
                 ob_last_modified = None\<rparr>)
       (sort (remdups (map (snd \<circ> fst) (filter (\<lambda>((bk, key), data). bk = bucket) b))))"

definition demo_left :: "bucket \<Rightarrow> list_request \<Rightarrow> s3_object list" where
  "demo_left b req =
     filter (\<lambda>obj. listed req obj \<and>
               (case lq_token req of None \<Rightarrow> True | Some t \<Rightarrow> t < the (ob_key obj)))
       (demo_catalog b (lq_bucket req))"

definition demo_list :: "bucket \<Rightarrow> list_request \<Rightarrow> (string + list_output) \<times> bucket" where
  "demo_list b req =
     (let rest = demo_left b req in
      (Inr \<lparr>lo_contents = Some (take 1 rest), lo_is_truncated = Some (1 < length rest),
            lo_next_token = (if 1 < length rest then ob_key (hd rest) else None)\<rparr>, b))"

definition demo_copy_request :: CopyFileRequest where
  "demo_copy_request =
     \<lparr>source_storage_type = Fs, source_file_path = ''a.txt'',
      destination_storage_type = S3, destination_file_path = ''b.txt''\<rparr>"

definition demo_query :: ListFilesQuery where
  "demo_query = \<lparr>lfq_storage_type = Fs, lfq_limit = None, lfq_start_after = None\<rparr>"

definition demo :: "bucket externs" where
  "demo =
     \<lparr>x_env = (\<lambda>i s. s), x_next_entry = (\<lambda>names. None), x_mono = (\<lambda>n. n), x_wall = (\<lambda>n. int n),
      x_timeout_reader = demo_timeout, x_copy_buf = 8192,
      x_io_copy = (\<lambda>r. (payload r, if faulty r then Some (Other ''read failed'') else None)),
      x_file_reader = demo_reader, x_flush = (\<lambda>data. None),
      x_sha256 = (\<lambda>s. replicate 32 CHR 0x00), x_ct_eq = (=),
      x_hv_to_str = Some, x_hv_from_str = Some,
      x_query = (\<lambda>req. Inr demo_query),
      x_json_within = (\<lambda>secs req. Inr (Inr demo_copy_request)),
      x_deadline = (\<lambda>secs req w. None), x_fallback_gated = True, x_tmp_new = None, x_tmp_create = None,
      x_byte_stream = Inr, x_s3_list = demo_list, x_s3_get = demo_get, x_s3_put = demo_put\<rparr>"

definition demo_fs :: fsys where
  "demo_fs =
     \<lparr>nodes = [([''data''], Dir), ([''data'', ''a.txt''], File ''hello'' 0)],
      cwd = [], now = 7, fault = (\<lambda>call kp. None)\<rparr>"

definition demo_bucket :: bucket where
  "demo_bucket = [((''files'', ''in/c.txt''), ''hi'')]"

definition demo_world :: "bucket world" where
  "demo_world = \<lparr>w_fs = demo_fs, w_s3 = demo_bucket, w_log = [], w_tick = 0,
                 w_trace_counter = 0, w_access_counter = 0\<rparr>"

definition demo_s3 :: s3_backend_state where
  "demo_s3 =
     \<lparr>sb_client = \<lparr>cl_region = ''eu'', cl_access_key_id = ''k'', cl_secret_access_key = ''s'',
        cl_provider_name = ''fileferry-static'', cl_endpoint_url = None,
        cl_force_path_style = True\<rparr>,
      sb_bucket = ''files'', sb_bucket_path = ''in''\<rparr>"

section \<open>The instance keeps every law\<close>

lemma demo_simps [simp]:
  "x_env demo i s = s" "x_next_entry demo names = None" "x_mono demo n = n" "x_timeout_reader demo = demo_timeout"
  "x_copy_buf demo = 8192" "x_file_reader demo = demo_reader" "x_flush demo data = None"
  "x_io_copy demo r = (payload r, if faulty r then Some (Other ''read failed'') else None)"
  "x_ct_eq demo a b = (a = b)" "x_hv_to_str demo v = Some v" "x_hv_from_str demo v = Some v"
  "x_json_within demo secs req = Inr (Inr demo_copy_request)" "x_query demo req = Inr demo_query"
  "x_deadline demo d req w = None" "x_fallback_gated demo" "x_tmp_new demo = None" "x_tmp_create demo = None"
  "x_byte_stream demo data = Inr data" "x_s3_list demo = demo_list" "x_s3_get demo = demo_get"
  "x_s3_put demo = demo_put" "x_wall demo n = int n" "x_sha256 demo v = replicate 32 CHR 0x00"
  by (simp_all add: demo_def)

lemma demo_quiet: "quiet_env demo"
  by (simp add: quiet_env_def)

lemma demo_readdir: "readdir_ok demo"
  by (simp add: readdir_ok_def)

lemma demo_io_copy: "io_copy_ok demo"
  by (simp add: io_copy_ok_def)

lemma demo_file_reader: "file_reader_ok demo"
  by (simp add: file_reader_ok_def demo_reader_def)

lemma demo_timeout_reader: "timeout_reader_ok demo"
proof -
  have "list_all (\<lambda>ev. \<not> stalls b ev) r \<Longrightarrow> demo_timeout b r = r" for b r
    by (induction r) auto
  moreover have "list_all (\<lambda>ev. \<not> stalls b ev) a \<Longrightarrow> stalls b ev \<Longrightarrow>
      demo_timeout b (a @ ev # c) = a @ [(0, Fault (Other ''timed out''))]" for b a ev c
    by (induction a) auto
  ultimately show ?thesis by (auto simp: timeout_reader_ok_def)
qed

lemma demo_object_store: "object_store_ok demo demo_objects"
  by (auto simp: object_store_ok_def demo_objects_def demo_get_def demo_put_def demo_list_def
      Let_def demo_reader_def update_conv' fun_eq_iff split: option.splits)

lemma demo_catalog_sorted: "sorted_wrt (<) (map (the \<circ> ob_key) (demo_catalog b bucket))"
  by (simp add: demo_catalog_def comp_def strict_sorted_iff)

lemma demo_catalog_keys: "obj \<in> set (demo_catalog b bucket) \<Longrightarrow> \<exists>key. ob_key obj = Some key"
  by (auto simp: demo_catalog_def)

lemma demo_left_next:
  assumes "demo_left b req = obj # objs"
  shows "demo_left b (req\<lparr>lq_token := ob_key obj, lq_start_after := None\<rparr>) = objs"
proof -
  let ?cat = "demo_catalog b (lq_bucket req)"
  let ?P = "\<lambda>obj. listed req obj \<and> (case lq_token req of None \<Rightarrow> True | Some t \<Rightarrow> t < the (ob_key obj))"
  have obj: "?P obj" "obj \<in> set ?cat"
    using assms filter_set [of ?P ?cat] unfolding demo_left_def by (auto dest!: Cons_eq_filterD)
  then obtain key where key: "ob_key obj = Some key" using demo_catalog_keys by blast
  have eq: "(listed (req\<lparr>lq_token := Some key, lq_start_after := None\<rparr>) x \<and> key < the (ob_key x)) \<longleftrightarrow>
      (?P x \<and> key < the (ob_key x))" if "x \<in> set ?cat" for x
    using obj(1) key demo_catalog_keys [OF that] by (auto simp: listed_def split: option.splits)
  have "demo_left b (req\<lparr>lq_token := ob_key obj, lq_start_after := None\<rparr>) =
      filter (\<lambda>x. key < the (ob_key x)) (filter ?P ?cat)"
    using eq by (auto simp: demo_left_def key filter_filter intro: filter_cong)
  also have "filter ?P ?cat = obj # objs" using assms by (simp add: demo_left_def)
  also have "filter (\<lambda>x. key < the (ob_key x)) (obj # objs) = objs"
  proof -
    have "sorted_wrt (\<lambda>x y. the (ob_key x) < the (ob_key y)) (filter ?P ?cat)"
      using demo_catalog_sorted [of b "lq_bucket req"] by (intro sorted_wrt_filter) (simp add: sorted_wrt_map)
    with assms key show ?thesis by (auto simp: demo_left_def filter_id_conv)
  qed
  finally show ?thesis .
qed

lemma demo_lists: "lists_ok demo demo_catalog demo_left"
proof -
  have "page_ok (demo_left b) req resp" if "fst (demo_list b req) = Inr resp" for b req resp
  proof (cases "demo_left b req")
    case Nil
    with that show ?thesis by (auto simp: demo_list_def page_ok_def contents_of_def)
  next
    case (Cons obj objs)
    have "obj \<in> set (demo_left b req)" unfolding Cons by simp
    then obtain key where "ob_key obj = Some key"
      using demo_catalog_keys [of obj b "lq_bucket req"] by (auto simp: demo_left_def)
    with Cons that demo_left_next [OF Cons] show ?thesis
      by (auto simp: demo_list_def page_ok_def contents_of_def intro!: exI [of _ 1])
  qed
  then show ?thesis
    by (auto simp: lists_ok_def demo_catalog_sorted demo_left_def demo_list_def Let_def)
qed

lemma demo_buffer: "unat mx \<le> 2 ^ 40 \<Longrightarrow> buffer_ok demo mx"
  by (simp add: buffer_ok_def)

lemmas demo_laws = demo_quiet demo_io_copy demo_file_reader demo_timeout_reader demo_object_store

end
