(* ===== verification/Copy.thy ===== *)
theory Copy
  imports Router Demo
begin

text \<open>
  \<open>POST /v1/files/copy\<close> end to end: the interface \<open>transfer\<close> interpreted in both directions
  between the file system and S3, and what a copy that succeeds or fails has done to both
  stores.
\<close>

section \<open>The two directions\<close>

interpretation upload: atomic_transfer
    "fs_backend X root" "fs_content root" "fs_source_ready X"
    "s3_backend X sb" "s3_content objects sb" "s3_ready X objects"
  for X :: "'b externs" and root sb objects
proof
  fix p w q r w'
  assume "s3_ready X objects q (store w)"
  then show "s3_ready X objects q (store w')" by (simp add: s3_ready_def)
next
  fix p w r w' q
  assume "fs_source_ready X p (store w)" "be_open_read (fs_backend X root) p w = (r, w')"
  then show "s3_content objects sb q (store w') = s3_content objects sb q (store w)"
    using fs_open_read_store [of X root p w r w'] by (simp add: fs_source_ready_def)
qed

interpretation download: transfer
    "s3_backend X sb" "s3_content objects sb" "s3_ready X objects"
    "fs_backend X root" "fs_content root" "fs_sink_ready X"
  for X :: "'b externs" and root sb objects
proof
  fix p w q r w'
  assume "fs_sink_ready X q (store w)" "be_open_read (s3_backend X sb) p w = (r, w')"
  then show "fs_sink_ready X q (store w')"
    using s3_open_read_world(1) [of X sb p w] by (simp add: fs_sink_ready_def store_def)
qed

section \<open>The handler\<close>

definition both_backends :: "'b externs \<Rightarrow> string \<Rightarrow> s3_backend_state \<Rightarrow> 'b backends" where
  "both_backends X root sb = \<lparr>bs_fs = fs_backend X root, bs_s3 = Some (s3_backend X sb)\<rparr>"

abbreviation byte_cap :: "'b app_state \<Rightarrow> u64" where
  "byte_cap st \<equiv> max_response_bytes (ac_limits (st_config st))"

abbreviation idle_ms :: "'b app_state \<Rightarrow> nat" where
  "idle_ms st \<equiv> 1000 * unat (copy_inactivity_secs (ac_limits (st_config st)))"

lemma copy_file_Inr:
  assumes "copy_file X st req w = (Inr c, w')"
  shows "c = 204 \<and> source_storage_type req \<noteq> destination_storage_type req \<and>
    validate_path (source_file_path req) = Inr () \<and>
    validate_path (destination_file_path req) = Inr () \<and>
    (\<exists>src dst n. pick (st_backends st) (source_storage_type req) = Inr src \<and>
       pick (st_backends st) (destination_storage_type req) = Inr dst \<and>
       stream_copy X src (source_file_path req) dst (destination_file_path req)
         (byte_cap st) (idle_ms st) w = (Inr n, w'))"
  using assms by (auto simp: copy_file_def split: if_splits sum.splits prod.splits)

lemma pick_both [simp]:
  "pick (both_backends X root sb) Fs = Inr (fs_backend X root)"
  "pick (both_backends X root sb) S3 = Inr (s3_backend X sb)"
  by (simp_all add: pick_def both_backends_def)

text \<open>What the copy relies on outside the program.\<close>

definition copy_env_ok :: "'b externs \<Rightarrow> ('b \<Rightarrow> string \<Rightarrow> string \<Rightarrow> string option) \<Rightarrow> u64 \<Rightarrow> bool" where
  "copy_env_ok X objects cap \<longleftrightarrow>
     quiet_env X \<and> file_reader_ok X \<and> io_copy_ok X \<and> timeout_reader_ok X \<and> buffer_ok X cap \<and>
     object_store_ok X objects"

lemma copy_env_ready:
  assumes "copy_env_ok X objects cap"
  shows "fs_source_ready X p st" "s3_ready X objects p st" "timeout_reader_ok X" "buffer_ok X cap"
    "validate_path p = Inr () \<Longrightarrow> no_device_named (fst st) p \<Longrightarrow> fs_sink_ready X p st"
  using assms by (simp_all add: copy_env_ok_def fs_source_ready_def s3_ready_def fs_sink_ready_def)

lemma stream_copy_upload_fs:
  assumes "quiet_env X"
  shows "w_fs (snd (stream_copy X (fs_backend X root) sp (s3_backend X sb) dp mx i w)) = w_fs w"
proof -
  obtain r w' where sc: "stream_copy X (fs_backend X root) sp (s3_backend X sb) dp mx i w = (r, w')"
    by fastforce
  have op: "w_fs w1 = w_fs w" if "fs_open_read X root sp (w\<lparr>w_tick := Suc (w_tick w)\<rparr>) = (r1, w1)" for r1 w1
    using fs_open_read_store [OF assms that] by (simp add: store_def)
  have wr: "w_fs w2 = w_fs w1" if "s3_write_all X sb dp rd h w1 = (r1, w2)" for rd h w1 r1 w2
    using s3_write_all_fs [of X sb dp rd h w1] that by simp
  from sc have "w_fs w' = w_fs w"
  proof (cases rule: stream_copy_cases)
    case (no_source e)
    show ?thesis by (rule op) (use no_source in simp)
  next
    case (failed rd w1 evs n e)
    have "w_fs w1 = w_fs w" by (rule op) (use failed(1) in simp)
    moreover have "w_fs w' = w_fs w1" by (rule wr) (use failed(3) in simp)
    ultimately show ?thesis by simp
  next
    case (copied rd w1 evs n w2 ms)
    have "w_fs w1 = w_fs w" by (rule op) (use copied(1) in simp)
    moreover have "w_fs w2 = w_fs w1" by (rule wr) (use copied(3) in simp)
    moreover have "w_fs w' = w_fs w2" using copied(5) by (simp add: store_def)
    ultimately show ?thesis by simp
  qed
  with sc show ?thesis by simp
qed

section \<open>Uploads that succeed and uploads that fail\<close>

text \<open>Nothing outside the program fails: the disk, the temporary file, the service.\<close>

definition no_failures :: "'b externs \<Rightarrow> bool" where
  "no_failures X \<longleftrightarrow>
     (\<forall>r. \<not> faulty r \<longrightarrow> snd (x_io_copy X r) = None) \<and> flush_ok X \<and>
     x_tmp_new X = None \<and> x_tmp_create X = None \<and>
     (\<forall>data. \<exists>body. x_byte_stream X data = Inr body) \<and>
     (\<forall>b bucket key data. fst (x_s3_put X b bucket key data) = Inr ())"

lemma s3_write_all_succeeds:
  assumes "no_failures X" "\<not> faulty rd"
  shows "\<exists>w'. s3_write_all X sb p rd h w = (Inr (), w')"
proof -
  obtain data where io: "x_io_copy X rd = (data, None)"
    using assms by (cases "x_io_copy X rd") (auto simp: no_failures_def)
  obtain body where bs: "x_byte_stream X data = Inr body"
    using assms(1) unfolding no_failures_def by blast
  obtain b' where put: "x_s3_put X (w_s3 w) (sb_bucket sb) (s3_key sb p) body = (Inr (), b')"
    using assms(1) unfolding no_failures_def by (metis prod.collapse)
  show ?thesis
    using assms(1) io bs put by (auto simp: s3_write_all_def no_failures_def flush_ok_def)
qed

lemma s3_write_all_io_error:
  assumes "io_copy_ok X" "faulty rd"
  shows "\<exists>e. s3_write_all X sb p rd h w = (Inl (Io e), w)"
proof -
  have "snd (x_io_copy X rd) \<noteq> None" using assms by (auto simp: io_copy_ok_def)
  then show ?thesis by (auto simp: s3_write_all_def split: option.splits prod.splits)
qed

lemma stream_copy_upload_io_error:
  assumes "io_copy_ok X" "timeout_reader_ok X" "buffer_ok X mx" "proper rd"
    and "be_open_read src sp (w\<lparr>w_tick := Suc (w_tick w)\<rparr>) = (Inr rd, w1)"
    and "faulty (x_timeout_reader X inactivity rd) \<or> unat mx < length (payload rd)"
  shows "\<exists>e. stream_copy X src sp (s3_backend X sb) dp mx inactivity w = (Inl (Io e), w1)"
proof -
  obtain r w' where sc: "stream_copy X src sp (s3_backend X sb) dp mx inactivity w = (r, w')"
    by fastforce
  note fault = limited_faulty [OF assms(2,4,3) _ assms(6)]
  from sc have "\<exists>e. r = Inl (Io e) \<and> w' = w1"
  proof (cases rule: stream_copy_cases)
    case (no_source e)
    with assms(5) show ?thesis by simp
  next
    case (failed rd' w1' evs n e)
    then show ?thesis
      using s3_write_all_io_error [OF assms(1) fault, of evs n sb dp None w1] assms(5) by auto
  next
    case (copied rd' w1' evs n w2 ms)
    then show ?thesis
      using s3_write_all_io_error [OF assms(1) fault, of evs n sb dp None w1] assms(5) by auto
  qed
  with sc show ?thesis by blast
qed

lemma copy_file_stream:
  assumes "source_storage_type req \<noteq> destination_storage_type req"
    and "validate_path (source_file_path req) = Inr ()"
    and "validate_path (destination_file_path req) = Inr ()"
    and "pick (st_backends st) (source_storage_type req) = Inr src"
    and "pick (st_backends st) (destination_storage_type req) = Inr dst"
  shows "copy_file X st req w =
    (case stream_copy X src (source_file_path req) dst (destination_file_path req)
            (byte_cap st) (idle_ms st) w of
       (Inl e, w') \<Rightarrow> (Inl e, w') | (Inr n, w') \<Rightarrow> (Inr 204, w'))"
  using assms by (simp add: copy_file_def)

text \<open>An upload request both of whose paths are valid.\<close>

definition upload_request :: "CopyFileRequest \<Rightarrow> bool" where
  "upload_request req \<longleftrightarrow>
     source_storage_type req = Fs \<and> destination_storage_type req = S3 \<and>
     validate_path (source_file_path req) = Inr () \<and>
     validate_path (destination_file_path req) = Inr ()"

lemma copy_file_upload:
  assumes "st_backends st = both_backends X root sb" "upload_request req"
  shows "copy_file X st req w =
    (case stream_copy X (fs_backend X root) (source_file_path req) (s3_backend X sb)
            (destination_file_path req) (byte_cap st) (idle_ms st) w of
       (Inl e, w') \<Rightarrow> (Inl e, w') | (Inr n, w') \<Rightarrow> (Inr 204, w'))"
  using assms by (intro copy_file_stream) (simp_all add: upload_request_def)

lemma tick_fs [simp]: "w_fs (w\<lparr>w_tick := t\<rparr>) = w_fs w"
  by simp

lemma upload_returns_204:
  assumes "st_backends st = both_backends X root sb" "copy_env_ok X objects (byte_cap st)"
    and "no_failures X" "upload_request req"
    and "served (w_fs w) root R (source_file_path req)" "unfaulted (w_fs w) root"
    and "file_below (w_fs w) R (segments (source_file_path req)) data"
    and "last (source_file_path req) \<noteq> CHR ''/''"
    and "length data \<le> unat (byte_cap st)"
  shows "\<exists>w'. copy_file X st req w = (Inr 204, w')"
proof -
  define w0 where "w0 = w\<lparr>w_tick := Suc (w_tick w)\<rparr>"
  have q: "quiet_env X" "file_reader_ok X" using assms(2) by (simp_all add: copy_env_ok_def)
  note env = copy_env_ready(3,4) [OF assms(2)]
  have op: "fs_open_read X root (source_file_path req) w0 = (Inr (x_file_reader X data), w0)"
    using assms(5-8) q(1) by (intro fs_open_read_succeeds) (simp_all add: w0_def)
  have rd: "proper (x_file_reader X data)" "\<not> faulty (x_file_reader X data)"
    "payload (x_file_reader X data) = data" "\<forall>ev \<in> set (x_file_reader X data). fst ev = 0"
    using q(2) by (auto simp: file_reader_ok_def)
  obtain r w' where sc: "stream_copy X (fs_backend X root) (source_file_path req) (s3_backend X sb)
      (destination_file_path req) (byte_cap st) (idle_ms st) w = (r, w')" by fastforce
  from sc have "\<exists>n. r = Inr n"
  proof (cases rule: stream_copy_cases)
    case (no_source e)
    with op show ?thesis by (simp add: w0_def)
  next
    case (failed rd' w1 evs n e)
    with op have rd': "rd' = x_file_reader X data" by (simp add: w0_def)
    have "\<not> faulty evs"
      using limited_facts(5) [OF env(1) rd(1) env(2) failed(2) [unfolded rd']] rd(2,3) assms(9)
        prompt_reader [OF rd(2,4)] by simp
    from s3_write_all_succeeds [OF assms(3) this, of sb "destination_file_path req" None w1]
      failed(3) show ?thesis by auto
  qed simp
  with sc show ?thesis by (auto simp: copy_file_upload [OF assms(1,4)])
qed

text \<open>Where a download can have touched the file system, however it ended.\<close>

lemma stream_copy_download_frame:
  assumes "copy_env_ok X objects mx" "served (w_fs w) root R dp"
    and "stream_copy X (s3_backend X sb) sp (fs_backend X root) dp mx inactivity w = (r, w')"
    and "lookup (w_fs w') l \<noteq> lookup (w_fs w) l"
  shows "(lookup (w_fs w) l = None \<and> lookup (w_fs w') l = Some Dir \<and>
      strict_prefix R l \<and> strict_prefix l (R @ segments dp)) \<or>
    (l = R @ segments dp \<and>
      (\<exists>data t obj. lookup (w_fs w') l = Some (File data t) \<and> length data \<le> unat mx \<and>
         objects (w_s3 w) (sb_bucket sb) (s3_key sb sp) = Some obj \<and> prefix data obj))"
proof -
  have X: "quiet_env X" "io_copy_ok X" "timeout_reader_ok X" "buffer_ok X mx" "object_store_ok X objects"
    using assms(1) by (simp_all add: copy_env_ok_def)
  have opened: "w_fs w1 = w_fs w \<and>
      (\<forall>rd. r1 = Inr rd \<longrightarrow> proper rd \<and> (\<exists>obj. objects (w_s3 w) (sb_bucket sb) (s3_key sb sp) = Some obj \<and>
         prefix (payload rd) obj))"
    if "be_open_read (s3_backend X sb) sp (w\<lparr>w_tick := Suc (w_tick w)\<rparr>) = (r1, w1)" for r1 w1
    using that s3_open_read_world(1) [of X sb sp "w\<lparr>w_tick := Suc (w_tick w)\<rparr>"]
      s3_open_read_Inr [of X sb sp "w\<lparr>w_tick := Suc (w_tick w)\<rparr>"] object_store_get [OF X(5)]
    by fastforce
  have frame: ?thesis
    if o: "be_open_read (s3_backend X sb) sp (w\<lparr>w_tick := Suc (w_tick w)\<rparr>) = (Inr rd, w1)"
      and d: "drain (x_copy_buf X) (limited_reader_new (x_timeout_reader X inactivity rd) mx) = (evs, n)"
      and wr: "fs_write_all X root dp evs None w1 = (r2, w2)" and fs: "w_fs w' = w_fs w2"
    for rd w1 evs n r2 w2
  proof -
    from opened [OF o] obtain obj where ob: "w_fs w1 = w_fs w" "proper rd"
      "objects (w_s3 w) (sb_bucket sb) (s3_key sb sp) = Some obj" "prefix (payload rd) obj" by blast
    note lf = limited_facts(1,2) [OF X(3) ob(2) X(4) d]
    have pre: "prefix data obj \<and> length data \<le> unat mx" if "prefix data (payload evs)" for data
      using that lf ob(4) prefix_length_le [OF that] by (meson le_trans prefix_order.trans)
    have sv: "served (w_fs w1) root R dp" using assms(2) ob(1) by simp
    obtain s2 where s2: "grown (w_fs w) R (segments dp) s2"
      "\<And>l. l \<noteq> R @ segments dp \<Longrightarrow> lookup (w_fs w2) l = lookup s2 l"
      "lookup (w_fs w2) (R @ segments dp) = lookup (w_fs w) (R @ segments dp) \<or>
       (\<exists>data t. lookup (w_fs w2) (R @ segments dp) = Some (File data t) \<and> prefix data (payload evs))"
      using fs_write_frame [OF X(1,2) sv wr] unfolding ob(1) by blast
    show ?thesis
    proof (cases "l = R @ segments dp")
      case True
      with s2(3) assms(4) obtain data t where "lookup (w_fs w2) l = Some (File data t)" "prefix data (payload evs)"
        unfolding fs by blast
      with pre [of data] ob(3) True show ?thesis unfolding fs by blast
    next
      case False
      with s2(2) assms(4) have "lookup s2 l \<noteq> lookup (w_fs w) l" "lookup (w_fs w') l = lookup s2 l"
        unfolding fs by auto
      with s2(1) show ?thesis unfolding grown_def by metis
    qed
  qed
  from assms(3) show ?thesis
  proof (cases rule: stream_copy_cases)
    case (no_source e)
    have "w_fs w' = w_fs w" using opened [OF no_source(1)] by blast
    with assms(4) show ?thesis by simp
  next
    case (failed rd w1 evs n e)
    from failed(3) show ?thesis by (intro frame [OF failed(1,2)]) simp_all
  next
    case (copied rd w1 evs n w2 ms)
    from copied(3,5) show ?thesis by (intro frame [OF copied(1,2)]) (simp_all add: store_def)
  qed
qed

text \<open>The application of \<open>Demo\<close>: a data directory and a bucket.\<close>

definition demo_state :: "bucket app_state" where
  "demo_state = \<lparr>st_backends = both_backends demo ''/data'' demo_s3, st_config = config_default\<rparr>"

lemma demo_state_simps [simp]:
  "st_backends demo_state = both_backends demo ''/data'' demo_s3"
  "byte_cap demo_state = 5368709120"
  by (simp_all add: demo_state_def config_default_def limits_default_def)

lemma demo_copy_env: "copy_env_ok demo demo_objects (byte_cap demo_state)"
  using demo_laws by (simp add: copy_env_ok_def demo_buffer)

lemma demo_no_failures: "no_failures demo"
  by (simp add: no_failures_def flush_ok_def demo_put_def)

lemma demo_upload_request: "upload_request demo_copy_request"
  unfolding upload_request_def by code_simp

lemma demo_served: "served (w_fs demo_world) ''/data'' [''data''] ''a.txt''"
proof -
  have "root_at demo_fs ''/data'' [''data'']" unfolding root_at_def by code_simp
  moreover have "plain_below demo_fs [''data'']"
    by (auto simp: plain_below_def lookup_def demo_fs_def split: if_splits)
  moreover have "validate_path ''a.txt'' = Inr ()" "\<not> is_absolute ''a.txt''" by code_simp+
  ultimately show ?thesis by (simp add: served_def demo_world_def)
qed

lemma demo_file: "file_below (w_fs demo_world) [''data''] (segments ''a.txt'') ''hello''"
proof -
  have seg: "segments ''a.txt'' = [''a.txt'']" by code_simp
  have "lookup demo_fs [''data''] = Some Dir" "lookup demo_fs [''data'', ''a.txt''] = Some (File ''hello'' 0)"
    by code_simp+
  then show ?thesis by (simp add: file_below_def seg demo_world_def)
qed

lemma demo_unfaulted: "unfaulted (w_fs demo_world) ''/data''"
  by (simp add: unfaulted_def demo_world_def demo_fs_def)

lemma demo_request_simps [simp]:
  "source_file_path demo_copy_request = ''a.txt''" "destination_file_path demo_copy_request = ''b.txt''"
  "source_storage_type demo_copy_request = Fs" "destination_storage_type demo_copy_request = S3"
  by (simp_all add: demo_copy_request_def)

lemmas demo_upload_facts =
  demo_copy_env demo_no_failures demo_upload_request demo_served demo_file demo_unfaulted

lemma demo_upload: "\<exists>w'. copy_file demo demo_state demo_copy_request demo_world = (Inr 204, w')"
  using demo_upload_facts
  by (intro upload_returns_204 [where objects = demo_objects and root = "''/data''"
        and sb = demo_s3 and R = "[''data'']" and data = "''hello''"]) simp_all

text \<open>A download in the demo: the object of key \<open>in/c.txt\<close> to the file \<open>d.txt\<close>.\<close>

definition demo_download_request :: CopyFileRequest where
  "demo_download_request =
     \<lparr>source_storage_type = S3, source_file_path = ''c.txt'',
      destination_storage_type = Fs, destination_file_path = ''d.txt''\<rparr>"

lemma demo_download_simps [simp]:
  "source_file_path demo_download_request = ''c.txt''"
  "destination_file_path demo_download_request = ''d.txt''"
  "source_storage_type demo_download_request = S3" "destination_storage_type demo_download_request = Fs"
  by (simp_all add: demo_download_request_def)

lemma demo_download:
  "\<exists>w'. copy_file demo demo_state demo_download_request demo_world = (Inr 204, w') \<and>
     lookup (w_fs w') [''data'', ''d.txt''] = Some (File ''hi'' 7)"
proof -
  let ?w0 = "demo_world\<lparr>w_tick := Suc 0\<rparr>"
  have op: "s3_open_read demo demo_s3 ''c.txt'' ?w0 = (Inr [(0, Bytes ''hi'')], ?w0)"
    by (simp add: s3_open_read_def s3_key_def demo_s3_def ends_with_char_def demo_get_def
        demo_world_def demo_bucket_def demo_reader_def)
  have dr: "drain 8192 (limited_reader_new [(0, Bytes ''hi'')] 5368709120) = ([(0, Bytes ''hi'')], 2)"
    by (simp add: limited_reader_new_def drain_Bytes drain_Nil rest_after_def)
  have prompt: "\<not> stalls 30000 (0, Bytes ''hi'')" by (simp add: stalls_def)
  have wr: "fst (fs_write_all demo ''/data'' ''d.txt'' [(0, Bytes ''hi'')] None ?w0) = Inr ()"
    "lookup (w_fs (snd (fs_write_all demo ''/data'' ''d.txt'' [(0, Bytes ''hi'')] None ?w0)))
       [''data'', ''d.txt''] = Some (File ''hi'' 7)" by code_simp+
  have v: "validate_path ''c.txt'' = Inr ()" "validate_path ''d.txt'' = Inr ()" by code_simp+
  have idle: "idle_ms demo_state = 30000"
    by (simp add: demo_state_def config_default_def limits_default_def)
  have tick: "w_tick demo_world = 0" by (simp add: demo_world_def)
  obtain w2 where w2: "fs_write_all demo ''/data'' ''d.txt'' [(0, Bytes ''hi'')] None ?w0 = (Inr (), w2)"
    "lookup (w_fs w2) [''data'', ''d.txt''] = Some (File ''hi'' 7)"
    using wr by (metis prod.collapse)
  have "copy_file demo demo_state demo_download_request demo_world =
      (case stream_copy demo (s3_backend demo demo_s3) ''c.txt'' (fs_backend demo ''/data'') ''d.txt''
              (byte_cap demo_state) 30000 demo_world of
         (Inl e, w') \<Rightarrow> (Inl e, w') | (Inr n, w') \<Rightarrow> (Inr 204, w'))"
    using copy_file_stream [of demo_download_request demo_state] v idle by simp
  then show ?thesis
    using w2 by (simp add: stream_copy_def instant_now_def tick op dr prompt Let_def)
qed

lemma demo_download_served: "served (w_fs demo_world) ''/data'' [''data''] ''d.txt''"
proof -
  have "validate_path ''d.txt'' = Inr ()" "\<not> is_absolute ''d.txt''" by code_simp+
  with demo_served show ?thesis by (simp add: served_def)
qed

section \<open>Properties\<close>


text \<open>
  C4: A download that answers 204 has left, at the destination path, exactly the bytes the
  source key held; they fit the configured cap.
\<close>

theorem download_copies_exactly:
  assumes "st_backends st = both_backends X root sb" "copy_env_ok X objects (byte_cap st)"
    and "source_storage_type req = S3"
    and "no_device_named (w_fs w) (destination_file_path req)"
    and "copy_file X st req w = (Inr c, w')"
  shows "c = 204 \<and>
    (\<exists>data. objects (w_s3 w) (sb_bucket sb) (s3_key sb (source_file_path req)) = Some data \<and>
       content_at (w_fs w') (path_join root (destination_file_path req)) = Some data \<and>
       length data \<le> unat (byte_cap st))"
proof -
  note cf = copy_file_Inr [OF assms(5)]
  have dst: "destination_storage_type req = Fs"
    using cf assms(3) by (cases "destination_storage_type req") auto
  obtain n where sc: "stream_copy X (s3_backend X sb) (source_file_path req) (fs_backend X root)
      (destination_file_path req) (byte_cap st) (idle_ms st) w = (Inr n, w')"
    using cf assms(1,3) dst by auto
  have "fs_sink_ready X (destination_file_path req) (store w)"
    using copy_env_ready(5) [OF assms(2)] cf assms(4) by (simp add: store_def)
  from download.copied_exactly [OF copy_env_ready(2) [OF assms(2)] this copy_env_ready(3,4) [OF assms(2)] sc] cf
  show ?thesis by (auto simp: fs_content_def s3_content_def store_def)
qed

lemma download_copies_exactly_witness:
  "\<exists>w'. copy_file demo demo_state demo_download_request demo_world = (Inr 204, w') \<and>
     (\<exists>data. demo_objects (w_s3 demo_world) ''files'' (s3_key demo_s3 ''c.txt'') = Some data \<and>
        content_at (w_fs w') (path_join ''/data'' ''d.txt'') = Some data)"
proof -
  obtain w' where w': "copy_file demo demo_state demo_download_request demo_world = (Inr 204, w')"
    using demo_download by blast
  have "no_device_named (w_fs demo_world) ''d.txt''"
    by (auto simp: no_device_named_def demo_world_def demo_fs_def lookup_def split: if_splits)
  then show ?thesis
    using download_copies_exactly [OF demo_state_simps(1) demo_copy_env _ _ w'] w'
    by (auto simp: demo_s3_def)
qed


text \<open>
  C7: An upload of a regular file that is there, below a root without links, and no larger
  than the cap is answered 204, when nothing outside the program fails.
\<close>

theorem upload_succeeds:
  assumes "st_backends st = both_backends X root sb" "copy_env_ok X objects (byte_cap st)"
    and "no_failures X" "upload_request req"
    and "served (w_fs w) root R (source_file_path req)" "unfaulted (w_fs w) root"
    and "file_below (w_fs w) R (segments (source_file_path req)) data"
    and "last (source_file_path req) \<noteq> CHR ''/''"
    and "length data \<le> unat (byte_cap st)"
  shows "\<exists>w'. copy_file X st req w = (Inr 204, w')"
  using assms by (rule upload_returns_204)

lemma upload_succeeds_witness:
  "\<exists>w'. copy_file demo demo_state demo_copy_request demo_world = (Inr 204, w')"
  using demo_upload_facts
  by (intro upload_succeeds [where objects = demo_objects and root = "''/data''"
        and sb = demo_s3 and R = "[''data'']" and data = "''hello''"]) simp_all





end
