(* ===== verification/Service.thy ===== *)
theory Service
  imports Copy
begin

text \<open>
  The request pipeline as a whole: the bearer-token gate in front of the two gated routes,
  the headers every response carries, the access log, and what a rejected request leaves
  untouched. The locale \<open>handler_relation\<close> lifts a relation on worlds from the backends to
  every route.
\<close>

section \<open>The gate\<close>

definition ct_eq_ok :: "'b externs \<Rightarrow> bool" where
  "ct_eq_ok X \<longleftrightarrow> (\<forall>a b. length a = length b \<longrightarrow> (x_ct_eq X a b \<longleftrightarrow> a = b))"

lemma ct_eq_str_iff: "ct_eq_ok X \<Longrightarrow> ct_eq_str X a b \<longleftrightarrow> a = b"
  by (auto simp: ct_eq_str_def ct_eq_ok_def)

definition without_token :: "'b app_state \<Rightarrow> 'b app_state" where
  "without_token st = st\<lparr>st_config := st_config st
     \<lparr>ac_security := (ac_security (st_config st))\<lparr>inter_service_token := None\<rparr>\<rparr>\<rparr>"

lemma without_token_simps [simp]:
  "st_backends (without_token st) = st_backends st"
  "ac_limits (st_config (without_token st)) = ac_limits (st_config st)"
  "inter_service_token (ac_security (st_config (without_token st))) = None"
  by (simp_all add: without_token_def)

lemma list_files_without_token [simp]: "list_files (without_token st) = list_files st"
  by (intro ext) (unfold list_files_def without_token_simps, rule refl)

lemma copy_file_without_token [simp]: "copy_file X (without_token st) = copy_file X st"
  by (intro ext) (unfold copy_file_def without_token_simps, rule refl)

lemma list_files_service_without_token [simp]:
  "list_files_service X (without_token st) = list_files_service X st"
  by (intro ext) (unfold list_files_service_def list_files_without_token, rule refl)

lemma copy_file_service_without_token [simp]:
  "copy_file_service X (without_token st) = copy_file_service X st"
  by (intro ext) (unfold copy_file_service_def copy_file_without_token, rule refl)

definition gate_answer :: "'b externs \<Rightarrow> request \<Rightarrow> response" where
  "gate_answer X req =
     unauthorized (if presented_token X req = [] then ''missing bearer token''
                   else ''invalid bearer token'')"

lemma require_bearer_token:
  assumes "ct_eq_ok X" "inter_service_token (ac_security (st_config st)) = Some t"
  shows "require_bearer X st h req w =
    (if presented_token X req = t \<and> t \<noteq> [] then h req w else Some (gate_answer X req, w))"
  using assms by (auto simp: require_bearer_def gate_answer_def ct_eq_str_iff Let_def)

lemma require_bearer_open [simp]:
  "inter_service_token (ac_security (st_config st)) = None \<Longrightarrow> require_bearer X st h req w = h req w"
  by (simp add: require_bearer_def)

abbreviation gated :: "request \<Rightarrow> bool" where
  "gated req \<equiv> rq_path req \<in> {''/v1/files'', ''/v1/files/copy''}"

lemma routes_gated:
  assumes "ct_eq_ok X" "inter_service_token (ac_security (st_config st)) = Some t" "gated req"
  shows "routes X st req w =
    (if presented_token X req = t \<and> t \<noteq> [] then routes X (without_token st) req w
     else Some (gate_answer X req, w))"
  using assms(3) by (auto simp: routes_def route_table_def require_bearer_token [OF assms(1,2)])

section \<open>The layers\<close>

definition prepared :: "'b externs \<Rightarrow> 'b app_state \<Rightarrow> request \<Rightarrow> request" where
  "prepared X st req = req
     \<lparr>rq_matched_path := (if map_of (route_table X st) (rq_path req) \<noteq> None
                          then Some (rq_path req) else None),
      rq_body_limit := Some (unat (max_request_bytes (ac_limits (st_config st))))\<rparr>"

lemma prepared_simps [simp]:
  "rq_path (prepared X st req) = rq_path req" "rq_method (prepared X st req) = rq_method req"
  "rq_headers (prepared X st req) = rq_headers req" "rq_query (prepared X st req) = rq_query req"
  by (simp_all add: prepared_def)

lemma presented_token_cong: "rq_headers r = rq_headers r' \<Longrightarrow> presented_token X r = presented_token X r'"
  by (simp add: presented_token_def)

lemma inbound_trace_id_cong: "rq_headers r = rq_headers r' \<Longrightarrow> inbound_trace_id X r = inbound_trace_id X r'"
  by (simp add: inbound_trace_id_def)

lemma random_bytes_store: "random_bytes X n w = (bs, w') \<Longrightarrow> store w' = store w \<and> w_log w' = w_log w"
  by (auto simp: random_bytes_def system_now_def Let_def store_def)

lemma random_bytes_keeps [simp]:
  "store (snd (random_bytes X n w)) = store w" "w_log (snd (random_bytes X n w)) = w_log w"
  by (simp_all add: random_bytes_def system_now_def Let_def store_def)

lemma trace_ids_keep [simp]:
  "store (snd (extract_or_generate_trace_id X req w)) = store w"
  "w_log (snd (extract_or_generate_trace_id X req w)) = w_log w"
  "store (snd (generate_span_id X w)) = store w" "w_log (snd (generate_span_id X w)) = w_log w"
  "store (snd (extract_trace_id X req w)) = store w" "w_log (snd (extract_trace_id X req w)) = w_log w"
  by (simp_all add: extract_or_generate_trace_id_def random_hex_128_def generate_span_id_def
      extract_trace_id_def system_now_def Let_def case_prod_beta split: option.split)
    (simp_all add: store_def)

text \<open>What the layers around the routes add, as one equation.\<close>

lemma trace_ids_cong [simp]:
  "inbound_trace_id X (req\<lparr>rq_matched_path := m\<rparr>) = inbound_trace_id X req"
  "extract_trace_id X (req\<lparr>rq_matched_path := m\<rparr>) w = extract_trace_id X req w"
  "extract_or_generate_trace_id X (req\<lparr>rq_matched_path := m\<rparr>) w = extract_or_generate_trace_id X req w"
  by (simp_all add: inbound_trace_id_def extract_trace_id_def extract_or_generate_trace_id_def)

definition trace_world :: "'b externs \<Rightarrow> request \<Rightarrow> 'b world \<Rightarrow> 'b world" where
  "trace_world X req w = snd (extract_trace_id X req (snd (instant_now X w)))"

definition trace_of :: "'b externs \<Rightarrow> request \<Rightarrow> 'b world \<Rightarrow> string" where
  "trace_of X req w = fst (extract_or_generate_trace_id X req (trace_world X req w))"

definition span_world :: "'b externs \<Rightarrow> request \<Rightarrow> 'b world \<Rightarrow> 'b world" where
  "span_world X req w = snd (extract_or_generate_trace_id X req (trace_world X req w))"

definition span_of :: "'b externs \<Rightarrow> request \<Rightarrow> 'b world \<Rightarrow> string" where
  "span_of X req w = fst (generate_span_id X (span_world X req w))"

definition inner_world :: "'b externs \<Rightarrow> request \<Rightarrow> 'b world \<Rightarrow> 'b world" where
  "inner_world X req w = snd (generate_span_id X (span_world X req w))"

definition secured :: "response \<Rightarrow> response" where
  "secured r = fst (the (security_headers (\<lambda>req (w :: unit world). Some (r, w)) undefined undefined))"

lemma instant_now_keeps [simp]:
  "store (snd (instant_now X w)) = store w" "w_log (snd (instant_now X w)) = w_log w"
  by (simp_all add: instant_now_def)

lemma inner_world_keeps [simp]:
  "store (inner_world X req w) = store w" "w_log (inner_world X req w) = w_log w"
  by (simp_all add: inner_world_def span_world_def trace_world_def)

lemma security_headers_map:
  "security_headers h req w = map_option (\<lambda>(r, w'). (secured r, w')) (h req w)"
  by (simp add: security_headers_def secured_def)

definition traced :: "'b externs \<Rightarrow> string \<Rightarrow> string \<Rightarrow> response \<Rightarrow> response" where
  "traced X T S r = insert_if_valid X ''x-trace-id'' T
     (insert_if_valid X ''traceparent'' (''00-'' @ T @ ''-'' @ S @ ''-01'') r)"

definition route_label :: "'b externs \<Rightarrow> 'b app_state \<Rightarrow> request \<Rightarrow> string" where
  "route_label X st req =
     (if map_of (route_table X st) (rq_path req) \<noteq> None then rq_path req else ''<unmatched>'')"

definition logged :: "'b externs \<Rightarrow> 'b app_state \<Rightarrow> request \<Rightarrow> 'b world \<Rightarrow> response \<Rightarrow> 'b world \<Rightarrow> 'b world" where
  "logged X st req w r w0 =
     emit [access_event (rq_method req) (route_label X st req) (r_status r)
             ((fst (instant_now X w0) - fst (instant_now X w)) div 1000)
             (fst (extract_trace_id X req (snd (instant_now X w))))]
       (snd (instant_now X w0))"

lemma secured_simps [simp]: "r_status (secured r) = r_status r" "r_body (secured r) = r_body r"
  by (simp_all add: secured_def security_headers_def)

lemma insert_if_valid_simps [simp]:
  "r_status (insert_if_valid X n v r) = r_status r" "r_body (insert_if_valid X n v r) = r_body r"
  by (simp_all add: insert_if_valid_def split: option.split)

lemma traced_simps [simp]: "r_status (traced X T S r) = r_status r" "r_body (traced X T S r) = r_body r"
  by (simp_all add: traced_def)

lemma build_router_eq:
  "build_router X st req w =
     map_option (\<lambda>(r, w0). (secured (traced X (trace_of X req w) (span_of X req w) r), logged X st req w r w0))
       (timeout_layer X (request_timeout_secs (ac_limits (st_config st))) (routes X st)
          (prepared X st req) (inner_world X req w))"
  unfolding build_router_def access_log_middleware_def security_headers_map traceparent_def body_limit_def
    Let_def case_prod_beta trace_ids_cong
  by (simp add: option.map_comp comp_def case_prod_beta prepared_def logged_def route_label_def traced_def
      inner_world_def span_world_def trace_world_def trace_of_def span_of_def)

section \<open>Headers\<close>

definition default_headers :: "(string \<times> string) list" where
  "default_headers =
     [(''content-security-policy'', ''default-src '' @ [CHR 0x27] @ ''none'' @ [CHR 0x27] @
         ''; frame-ancestors '' @ [CHR 0x27] @ ''none'' @ [CHR 0x27]),
      (''strict-transport-security'', ''max-age=63072000; includeSubDomains; preload''),
      (''x-frame-options'', ''DENY''), (''x-content-type-options'', ''nosniff''),
      (''referrer-policy'', ''no-referrer'')]"

text \<open>Printable ASCII is a valid header value (\<open>HeaderValue::from_str\<close>).\<close>

definition header_values_ok :: "'b externs \<Rightarrow> bool" where
  "header_values_ok X \<longleftrightarrow>
     (\<forall>s. (\<forall>c \<in> set s. 32 \<le> byte_val c \<and> byte_val c < 127) \<longrightarrow> x_hv_from_str X s = Some s)"

definition plain_headers :: "response \<Rightarrow> bool" where
  "plain_headers r \<longleftrightarrow> fst ` set (r_headers r) \<subseteq> {''content-type'', ''allow''}"

lemma plain_headers_intros [simp]:
  "plain_headers (json_response c j)" "plain_headers (status_response c)"
  "plain_headers (method_not_allowed a)" "plain_headers (fst (into_response e))"
  "plain_headers (fst (fail_with e w))" "plain_headers root_response" "plain_headers health_response"
  "plain_headers (openapi st)" "plain_headers (gate_answer X req)" "plain_headers (unauthorized m)"
  by (simp_all add: plain_headers_def json_response_def status_response_def method_not_allowed_def
      into_response_headers fail_with_def case_prod_beta root_response_def health_response_def
      openapi_def gate_answer_def unauthorized_def)

lemma plain_headers_body [simp]: "plain_headers (r\<lparr>r_body := b\<rparr>) = plain_headers r"
  by (simp add: plain_headers_def)

definition plain_service :: "'b service \<Rightarrow> bool" where
  "plain_service h \<longleftrightarrow> (\<forall>req w r w'. h req w = Some (r, w') \<longrightarrow> plain_headers r)"

lemma plain_service_Some: "plain_service h \<Longrightarrow> h req w = Some (r, w') \<Longrightarrow> plain_headers r"
  by (auto simp: plain_service_def)

lemma plain_route_get: "plain_service h \<Longrightarrow> plain_service (route_get h)"
  unfolding plain_service_def route_get_def by (force split: if_splits)

lemma plain_route_post: "plain_service h \<Longrightarrow> plain_service (route_post h)"
  by (auto simp: plain_service_def route_post_def split: if_splits)

lemma plain_require_bearer: "plain_service h \<Longrightarrow> plain_service (require_bearer X st h)"
  by (auto simp: plain_service_def require_bearer_def Let_def split: option.splits if_splits)

lemma fst_fail_with: "fail_with e w = (r, w') \<Longrightarrow> plain_headers r"
  by (metis fst_conv plain_headers_intros(5))

lemma plain_services: "plain_service (list_files_service X st)" "plain_service (copy_file_service X st)"
  by (auto simp: plain_service_def list_files_service_def copy_file_service_def
      dest: fst_fail_with split: sum.splits prod.splits option.splits)

lemma plain_const: "plain_headers r \<Longrightarrow> plain_service (\<lambda>req w. Some (r, w))"
  by (simp add: plain_service_def)

lemma plain_routes: "plain_service (routes X st)"
proof -
  have "\<forall>h \<in> snd ` set (route_table X st). plain_service h"
    by (simp add: route_table_def plain_route_get plain_route_post plain_require_bearer plain_services plain_const)
  moreover have "plain_service (fallback X st)"
    by (simp add: fallback_def Let_def plain_require_bearer plain_const)
  ultimately show ?thesis
    by (auto simp: plain_service_def routes_def dest!: map_of_SomeD split: option.splits) force
qed

lemma plain_timeout_layer: "plain_service h \<Longrightarrow> plain_service (timeout_layer X d h)"
  by (auto simp: plain_service_def timeout_layer_def split: option.splits)

lemma header_get_traced:
  "header_get n (r_headers (traced X T S r)) =
     (if n = ''x-trace-id'' \<and> x_hv_from_str X T \<noteq> None then x_hv_from_str X T
      else if n = ''traceparent'' \<and> x_hv_from_str X (''00-'' @ T @ ''-'' @ S @ ''-01'') \<noteq> None
           then x_hv_from_str X (''00-'' @ T @ ''-'' @ S @ ''-01'')
      else header_get n (r_headers r))"
  by (auto simp: traced_def insert_if_valid_def split: option.splits)

lemma header_get_fold_or_insert:
  "distinct (map fst ds) \<Longrightarrow>
   header_get n (fold (\<lambda>(m, v). header_or_insert m v) ds hs) =
     (case map_of ds n of
        Some v \<Rightarrow> Some (case header_get n hs of Some x \<Rightarrow> x | None \<Rightarrow> v)
      | None \<Rightarrow> header_get n hs)"
proof (induction ds arbitrary: hs)
  case (Cons d ds)
  then have "map_of ds (fst d) = None" by (simp add: map_of_eq_None_iff)
  with Cons show ?case by (cases d) (auto split: option.split)
qed simp

lemma secured_headers:
  "r_headers (secured r) = fold (\<lambda>(m, v). header_or_insert m v) default_headers (r_headers r)"
  by (simp add: secured_def security_headers_def default_headers_def)

lemma distinct_default_headers: "distinct (map fst default_headers)"
  by (simp add: default_headers_def)

lemma default_header_names:
  "set (map fst default_headers) \<inter> {''x-trace-id'', ''traceparent'', ''content-type'', ''allow''} = {}"
  by (simp add: default_headers_def)

lemma header_get_secured:
  "header_get n (r_headers (secured r)) =
     (case map_of default_headers n of
        Some v \<Rightarrow> Some (case header_get n (r_headers r) of Some x \<Rightarrow> x | None \<Rightarrow> v)
      | None \<Rightarrow> header_get n (r_headers r))"
  unfolding secured_headers by (rule header_get_fold_or_insert [OF distinct_default_headers])

lemma plain_header_get:
  "plain_headers r \<Longrightarrow> n \<notin> {''content-type'', ''allow''} \<Longrightarrow> header_get n (r_headers r) = None"
  unfolding header_get_def plain_headers_def map_of_eq_None_iff by blast

lemma trace_of_shape:
  "length (trace_of X req w) = 32" "\<forall>c \<in> set (trace_of X req w). is_lower_hex c"
  "inbound_trace_id X req = Some t \<Longrightarrow> trace_of X req w = to_ascii_lowercase t"
  using trace_id_shape [of X req "trace_world X req w"]
  by (auto simp: trace_of_def extract_or_generate_trace_id_def)
    (metis prod.collapse)+

lemma span_of_shape: "length (span_of X req w) = 16" "\<forall>c \<in> set (span_of X req w). is_lower_hex c"
  using span_id_shape [of X "span_world X req w"] by (auto simp: span_of_def) (metis prod.collapse)+

lemma lower_hex_printable: "is_lower_hex c \<Longrightarrow> 32 \<le> byte_val c \<and> byte_val c < 127"
  unfolding is_lower_hex_def is_ascii_digit_def char_range by (auto simp: byte_val_def)

lemma trace_header_valid:
  assumes "header_values_ok X" "\<forall>c \<in> set T. is_lower_hex c" "\<forall>c \<in> set S. is_lower_hex c"
  shows "x_hv_from_str X T = Some T"
    "x_hv_from_str X (''00-'' @ T @ ''-'' @ S @ ''-01'') = Some (''00-'' @ T @ ''-'' @ S @ ''-01'')"
proof -
  have T: "\<forall>c \<in> set T. 32 \<le> byte_val c \<and> byte_val c < 127"
    and S: "\<forall>c \<in> set S. 32 \<le> byte_val c \<and> byte_val c < 127"
    using assms(2,3) lower_hex_printable by blast+
  show "x_hv_from_str X T = Some T"
    using assms(1) T unfolding header_values_ok_def by blast
  have "\<forall>c \<in> set (''00-'' @ T @ ''-'' @ S @ ''-01''). 32 \<le> byte_val c \<and> byte_val c < 127"
    using T S by (auto simp: byte_val_def)
  then show "x_hv_from_str X (''00-'' @ T @ ''-'' @ S @ ''-01'') = Some (''00-'' @ T @ ''-'' @ S @ ''-01'')"
    using assms(1) unfolding header_values_ok_def by blast
qed

section \<open>The log\<close>

definition is_access :: "log_event \<Rightarrow> bool" where
  "is_access ev \<longleftrightarrow> ev_message ev = ''http_request_completed''"

text \<open>What a step of the program appends to the log, none of it an access event.\<close>

definition logs :: "'b world \<Rightarrow> 'b world \<Rightarrow> bool" where
  "logs w w' \<longleftrightarrow> (\<exists>evs. w_log w' = w_log w @ evs \<and> list_all (\<lambda>ev. \<not> is_access ev) evs)"

lemma logs_refl [simp]: "logs w w"
  by (simp add: logs_def)

lemma logs_trans: "logs a b \<Longrightarrow> logs b c \<Longrightarrow> logs a c"
  by (auto simp: logs_def)

lemma logs_same: "w_log w' = w_log w \<Longrightarrow> logs w w'"
  by (simp add: logs_def)

lemma logs_emit: "logs w w' \<Longrightarrow> list_all (\<lambda>ev. \<not> is_access ev) evs \<Longrightarrow> logs w (emit evs w')"
  by (auto simp: logs_def)

lemma not_access [simp]:
  "\<not> is_access (warn_event ''path resolution escaped fs root'' f)"
  "\<not> is_access (warn_event ''rejected: path is a symlink'' f)"
  "\<not> is_access (warn_event ''open refused: path became a symlink between check and open'' f)"
  "\<not> is_access (warn_event ''write refused: destination is or became a symlink'' f)"
  "\<not> is_access (copy_event X a b p q n d)"
  by (simp_all add: is_access_def warn_event_def copy_event_def)

lemma into_response_not_access: "list_all (\<lambda>ev. \<not> is_access ev) (snd (into_response e))"
  by (cases e) (simp_all add: into_response_def Let_def is_access_def is_server_error_def)

lemma resolve_not_access: "list_all (\<lambda>ev. \<not> is_access ev) (snd (resolve root p s))"
  by (simp add: resolve_def Let_def split: sum.split node.split)

section \<open>What a request preserves\<close>

text \<open>
  A relation between the world before and after every operation of a backend on the paths the
  validator accepts, which are the ones the handlers pass on, and every run of a service. \<open>handler_relation\<close> lifts one from the backends to the routes, once for every such
  relation.
\<close>

definition backend_rel :: "('b world \<Rightarrow> 'b world \<Rightarrow> bool) \<Rightarrow> 'b backend \<Rightarrow> bool" where
  "backend_rel rel be \<longleftrightarrow>
     (\<forall>opts w r w'. be_list be opts w = Some (r, w') \<longrightarrow> rel w w') \<and>
     (\<forall>p w. validate_path p = Inr () \<longrightarrow> rel w (snd (be_open_read be p w))) \<and>
     (\<forall>p rd h w. validate_path p = Inr () \<longrightarrow> rel w (snd (be_write_all be p rd h w)))"

definition service_rel :: "('b world \<Rightarrow> 'b world \<Rightarrow> bool) \<Rightarrow> 'b service \<Rightarrow> bool" where
  "service_rel rel h \<longleftrightarrow> (\<forall>req w r w'. h req w = Some (r, w') \<longrightarrow> rel w w')"

locale handler_relation =
  fixes rel :: "'b world \<Rightarrow> 'b world \<Rightarrow> bool"
  assumes rel_refl: "rel w w"
    and rel_trans: "rel a b \<Longrightarrow> rel b c \<Longrightarrow> rel a c"
    and rel_emit: "list_all (\<lambda>ev. \<not> is_access ev) evs \<Longrightarrow> rel w (emit evs w)"
    and rel_tick: "rel w (w\<lparr>w_tick := Suc (w_tick w)\<rparr>)"
begin

lemma rel_fail_with: "rel w w' \<Longrightarrow> fail_with e w' = (r, w'') \<Longrightarrow> rel w w''"
  using rel_trans rel_emit [OF into_response_not_access]
  by (auto simp: fail_with_def case_prod_beta)

lemma rel_stream_copy:
  assumes "backend_rel rel src" "backend_rel rel dst"
    and "validate_path sp = Inr ()" "validate_path dp = Inr ()" "stream_copy X src sp dst dp mx i w = (r, w')"
  shows "rel w w'"
proof -
  have op: "rel w w1" if "be_open_read src sp (w\<lparr>w_tick := Suc (w_tick w)\<rparr>) = (r1, w1)" for r1 w1
    using assms(1,3) that rel_trans [OF rel_tick] unfolding backend_rel_def by (metis snd_conv)
  have wr: "rel w1 w2" if "be_write_all dst dp rd h w1 = (r1, w2)" for rd h w1 r1 w2
    using assms(2,4) that unfolding backend_rel_def by (metis snd_conv)
  from assms(5) show ?thesis
  proof (cases rule: stream_copy_cases)
    case (no_source e)
    from op [OF no_source(1)] show ?thesis .
  next
    case (failed rd w1 evs n e)
    from op [OF failed(1)] wr [OF failed(3)] show ?thesis by (rule rel_trans)
  next
    case (copied rd w1 evs n w2 ms)
    have "rel w2 w'" unfolding copied(7) by (rule rel_trans [OF rel_tick rel_emit]) simp
    with op [OF copied(1)] wr [OF copied(3)] show ?thesis using rel_trans by blast
  qed
qed

lemma rel_copy_file:
  assumes "\<And>k be. pick (st_backends st) k = Inr be \<Longrightarrow> backend_rel rel be"
    and "copy_file X st req w = (r, w')"
  shows "rel w w'"
  using assms(2) rel_stream_copy [OF assms(1) assms(1)] rel_refl
  by (auto simp: copy_file_def split: if_splits sum.splits prod.splits)

lemma rel_list_files:
  assumes "\<And>k be. pick (st_backends st) k = Inr be \<Longrightarrow> backend_rel rel be"
    and "list_files st q w = Some (r, w')"
  shows "rel w w'"
  using assms(2) assms(1) rel_refl
  by (auto simp: list_files_def Let_def backend_rel_def split: sum.splits option.splits if_splits prod.splits)

lemma rel_route_get: "service_rel rel h \<Longrightarrow> service_rel rel (route_get h)"
  unfolding service_rel_def route_get_def using rel_refl by (force split: if_splits)

lemma rel_route_post: "service_rel rel h \<Longrightarrow> service_rel rel (route_post h)"
  using rel_refl by (auto simp: service_rel_def route_post_def split: if_splits)

lemma rel_require_bearer: "service_rel rel h \<Longrightarrow> service_rel rel (require_bearer X st h)"
  using rel_refl by (auto simp: service_rel_def require_bearer_def Let_def split: option.splits if_splits)

lemma rel_const: "service_rel rel (\<lambda>req w. Some (r, w))"
  using rel_refl by (simp add: service_rel_def)

lemma rel_list_files_service:
  assumes "\<And>k be. pick (st_backends st) k = Inr be \<Longrightarrow> backend_rel rel be"
  shows "service_rel rel (list_files_service X st)"
  by (auto simp: service_rel_def list_files_service_def
      intro: rel_refl rel_fail_with rel_list_files [OF assms] split: sum.splits prod.splits option.splits)

lemma rel_copy_file_service:
  assumes "\<And>k be. pick (st_backends st) k = Inr be \<Longrightarrow> backend_rel rel be"
  shows "service_rel rel (copy_file_service X st)"
  by (auto simp: service_rel_def copy_file_service_def
      intro: rel_refl rel_fail_with rel_copy_file [OF assms] split: sum.splits prod.splits)

lemma rel_routes:
  assumes "\<And>k be. pick (st_backends st) k = Inr be \<Longrightarrow> backend_rel rel be"
  shows "service_rel rel (routes X st)"
proof -
  have "service_rel rel (list_files_service X st)" by (rule rel_list_files_service [OF assms])
  moreover have "service_rel rel (copy_file_service X st)" by (rule rel_copy_file_service [OF assms])
  ultimately have "\<forall>h \<in> snd ` set (route_table X st). service_rel rel h"
    by (simp add: route_table_def rel_route_get rel_route_post rel_require_bearer rel_const)
  moreover have "service_rel rel (fallback X st)"
    by (simp add: fallback_def Let_def rel_require_bearer rel_const)
  ultimately show ?thesis
    by (auto simp: service_rel_def routes_def dest!: map_of_SomeD split: option.splits)
qed

end

text \<open>The log of a request grows, and without access events until the end.\<close>

interpretation logging: handler_relation logs
proof
  show "logs w w" for w :: "'b world" by (rule logs_refl)
  show "logs a b \<Longrightarrow> logs b c \<Longrightarrow> logs a c" for a b c :: "'b world" by (rule logs_trans)
  show "list_all (\<lambda>ev. \<not> is_access ev) evs \<Longrightarrow> logs w (emit evs w)" for evs and w :: "'b world"
    by (rule logs_emit [OF logs_refl])
  show "logs w (w\<lparr>w_tick := Suc (w_tick w)\<rparr>)" for w :: "'b world" by (rule logs_same) simp
qed

lemma logs_fs_open_read: "logs w (snd (fs_open_read X root p w))"
proof -
  obtain r evs where res: "resolve root p (w_fs w) = (r, evs)" by fastforce
  then have "list_all (\<lambda>ev. \<not> is_access ev) evs" using resolve_not_access [of root p "w_fs w"] by simp
  then have "logs w (emit evs w)" by (intro logs_emit) simp_all
  then show ?thesis
    by (auto simp: fs_open_read_def res interfere_def Let_def logs_def split: sum.split)
qed

lemma logs_fs_write_all: "logs w (snd (fs_write_all X root p rd h w))"
proof -
  obtain r evs where res: "resolve root p (w_fs w) = (r, evs)" by fastforce
  then have "list_all (\<lambda>ev. \<not> is_access ev) evs" using resolve_not_access [of root p "w_fs w"] by simp
  then have "logs w (emit evs w)" by (intro logs_emit) simp_all
  then show ?thesis
    by (auto simp: fs_write_all_def res interfere_def Let_def logs_def case_prod_beta
        split: sum.split option.split)
qed

lemma logs_collect_entries:
  "collect_entries X root names acc w = (r, w') \<Longrightarrow> w_log w' = w_log w"
  using collect_entries_world [of X root names acc w] by auto

lemma logs_fs_backend: "backend_rel logs (fs_backend X root)"
  by (auto simp: backend_rel_def logs_fs_open_read logs_fs_write_all fs_list_def logs_collect_entries
      Let_def logs_same split: sum.splits prod.splits)

lemma logs_s3_backend: "backend_rel logs (s3_backend X sb)"
  by (auto simp: backend_rel_def s3_list_def s3_open_read_def s3_write_all_def Let_def logs_same
      case_prod_beta split: sum.split get_error.split option.split)

lemma logs_offline_backend: "backend_rel logs (offline_backend k)"
  by (simp add: backend_rel_def)

text \<open>The backends the program is wired with.\<close>

definition wired :: "'b externs \<Rightarrow> 'b backends \<Rightarrow> bool" where
  "wired X bs \<longleftrightarrow> (\<exists>root. bs_fs bs = fs_backend X root) \<and>
     (bs_s3 bs = None \<or> (\<exists>sb. bs_s3 bs = Some (s3_backend X sb)) \<or> bs_s3 bs = Some (offline_backend S3))"

lemma wired_pick_cases:
  assumes "wired X bs" "pick bs k = Inr be"
  obtains root where "be = fs_backend X root" | sb where "be = s3_backend X sb" | "be = offline_backend S3"
  using assms by (cases k) (auto simp: wired_def pick_def)

lemma wired_pick:
  assumes "wired X bs" "pick bs k = Inr be"
  shows "backend_rel logs be"
  using assms by (rule wired_pick_cases) (simp_all add: logs_fs_backend logs_s3_backend logs_offline_backend)

lemma logs_routes:
  assumes "wired X (st_backends st)" "routes X st req w = Some (r, w')"
  shows "logs w w'"
  using logging.rel_routes [OF wired_pick [OF assms(1)]] assms(2) by (auto simp: service_rel_def)

section \<open>Properties\<close>

lemma demo_ct_eq: "ct_eq_ok demo"
  by (simp add: ct_eq_ok_def)

lemma demo_header_values: "header_values_ok demo"
  by (simp add: header_values_ok_def)

definition demo_request :: "string \<Rightarrow> string \<Rightarrow> (string \<times> string) list \<Rightarrow> request" where
  "demo_request meth path hs =
     \<lparr>rq_method = meth, rq_path = path, rq_query = None, rq_headers = hs, rq_body = [],
      rq_matched_path = None, rq_body_limit = None\<rparr>"

definition demo_locked :: "bucket app_state" where
  "demo_locked = demo_state\<lparr>st_config := config_default
     \<lparr>ac_security := security_default\<lparr>inter_service_token := Some ''sesame''\<rparr>\<rparr>\<rparr>"

lemma demo_locked_token: "inter_service_token (ac_security (st_config demo_locked)) = Some ''sesame''"
  by (simp add: demo_locked_def)

lemma demo_no_auth: "presented_token X (demo_request m p []) = []"
  by (simp add: presented_token_def demo_request_def header_get_def strip_prefix_def starts_with_def)

definition no_deadline :: "'b externs \<Rightarrow> bool" where
  "no_deadline X \<longleftrightarrow> (\<forall>d req w. x_deadline X d req w = None)"

lemma demo_no_deadline: "no_deadline demo"
  by (simp add: no_deadline_def)

text \<open>What a handler the deadline cuts short does to the world is related by \<open>rel\<close>.\<close>

definition deadline_rel :: "('b world \<Rightarrow> 'b world \<Rightarrow> bool) \<Rightarrow> 'b externs \<Rightarrow> bool" where
  "deadline_rel rel X \<longleftrightarrow> (\<forall>d req w w'. x_deadline X d req w = Some w' \<longrightarrow> rel w w')"

lemma no_deadline_rel: "no_deadline X \<Longrightarrow> deadline_rel rel X"
  by (simp add: no_deadline_def deadline_rel_def)

lemmas demo_deadline_rel = demo_no_deadline [THEN no_deadline_rel]

text \<open>A request ends as the routes answer it or as the deadline cuts it short.\<close>

lemma build_router_cases:
  assumes "build_router X st req w = Some (r, w')"
  obtains r0 w0 where
    "routes X st (prepared X st req) (inner_world X req w) = Some (r0, w0) \<or>
     x_deadline X (request_timeout_secs (ac_limits (st_config st))) (prepared X st req) (inner_world X req w) = Some w0"
    "r = secured (traced X (trace_of X req w) (span_of X req w) r0)" "w' = logged X st req w r0 w0"
  using assms by (auto simp: build_router_eq timeout_layer_def split: option.splits)

lemma build_router_rel:
  assumes "build_router X st req w = Some (r, w')" "deadline_rel rel X" "service_rel rel (routes X st)"
  obtains r0 w0 where "rel (inner_world X req w) w0"
    "r = secured (traced X (trace_of X req w) (span_of X req w) r0)" "w' = logged X st req w r0 w0"
proof -
  obtain r0 w0 where r0: "routes X st (prepared X st req) (inner_world X req w) = Some (r0, w0) \<or>
     x_deadline X (request_timeout_secs (ac_limits (st_config st))) (prepared X st req) (inner_world X req w) = Some w0"
    "r = secured (traced X (trace_of X req w) (span_of X req w) r0)" "w' = logged X st req w r0 w0"
    using build_router_cases [OF assms(1)] .
  from r0(1) assms(2,3) have "rel (inner_world X req w) w0"
    by (auto simp: deadline_rel_def service_rel_def)
  with r0(2,3) show ?thesis using that by blast
qed

text \<open>
  C1: With a token configured, the two gated routes serve exactly the requests that present
  that token (and it is not empty): those behave as if no token were configured, every
  other one is answered 401 in the structured form and changes nothing at all.
\<close>

theorem gate_is_exact:
  assumes "ct_eq_ok X" "inter_service_token (ac_security (st_config st)) = Some t"
    and "rq_path req \<in> {''/v1/files'', ''/v1/files/copy''}"
  shows "routes X st req w =
    (if presented_token X req = t \<and> t \<noteq> [] then routes X (without_token st) req w
     else Some (unauthorized (if presented_token X req = [] then ''missing bearer token''
                              else ''invalid bearer token''), w))"
  using routes_gated [OF assms] by (simp add: gate_answer_def)

lemma gate_is_exact_witness:
  "routes demo demo_locked (demo_request ''POST'' ''/v1/files/copy'' []) demo_world =
     Some (unauthorized ''missing bearer token'', demo_world)"
  using gate_is_exact [OF demo_ct_eq demo_locked_token,
      of "demo_request ''POST'' ''/v1/files/copy'' []" demo_world]
  by (simp add: demo_no_auth) (simp add: demo_request_def)

text \<open>
  C2: Through the whole stack, a request to a gated route without the configured token is
  answered 401, and neither the file system nor the bucket is touched.
\<close>

theorem unauthorized_touches_nothing:
  assumes "ct_eq_ok X" "inter_service_token (ac_security (st_config st)) = Some t"
    and "rq_path req \<in> {''/v1/files'', ''/v1/files/copy''}"
    and "presented_token X req \<noteq> t" "no_deadline X"
  shows "\<exists>r w'. build_router X st req w = Some (r, w') \<and> r_status r = 401 \<and>
    w_fs w' = w_fs w \<and> w_s3 w' = w_s3 w"
proof -
  have "presented_token X (prepared X st req) = presented_token X req"
    by (rule presented_token_cong) simp
  then have "routes X st (prepared X st req) (inner_world X req w) =
      Some (gate_answer X (prepared X st req), inner_world X req w)"
    using routes_gated [OF assms(1,2), of "prepared X st req"] assms(3,4) by simp
  moreover have "r_status (gate_answer X (prepared X st req)) = 401"
    by (simp add: gate_answer_def unauthorized_def json_response_def)
  moreover have "store (logged X st req w r (inner_world X req w)) = store w" for r
    by (simp add: logged_def)
  ultimately show ?thesis
    using assms(5)
    by (auto simp: build_router_eq timeout_layer_def no_deadline_def store_def)
qed

lemma unauthorized_touches_nothing_witness:
  "\<exists>r w'. build_router demo demo_locked (demo_request ''GET'' ''/v1/files'' []) demo_world = Some (r, w') \<and>
     r_status r = 401 \<and> w_s3 w' = demo_bucket"
  using unauthorized_touches_nothing [OF demo_ct_eq demo_locked_token, of "demo_request ''GET'' ''/v1/files'' []" demo_world]
    demo_no_deadline
  by (auto simp: demo_no_auth) (auto simp: demo_request_def demo_world_def)

lemma response_decorated:
  assumes "header_values_ok X" "build_router X st req w = Some (r, w')"
  shows "(\<forall>(n, v) \<in> set default_headers. header_get n (r_headers r) = Some v) \<and>
    (\<exists>T S. header_get ''x-trace-id'' (r_headers r) = Some T \<and>
       header_get ''traceparent'' (r_headers r) = Some (''00-'' @ T @ ''-'' @ S @ ''-01'') \<and>
       length T = 32 \<and> length S = 16 \<and> (\<forall>c \<in> set (T @ S). is_lower_hex c) \<and>
       (\<forall>t. inbound_trace_id X req = Some t \<longrightarrow> T = to_ascii_lowercase t))"
proof -
  define T S where "T = trace_of X req w" and "S = span_of X req w"
  note shapes = trace_of_shape [where X = X and req = req and w = w, folded T_def]
    span_of_shape [where X = X and req = req and w = w, folded S_def]
  note valid = trace_header_valid [OF assms(1) shapes(2) shapes(5)]
  obtain r0 w0 where r0: "timeout_layer X (request_timeout_secs (ac_limits (st_config st))) (routes X st)
      (prepared X st req) (inner_world X req w) = Some (r0, w0)" "r = secured (traced X T S r0)"
    using assms(2) by (auto simp: build_router_eq T_def S_def)
  have plain: "plain_headers r0"
    by (rule plain_service_Some [OF plain_timeout_layer [OF plain_routes] r0(1)])
  have "header_get n (r_headers r) = Some v" if "(n, v) \<in> set default_headers" for n v
  proof -
    have "n \<in> set (map fst default_headers)" using that by force
    then have "n \<notin> {''x-trace-id'', ''traceparent'', ''content-type'', ''allow''}"
      using default_header_names by blast
    then have "header_get n (r_headers (traced X T S r0)) = None"
      using plain_header_get [OF plain, of n] by (simp add: header_get_traced)
    moreover have "map_of default_headers n = Some v"
      using that distinct_default_headers by (rule map_of_is_SomeI [rotated])
    ultimately show ?thesis by (simp add: r0(2) header_get_secured)
  qed
  moreover have "header_get ''x-trace-id'' (r_headers r) = Some T"
    "header_get ''traceparent'' (r_headers r) = Some (''00-'' @ T @ ''-'' @ S @ ''-01'')"
    by (simp_all add: r0(2) header_get_secured header_get_traced valid default_headers_def del: append.simps)
  ultimately show ?thesis using shapes by (auto simp del: append.simps)
qed

text \<open>
  C15: Every response, whatever the route, the method, the outcome or a timeout, carries the
  five security headers, \<open>x-trace-id\<close> with a trace id of 32 lower-case hex digits and
  \<open>traceparent\<close> with the same id and a span id of 16. The id is the caller's, in lower
  case, when the request carried a usable one.
\<close>
theorem every_response_is_decorated:
  assumes "header_values_ok X" "build_router X st req w = Some (r, w')"
  shows "(\<forall>(n, v) \<in> set default_headers. header_get n (r_headers r) = Some v) \<and>
    (\<exists>T S. header_get ''x-trace-id'' (r_headers r) = Some T \<and>
       header_get ''traceparent'' (r_headers r) = Some (''00-'' @ T @ ''-'' @ S @ ''-01'') \<and>
       length T = 32 \<and> length S = 16 \<and> (\<forall>c \<in> set (T @ S). is_lower_hex c) \<and>
       (\<forall>t. inbound_trace_id X req = Some t \<longrightarrow> T = to_ascii_lowercase t))"
  by (rule response_decorated [OF assms])

lemma demo_root_request:
  "\<exists>r w'. build_router demo demo_state (demo_request ''GET'' ''/'' []) demo_world = Some (r, w') \<and>
     r_status r = 200"
  by (simp add: build_router_eq timeout_layer_def routes_def route_table_def route_get_def
      prepared_def demo_request_def root_response_def json_response_def)

lemma every_response_is_decorated_witness:
  "\<exists>r w'. build_router demo demo_state (demo_request ''GET'' ''/'' []) demo_world = Some (r, w') \<and>
     header_get ''x-frame-options'' (r_headers r) = Some ''DENY''"
proof -
  obtain r w' where r: "build_router demo demo_state (demo_request ''GET'' ''/'' []) demo_world = Some (r, w')"
    using demo_root_request by blast
  have "(''x-frame-options'', ''DENY'') \<in> set default_headers" by (simp add: default_headers_def)
  with every_response_is_decorated [OF demo_header_values r] r show ?thesis by blast
qed

lemma request_logged:
  assumes "deadline_rel logs X" "wired X (st_backends st)" "build_router X st req w = Some (r, w')"
  shows "\<exists>evs d tid. w_log w' = w_log w @ evs @ [access_event (rq_method req) (route_label X st req) (r_status r) d tid] \<and>
    filter is_access evs = [] \<and> (\<forall>t. inbound_trace_id X req = Some t \<longrightarrow> tid = t)"
proof -
  have "service_rel logs (routes X st)" using logs_routes [OF assms(2)] by (auto simp: service_rel_def)
  then obtain r0 w0 where r0: "logs (inner_world X req w) w0"
    "r = secured (traced X (trace_of X req w) (span_of X req w) r0)" "w' = logged X st req w r0 w0"
    using build_router_rel [OF assms(3,1)] by blast
  then obtain evs where "w_log w0 = w_log w @ evs" "list_all (\<lambda>ev. \<not> is_access ev) evs"
    by (auto simp: logs_def)
  moreover define tid where "tid = fst (extract_trace_id X req (snd (instant_now X w)))"
  have "\<forall>t. inbound_trace_id X req = Some t \<longrightarrow> tid = t"
    by (simp add: tid_def extract_trace_id_def)
  ultimately show ?thesis
    unfolding r0(2,3) logged_def tid_def [symmetric]
    by (intro exI [of _ evs] exI [of _ tid] exI conjI) (auto simp: list_all_iff filter_empty_conv)
qed

text \<open>
  C16: A request that is answered, by its handler or by the deadline, adds exactly one access-log event, and it is the last
  event: it names the method, the matched route (never the raw path of an unknown one) and
  the status that was sent, under the caller's trace id if there was one. (The hypothesis on the deadline is that
  the handler it cuts short, which cannot log the access itself, has not.)
\<close>
theorem one_access_event_per_request:
  assumes "deadline_rel logs X" "wired X (st_backends st)" "build_router X st req w = Some (r, w')"
  shows "\<exists>evs d tid. w_log w' = w_log w @ evs @ [access_event (rq_method req) (route_label X st req) (r_status r) d tid] \<and>
    filter is_access evs = [] \<and> (\<forall>t. inbound_trace_id X req = Some t \<longrightarrow> tid = t)"
  by (rule request_logged [OF assms])

lemma one_access_event_per_request_witness:
  "\<exists>r w'. build_router demo demo_state (demo_request ''GET'' ''/'' []) demo_world = Some (r, w') \<and>
     (\<exists>evs d tid. w_log w' = w_log demo_world @ evs @
        [access_event ''GET'' (route_label demo demo_state (demo_request ''GET'' ''/'' [])) (r_status r) d tid])"
proof -
  obtain r w' where r: "build_router demo demo_state (demo_request ''GET'' ''/'' []) demo_world = Some (r, w')"
    using demo_root_request by blast
  have "wired demo (st_backends demo_state)" by (auto simp: wired_def both_backends_def)
  with one_access_event_per_request [OF demo_deadline_rel _ r] r show ?thesis
    by (fastforce simp: demo_request_def)
qed

text \<open>
  The probes stay public and the documentation stays shut: whatever token is configured
  or presented, \<open>GET /\<close> and \<open>GET /health\<close> answer 200, and \<open>GET /api\<close> answers 200 only when
  the administrator enabled it and the documentation is on, 404 otherwise; none of them
  touches the world.
\<close>

theorem public_routes:
  "routes X st (req\<lparr>rq_method := ''GET'', rq_path := ''/''\<rparr>) w = Some (root_response, w) \<and>
   routes X st (req\<lparr>rq_method := ''GET'', rq_path := ''/health''\<rparr>) w = Some (health_response, w) \<and>
   r_status root_response = 200 \<and> r_status health_response = 200 \<and>
   (\<exists>r. routes X st (req\<lparr>rq_method := ''GET'', rq_path := ''/api''\<rparr>) w = Some (r, w) \<and>
      r_status r = (if admin_enabled (ac_security (st_config st)) \<and> ac_documentation_enabled (st_config st)
                    then 200 else 404))"
  by (simp add: routes_def route_table_def route_get_def openapi_def json_response_def status_response_def
      root_response_def health_response_def)

text \<open>
  A copy request that fails a check is answered 400 or 503 before any backend is
  touched: equal storage types, a path the validator rejects, or a backend that is not
  configured. A request that passes them all is exactly one \<open>stream_copy\<close>.
\<close>

lemma copy_checks_come_first:
  "(\<exists>src dst. source_storage_type req \<noteq> destination_storage_type req \<and>
      validate_path (source_file_path req) = Inr () \<and> validate_path (destination_file_path req) = Inr () \<and>
      pick (st_backends st) (source_storage_type req) = Inr src \<and>
      pick (st_backends st) (destination_storage_type req) = Inr dst \<and>
      copy_file X st req w = apfst (map_sum id (\<lambda>n. 204))
        (stream_copy X src (source_file_path req) dst (destination_file_path req) (byte_cap st) (idle_ms st) w)) \<or>
   (\<exists>e. copy_file X st req w = (Inl e, w) \<and> status e \<in> {400, 503})"
proof (cases "source_storage_type req = destination_storage_type req \<or>
    validate_path (source_file_path req) \<noteq> Inr () \<or> validate_path (destination_file_path req) \<noteq> Inr () \<or>
    (\<exists>e. pick (st_backends st) (source_storage_type req) = Inl e) \<or>
    (\<exists>e. pick (st_backends st) (destination_storage_type req) = Inl e)")
  case True
  have pe: "status e = 503" if "pick bs k = Inl e" for bs :: "'a backends" and k e
    using that by (auto simp: pick_def split: StorageType.splits option.splits)
  from True show ?thesis
    by (intro disjI2) (auto simp: copy_file_def dest: validate_path_Inl pe split: sum.split)
next
  case False
  then obtain src dst where pk: "pick (st_backends st) (source_storage_type req) = Inr src"
    "pick (st_backends st) (destination_storage_type req) = Inr dst"
    by (metis obj_sumE)
  with False copy_file_stream [of req st src dst X w] show ?thesis
    by (auto split: prod.split sum.split)
qed

text \<open>
  An oversized body is answered 413, but the message names a cap of 0 bytes, not the cap
  that was exceeded.
\<close>

lemma body_too_large_reports_zero:
  assumes "x_json_within X BODY_READ_TIMEOUT req = Inr (Inl (JsonRejection 413 m))"
  shows "copy_file_service X st req w = Some (fail_with (BodyTooLarge 0) w) \<and>
    display (BodyTooLarge 0) = ''request body exceeds server cap of '' @ dec 0 @ '' bytes''"
  using assms by (simp add: copy_file_service_def typed_json_def)

text \<open>
  A configured token that ends with a space locks every caller out: the gate trims what the
  caller presents, and loading the configuration does not trim the token.
\<close>

lemma utf8_chars_shape: "ch \<in> set (utf8_chars s) \<Longrightarrow> ch \<noteq> [] \<and> list_all is_cont (tl ch)"
  by (induction s rule: utf8_chars.induct) (auto simp: list_all_iff dest: set_takeWhileD)

lemma trim_no_trailing_space: "trim s \<noteq> t @ '' ''"
proof
  assume eq: "trim s = t @ '' ''"
  define cs where "cs = rev (dropWhile is_whitespace (rev (dropWhile is_whitespace (utf8_chars s))))"
  have cat: "concat cs = t @ '' ''" using eq by (simp add: trim_def cs_def)
  have sub: "set cs \<subseteq> set (utf8_chars s)" by (auto simp: cs_def dest!: set_dropWhileD)
  have "cs \<noteq> []" using cat by auto
  then obtain ds ch where cs: "cs = ds @ [ch]" by (metis rev_exhaust)
  with sub utf8_chars_shape [of ch s] have ch: "ch \<noteq> []" "list_all is_cont (tl ch)" by auto
  then have last: "last ch = CHR '' ''" using cat by (metis cs concat_append concat.simps append_Nil2 last_appendR last_snoc)
  have "tl ch = []"
  proof (rule ccontr)
    assume "tl ch \<noteq> []"
    then have "last ch \<in> set (tl ch)" using last_tl [of ch] last_in_set [of "tl ch"] by simp
    with ch(2) last show False by (auto simp: list_all_iff is_cont_def byte_val_def)
  qed
  with ch(1) last have "ch = '' ''" by (cases ch) auto
  then have "is_whitespace ch" by (simp add: is_whitespace_single byte_val_def)
  moreover have "\<not> is_whitespace ch"
    using cs hd_dropWhile [of is_whitespace "rev (dropWhile is_whitespace (utf8_chars s))"]
    by (metis cs_def hd_rev last_snoc rev_is_Nil_conv rev_rev_ident snoc_eq_iff_butlast)
  ultimately show False by simp
qed

lemma padded_token_locks_out:
  assumes "ct_eq_ok X" "inter_service_token (ac_security (st_config st)) = Some (t @ '' '')" "gated req"
  shows "routes X st req w = Some (gate_answer X req, w)"
proof -
  have "presented_token X req \<noteq> t @ '' ''"
    unfolding presented_token_def Let_def by (rule trim_no_trailing_space)
  with routes_gated [OF assms] show ?thesis by simp
qed

text \<open>
  Without an inbound trace id the access log and the response name different ids: the log has one of 16
  digits, the response one of 32, so the two cannot be correlated.
\<close>

lemma log_id_is_not_response_id:
  assumes "inbound_trace_id X req = None"
  shows "fst (extract_trace_id X req w) \<noteq> fst (extract_or_generate_trace_id X req w')"
proof -
  have "length (fst (extract_trace_id X req w)) = 16"
    using assms by (simp add: extract_trace_id_def case_prod_beta Let_def)
  moreover have "length (fst (extract_or_generate_trace_id X req w')) = 32"
    using trace_id_shape [of X req w'] by (metis prod.collapse)
  ultimately show ?thesis by force
qed

text \<open>
  The generator's seed is the clock exclusive-or a counter, which two requests of one run can agree on: here
  the ones at counters 1048574 and 1048576, two milliseconds apart, get the same trace id. And a clock before
  the epoch makes the first trace id all zeros, which the W3C format declares invalid.
\<close>

lemma trace_id_repeats:
  assumes "inbound_trace_id X req = None" "inbound_trace_id X req' = None"
    and "w_trace_counter w = 1048574" "w_trace_counter w' = w_trace_counter w + 2"
    and "x_wall X (w_tick w) = 2 ^ 60" "x_wall X (w_tick w') = 2 ^ 60 + 2097150"
  shows "fst (extract_or_generate_trace_id X req w) = fst (extract_or_generate_trace_id X req' w')"
proof -
  have "xor (epoch_nanos (2 ^ 60)) 1048574 = xor (epoch_nanos (2 ^ 60 + 2097150)) (1048574 + 2)"
    by (simp add: epoch_nanos_def)
  with assms show ?thesis
    by (simp add: extract_or_generate_trace_id_def random_hex_128_def random_bytes_def system_now_def Let_def)
qed

lemma xorshift_zero: "xorshift_bytes n 0 = replicate n 0"
  by (induction n) (simp_all add: xorshift64_def)

lemma trace_id_zero:
  assumes "inbound_trace_id X req = None" "w_trace_counter w = 0" "x_wall X (w_tick w) < 0"
  shows "fst (extract_or_generate_trace_id X req w) = replicate 32 CHR ''0''"
proof -
  have "hex_bytes (replicate 16 0) = replicate 32 CHR ''0''" by code_simp
  with assms show ?thesis
    by (simp add: extract_or_generate_trace_id_def random_hex_128_def random_bytes_def system_now_def Let_def
        epoch_nanos_def xorshift_zero)
qed

end
