(* ===== verification/Responses.thy ===== *)
theory Responses
  imports Service
begin

text \<open>
  The shape of every response: which status comes with which body and error code
  (\<open>book/src/failure-modes.md\<close> has the table of codes).
\<close>

section \<open>The forms\<close>

text \<open>The status and code of every error the service answers with.\<close>

definition failure_matrix :: "(nat \<times> string) list" where
  "failure_matrix =
     [(400, ''invalid_path''), (400, ''same_storage_type''), (400, ''bad_query''), (400, ''bad_body''),
      (401, ''unauthorized''), (404, ''not_found''), (408, ''body_read_timeout''),
      (413, ''body_too_large''), (413, ''list_limit_too_large''), (500, ''io_error''),
      (502, ''upstream_error''), (503, ''backend_not_configured'')]"

definition content_type :: "response \<Rightarrow> string option" where
  "content_type r = header_get ''content-type'' (r_headers r)"

definition error_form :: "nat \<Rightarrow> string option \<Rightarrow> body \<Rightarrow> bool" where
  "error_form st ct b \<longleftrightarrow> ct = Some ''application/json'' \<and>
     (\<exists>c m. (st, c) \<in> set failure_matrix \<and> b = JsonBody (error_body c m) \<and>
        length (utf8_chars m) \<le> MAX_USER_MESSAGE_LEN)"

definition success_form :: "string \<Rightarrow> nat \<Rightarrow> string option \<Rightarrow> body \<Rightarrow> bool" where
  "success_form path st ct b \<longleftrightarrow>
     path = ''/v1/files/copy'' \<and> st = 204 \<and> b = EmptyBody \<or>
     st = 200 \<and> ct = Some ''application/json'' \<and>
       (path = ''/'' \<and> b = JsonBody (JObj [(''data'', JStr ''FileFerry'')]) \<or>
        path = ''/health'' \<and> b = JsonBody (JObj [(''status'', JStr ''ok'')]) \<or>
        path = ''/api'' \<and> b = JsonBody openapi_doc \<or>
        path = ''/v1/files'' \<and> (\<exists>files. b = JsonBody (list_files_response_json files)))"

text \<open>
  What is answered without the envelope of an error: an unknown path and the disabled
  \<open>/api\<close>, another method, the deadline of the whole request.
\<close>

definition bare_form :: "string \<Rightarrow> nat \<Rightarrow> string option \<Rightarrow> body \<Rightarrow> bool" where
  "bare_form path st allow b \<longleftrightarrow>
     st = 404 \<and> path \<notin> {''/'', ''/health'', ''/v1/files'', ''/v1/files/copy''} \<and>
       (b = EmptyBody \<or> path = ''/api'' \<and> b = JsonBody (JObj [(''error'', JStr ''documentation_disabled'')])) \<or>
     st = 405 \<and> b = EmptyBody \<and>
       allow = Some (if path = ''/v1/files/copy'' then ''POST'' else ''GET,HEAD'') \<or>
     st = 408 \<and> b = EmptyBody"

definition form_ok :: "string \<Rightarrow> response \<Rightarrow> body \<Rightarrow> bool" where
  "form_ok path r b \<longleftrightarrow> success_form path (r_status r) (content_type r) b \<or>
     error_form (r_status r) (content_type r) b \<or>
     bare_form path (r_status r) (header_get ''allow'' (r_headers r)) b"

text \<open>\<open>HEAD\<close> has the status and headers of \<open>GET\<close> without the body.\<close>

definition reply_ok :: "string \<Rightarrow> string \<Rightarrow> response \<Rightarrow> bool" where
  "reply_ok path meth r \<longleftrightarrow>
     (\<exists>b. form_ok path r b \<and> (r_body r = b \<or> meth = ''HEAD'' \<and> r_body r = EmptyBody))"

lemma reply_okI: "form_ok path r (r_body r) \<Longrightarrow> reply_ok path meth r"
  by (auto simp: reply_ok_def)

section \<open>The errors that reach a response\<close>

definition in_matrix :: "FerryError \<Rightarrow> bool" where
  "in_matrix e \<longleftrightarrow> (status e, code e) \<in> set failure_matrix"

lemma in_matrix_iff: "in_matrix e \<longleftrightarrow> (\<forall>cap. e \<noteq> TransferTooLarge cap) \<and> (\<forall>m. e \<noteq> Internal m)"
  by (cases e) (simp_all add: in_matrix_def failure_matrix_def)

definition fails_served :: "('a res \<times> 'b world) \<Rightarrow> bool" where
  "fails_served out \<longleftrightarrow> (\<forall>e w'. out = (Inl e, w') \<longrightarrow> in_matrix e)"

definition backend_served :: "'b backend \<Rightarrow> bool" where
  "backend_served be \<longleftrightarrow>
     (\<forall>opts w out. be_list be opts w = Some out \<longrightarrow> fails_served out) \<and>
     (\<forall>p w. fails_served (be_open_read be p w)) \<and>
     (\<forall>p rd h w. fails_served (be_write_all be p rd h w))"

lemma validate_served: "validate_path p = Inl e \<Longrightarrow> in_matrix e"
  by (auto simp: validate_path_def in_matrix_iff split: if_splits)

lemma pick_served: "pick bs k = Inl e \<Longrightarrow> in_matrix e"
  by (auto simp: pick_def in_matrix_iff split: StorageType.splits option.splits)

lemma resolve_served: "resolve root p s = (Inl e, evs) \<Longrightarrow> in_matrix e"
  by (auto simp: resolve_def Let_def in_matrix_iff symlink_refused_def split: if_splits sum.splits node.splits)

lemma collect_entries_served: "fails_served (collect_entries X root names acc w)"
proof (induction names arbitrary: acc w)
  case Nil
  then show ?case by (auto simp: fails_served_def in_matrix_iff collect_entries.simps [of X root "[]"] split: option.split)
next
  case (Cons fname names)
  then show ?case
    by (auto simp: fails_served_def in_matrix_iff collect_entries.simps [of X root "fname # names"] Let_def
        split: option.split)
qed

lemma fs_open_read_served: "fails_served (fs_open_read X root p w)"
  by (auto simp: fails_served_def fs_open_read_def Let_def symlink_refused_def dest: resolve_served
      intro: in_matrix_iff [THEN iffD2] split: prod.splits sum.splits if_splits)

lemma fs_write_all_served: "fails_served (fs_write_all X root p rd h w)"
  by (auto simp: fails_served_def fs_write_all_def Let_def symlink_refused_def dest: resolve_served
      intro: in_matrix_iff [THEN iffD2] split: prod.splits sum.splits if_splits option.splits)

lemma fs_list_served: "fs_list X root opts w = Some out \<Longrightarrow> fails_served out"
  using collect_entries_served [of X root _ "[]" w]
  by (auto simp: fails_served_def in_matrix_iff fs_list_def Let_def split: sum.splits prod.splits)

lemma fs_backend_served: "backend_served (fs_backend X root)"
  by (simp add: backend_served_def fs_open_read_served fs_write_all_served fs_list_served)

lemma s3_list_pages_served:
  assumes "s3_list_pages X sb limit k out t b = Some y"
  shows "\<forall>e b'. y = (Inl e, b') \<longrightarrow> in_matrix e"
proof (rule s3_list_pages.raw_induct
    [where P = "\<lambda>X sb limit k out t b y. \<forall>e b'. y = (Inl e, b') \<longrightarrow> in_matrix e", OF _ assms],
    goal_cases page)
  case (page pages X sb limit k out t b y)
  from page(2) show ?case
    by (auto simp: Let_def in_matrix_iff dest!: page(1) split: prod.splits sum.splits if_splits option.splits)
qed

lemma s3_backend_served: "backend_served (s3_backend X sb)"
  by (auto simp: backend_served_def fails_served_def s3_list_def s3_open_read_def s3_write_all_def Let_def
      case_prod_beta dest: s3_list_pages_served intro: in_matrix_iff [THEN iffD2]
      split: sum.splits get_error.splits option.splits if_splits)

lemma offline_backend_served: "backend_served (offline_backend k)"
  by (simp add: backend_served_def fails_served_def offline_error_def in_matrix_iff)

lemma wired_served:
  assumes "wired X bs" "pick bs k = Inr be"
  shows "backend_served be"
  using assms by (rule wired_pick_cases) (simp_all add: fs_backend_served s3_backend_served offline_backend_served)

lemma stream_copy_served:
  assumes "backend_served src" "backend_served dst"
  shows "fails_served (stream_copy X src sp dst dp mx i w)"
proof -
  have "in_matrix e" if "stream_copy X src sp dst dp mx i w = (Inl e, w')" for e w'
    using that
  proof (cases rule: stream_copy_cases)
    case (no_source e')
    with assms(1) show ?thesis unfolding backend_served_def fails_served_def by blast
  next
    case (failed rd w1 evs n e')
    with assms(2) show ?thesis unfolding backend_served_def fails_served_def by blast
  qed simp
  then show ?thesis by (simp add: fails_served_def)
qed

lemma copy_file_served:
  assumes "wired X (st_backends st)"
  shows "fails_served (copy_file X st req w)"
proof -
  have "in_matrix e" if "stream_copy X src sp dst dp mx i w = (Inl e, w')"
    "pick (st_backends st) k1 = Inr src" "pick (st_backends st) k2 = Inr dst" for src sp dst dp mx i e w' k1 k2
    using stream_copy_served [OF wired_served [OF assms that(2)] wired_served [OF assms that(3)]] that(1)
    unfolding fails_served_def by blast
  then show ?thesis
    by (auto simp: fails_served_def copy_file_def dest: validate_served pick_served
        intro: in_matrix_iff [THEN iffD2] split: if_splits sum.splits prod.splits)
qed

lemma list_files_served:
  assumes "wired X (st_backends st)" "list_files st q w = Some (Inl e, w')"
  shows "in_matrix e"
proof -
  have "in_matrix e" if "be_list be opts w = Some (Inl e, w')" "pick (st_backends st) k = Inr be" for be opts k
    using wired_served [OF assms(1) that(2)] that(1) unfolding backend_served_def fails_served_def by blast
  with assms(2) show ?thesis
    by (auto simp: list_files_def Let_def dest: validate_served pick_served
        intro: in_matrix_iff [THEN iffD2] split: if_splits sum.splits option.splits prod.splits)
qed

lemma typed_query_served: "typed_query X req = Inl e \<Longrightarrow> in_matrix e"
  by (auto simp: typed_query_def in_matrix_iff split: sum.splits query_rejection.splits)

lemma typed_json_served: "typed_json X req = Inl e \<Longrightarrow> in_matrix e"
  by (auto simp: typed_json_def in_matrix_iff split: sum.splits json_rejection.splits if_splits)

section \<open>The services\<close>

lemma error_form_ok:
  assumes "in_matrix e" "fail_with e w = (r, w')"
  shows "form_ok path r (r_body r)"
proof -
  have r: "r = fst (into_response e)" using assms(2) by (simp add: fail_with_def case_prod_beta)
  have "content_type r = Some ''application/json''"
    unfolding r content_type_def header_get_def into_response_headers by simp
  moreover have "length (utf8_chars (clip_user_message (display e))) \<le> MAX_USER_MESSAGE_LEN"
    by (simp add: MAX_USER_MESSAGE_LEN_def clip_length)
  ultimately show ?thesis
    using assms(1) unfolding form_ok_def error_form_def in_matrix_def r into_response_status into_response_body
    by blast
qed

lemma list_files_reply:
  assumes "wired X (st_backends st)" "list_files_service X st req w = Some (r, w')"
  shows "form_ok ''/v1/files'' r (r_body r)"
proof -
  have "form_ok ''/v1/files'' (json_response 200 (list_files_response_json files))
      (r_body (json_response 200 (list_files_response_json files)))" for files
    by (auto simp: form_ok_def success_form_def json_response_def content_type_def header_get_def)
  moreover have "form_ok ''/v1/files'' r (r_body r)" if "fail_with e w0 = (r, w')" "typed_query X req = Inl e" for e w0
    using error_form_ok [OF typed_query_served [OF that(2)] that(1)] .
  moreover have "form_ok ''/v1/files'' r (r_body r)" if "fail_with e w0 = (r, w')" "list_files st q w = Some (Inl e, w0)"
    for e w0 q using error_form_ok [OF list_files_served [OF assms(1) that(2)] that(1)] .
  ultimately show ?thesis
    using assms(2) by (auto simp: list_files_service_def split: sum.splits option.splits)
qed

lemma copy_file_204: "copy_file X st req w = (Inr n, w') \<Longrightarrow> n = 204"
  by (auto simp: copy_file_def split: if_splits sum.splits prod.splits)

lemma copy_file_reply:
  assumes "wired X (st_backends st)" "copy_file_service X st req w = Some (r, w')"
  shows "form_ok ''/v1/files/copy'' r (r_body r)"
proof -
  have "form_ok ''/v1/files/copy'' (status_response n) (r_body (status_response n))"
    if "copy_file X st creq w = (Inr n, w'')" for creq n w''
    by (simp add: copy_file_204 [OF that] form_ok_def success_form_def status_response_def)
  moreover have "form_ok ''/v1/files/copy'' r (r_body r)"
    if "fail_with e w0 = (r, w')" "copy_file X st creq w = (Inl e, w0)" for creq e w0
  proof -
    have "in_matrix e" using copy_file_served [OF assms(1)] that(2) unfolding fails_served_def by blast
    then show ?thesis using that(1) by (rule error_form_ok)
  qed
  moreover have "form_ok ''/v1/files/copy'' r (r_body r)" if "fail_with e w0 = (r, w')" "typed_json X req = Inl e" for e w0
    using error_form_ok [OF typed_json_served [OF that(2)] that(1)] .
  ultimately show ?thesis
    using assms(2) by (auto simp: copy_file_service_def split: sum.splits prod.splits)
qed

lemma unauthorized_reply:
  assumes "m \<in> {''missing bearer token'', ''invalid bearer token''}"
  shows "reply_ok path meth (unauthorized m)"
proof -
  have "length (utf8_chars m) \<le> 256"
    using assms by (elim insertE emptyE; hypsubst) code_simp+
  then show ?thesis
    by (intro reply_okI) (auto simp: form_ok_def error_form_def unauthorized_def json_response_def content_type_def
        header_get_def failure_matrix_def MAX_USER_MESSAGE_LEN_def)
qed

lemma public_replies:
  "form_ok ''/'' root_response (r_body root_response)"
  "form_ok ''/health'' health_response (r_body health_response)"
  "form_ok ''/api'' (openapi st) (r_body (openapi st))"
  by (simp_all add: form_ok_def success_form_def bare_form_def openapi_def root_response_def health_response_def
      json_response_def status_response_def content_type_def header_get_def)

lemma method_reply:
  "path \<noteq> ''/v1/files/copy'' \<Longrightarrow> reply_ok path meth (method_not_allowed ''GET,HEAD'')"
  "reply_ok ''/v1/files/copy'' meth (method_not_allowed ''POST'')"
  by (auto intro!: reply_okI simp: form_ok_def bare_form_def method_not_allowed_def header_get_def)

text \<open>A service whose every response has the form its path and method allow.\<close>

definition replies :: "string \<Rightarrow> 'b service \<Rightarrow> bool" where
  "replies path h \<longleftrightarrow> (\<forall>req w r w'. h req w = Some (r, w') \<longrightarrow> reply_ok path (rq_method req) r)"

lemma replies_route_get:
  assumes "\<And>req w r w'. h req w = Some (r, w') \<Longrightarrow> form_ok path r (r_body r)" "path \<noteq> ''/v1/files/copy''"
  shows "replies path (route_get h)"
proof -
  have "reply_ok path ''HEAD'' (r\<lparr>r_body := EmptyBody\<rparr>)" if "h req w = Some (r, w')" for req w r w'
    using assms(1) [OF that] by (auto simp: reply_ok_def form_ok_def content_type_def)
  with reply_okI [OF assms(1)] method_reply(1) [OF assms(2)] show ?thesis
    by (auto simp: replies_def route_get_def)
qed

lemma replies_route_post:
  assumes "\<And>req w r w'. h req w = Some (r, w') \<Longrightarrow> form_ok ''/v1/files/copy'' r (r_body r)"
  shows "replies ''/v1/files/copy'' (route_post h)"
  using reply_okI [OF assms] method_reply(2) by (auto simp: replies_def route_post_def)

lemma replies_require_bearer: "replies path h \<Longrightarrow> replies path (require_bearer X st h)"
  using unauthorized_reply by (auto simp: replies_def require_bearer_def Let_def split: option.splits if_splits)

lemma replies_table:
  assumes "wired X (st_backends st)" "(p, h) \<in> set (route_table X st)"
  shows "replies p h"
proof -
  have "replies ''/v1/files/copy'' (require_bearer X st (route_post (copy_file_service X st)))"
    by (intro replies_require_bearer replies_route_post) (rule copy_file_reply [OF assms(1)])
  moreover have "replies ''/v1/files'' (require_bearer X st (route_get (list_files_service X st)))"
    by (intro replies_require_bearer replies_route_get list_files_reply [OF assms(1)]) simp_all
  moreover have "replies ''/'' (route_get (\<lambda>req w. Some (root_response, w)))"
    "replies ''/health'' (route_get (\<lambda>req w. Some (health_response, w)))"
    "replies ''/api'' (route_get (\<lambda>req w. Some (openapi st, w)))"
    using public_replies by (intro replies_route_get; auto)+
  ultimately show ?thesis using assms(2) by (auto simp: route_table_def)
qed

lemma replies_routes:
  assumes "wired X (st_backends st)" "routes X st req w = Some (r, w')"
  shows "reply_ok (rq_path req) (rq_method req) r"
proof (cases "map_of (route_table X st) (rq_path req)")
  case None
  then have path: "rq_path req \<notin> {''/'', ''/health'', ''/v1/files'', ''/v1/files/copy''}"
    by (auto simp: route_table_def)
  then have "replies (rq_path req) (\<lambda>req (w :: 'a world). Some (status_response 404, w))"
    by (auto simp: replies_def form_ok_def bare_form_def status_response_def intro!: reply_okI)
  then have "replies (rq_path req) (fallback X st)"
    by (simp add: fallback_def Let_def replies_require_bearer)
  with assms(2) None show ?thesis by (auto simp: routes_def replies_def)
next
  case (Some h)
  with assms(2) have "h req w = Some (r, w')" by (simp add: routes_def)
  with replies_table [OF assms(1) map_of_SomeD [OF Some]] show ?thesis
    unfolding replies_def by blast
qed

section \<open>The layers leave the form alone\<close>

lemma header_get_insert_if_valid:
  "n \<noteq> name \<Longrightarrow> header_get n (r_headers (insert_if_valid X name v r)) = header_get n (r_headers r)"
  by (simp add: insert_if_valid_def split: option.split)

lemma secured_traced_headers:
  "header_get ''content-type'' (r_headers (secured (traced X T S r))) = header_get ''content-type'' (r_headers r)"
  "header_get ''allow'' (r_headers (secured (traced X T S r))) = header_get ''allow'' (r_headers r)"
  by (simp_all add: secured_def security_headers_def traced_def header_get_insert_if_valid)

lemma reply_ok_secured_traced: "reply_ok path meth (secured (traced X T S r)) \<longleftrightarrow> reply_ok path meth r"
  by (simp add: reply_ok_def form_ok_def content_type_def secured_traced_headers)

section \<open>Property\<close>



text \<open>
  The failure modes of the book promise an envelope with \<open>error\<close> and \<open>message\<close> on every response that is not 2xx; an unknown
  path, another method and the request's deadline are answered without a body, and the disabled
  documentation without a message.
\<close>

lemma bare_failures:
  "inter_service_token (ac_security (st_config st)) = None \<Longrightarrow>
     routes X st (demo_request ''GET'' ''/nope'' []) w = Some (status_response 404, w)"
  "routes X st (demo_request ''POST'' ''/'' []) w = Some (method_not_allowed ''GET,HEAD'', w)"
  "x_deadline X secs req w = Some w' \<Longrightarrow> timeout_layer X secs h req w = Some (status_response 408, w')"
  "admin_enabled (ac_security (st_config st)) \<Longrightarrow> \<not> ac_documentation_enabled (st_config st) \<Longrightarrow>
     r_body (openapi st) = JsonBody (JObj [(''error'', JStr ''documentation_disabled'')])"
  by (simp_all add: routes_def route_table_def route_get_def demo_request_def timeout_layer_def openapi_def
      json_response_def fallback_def Let_def)

text \<open>
  With a token configured and the gated router's fallback kept, an unknown path is answered 401 as a guarded one
  is; the change log has 404 for unknown paths.
\<close>

lemma unknown_path_is_gated:
  assumes "x_fallback_gated X" "inter_service_token (ac_security (st_config st)) = Some t"
  shows "routes X st (demo_request ''GET'' ''/nope'' []) w = Some (unauthorized ''missing bearer token'', w)"
  using assms demo_no_auth [of X "''GET''" "''/nope''"]
  by (simp add: routes_def route_table_def fallback_def require_bearer_def Let_def) (simp add: demo_request_def)

end
