(* ===== verification/BootWarnings.thy ===== *)
theory BootWarnings
  imports Config
begin

text \<open>
  \<open>src/boot_warnings.rs\<close>, \<open>src/diagnose.rs\<close> and \<open>src/doctor.rs\<close>: the six numbered checks
  of the configuration against the bind address, the (empty) table of unwired fields,
  and the report of \<open>fileferry doctor\<close>. An address is shown as \<open>std::net\<close> shows it.
\<close>

section \<open>Socket addresses\<close>

datatype ip_addr = V4 u8 u8 u8 u8 | V6 "u16 list"

record socket_addr =
  sa_ip :: ip_addr
  sa_port :: u16

definition is_loopback :: "ip_addr \<Rightarrow> bool" where
  "is_loopback ip =
     (case ip of V4 a b c d \<Rightarrow> a = 127 | V6 segs \<Rightarrow> segs = [0, 0, 0, 0, 0, 0, 0, 1])"

definition hex_short :: "u16 \<Rightarrow> string" where
  "hex_short v = (case dropWhile (\<lambda>c. c = CHR ''0'') (hex_fixed 4 (unat v)) of
                    [] \<Rightarrow> ''0'' | h \<Rightarrow> h)"

text \<open>The first longest run of zero segments, as a start and a length.\<close>

fun zero_span :: "u16 list \<Rightarrow> nat \<Rightarrow> nat \<times> nat \<Rightarrow> nat \<times> nat \<Rightarrow> nat \<times> nat" where
  "zero_span [] i cur longest = longest"
| "zero_span (seg # segs) i cur longest =
     (if seg = 0 then
        (let cur' = (if snd cur = 0 then i else fst cur, Suc (snd cur))
         in zero_span segs (Suc i) cur' (if snd cur' > snd longest then cur' else longest))
      else zero_span segs (Suc i) (0, 0) longest)"

definition show_v4 :: "u8 \<Rightarrow> u8 \<Rightarrow> u8 \<Rightarrow> u8 \<Rightarrow> string" where
  "show_v4 a b c d =
     dec (unat a) @ ''.'' @ dec (unat b) @ ''.'' @ dec (unat c) @ ''.'' @ dec (unat d)"

definition show_v6 :: "u16 list \<Rightarrow> string" where
  "show_v6 segs =
     (if length segs = 8 \<and> take 6 segs = [0, 0, 0, 0, 0, 0xffff] then
        ''::ffff:'' @ show_v4 (ucast (drop_bit 8 (segs ! 6))) (ucast (segs ! 6))
                         (ucast (drop_bit 8 (segs ! 7))) (ucast (segs ! 7))
      else (let (start, len) = zero_span segs 0 (0, 0) (0, 0)
            in if len > 1
               then join_with CHR '':'' (map hex_short (take start segs)) @ ''::'' @
                    join_with CHR '':'' (map hex_short (drop (start + len) segs))
               else join_with CHR '':'' (map hex_short segs)))"

definition show_addr :: "socket_addr \<Rightarrow> string" where
  "show_addr a =
     (case sa_ip a of
        V4 x y z u \<Rightarrow> show_v4 x y z u
      | V6 segs \<Rightarrow> ''['' @ show_v6 segs @ '']'') @ '':'' @ dec (unat (sa_port a))"

section \<open>The checks\<close>

record BootWarning =
  bw_id :: string
  bw_message :: string

definition COPY_INACTIVITY_WARN_CEILING_SECS :: u64 where
  "COPY_INACTIVITY_WARN_CEILING_SECS = 300"

definition MAX_REQUEST_BYTES_WARN_CEILING :: u64 where
  "MAX_REQUEST_BYTES_WARN_CEILING = 100 * 1024 * 1024"

definition em_dash :: string where
  "em_dash = [CHR 0xE2, CHR 0x80, CHR 0x94]"

definition check_unauth_non_loopback :: "AppConfig \<Rightarrow> socket_addr \<Rightarrow> BootWarning option" where
  "check_unauth_non_loopback cfg addr =
     (let loopback = is_loopback (sa_ip addr);
          has_token = inter_service_token (ac_security cfg) \<noteq> None
      in if loopback \<or> has_token \<or> trust_network (ac_security cfg) then None
         else Some \<lparr>bw_id = ''W-1'',
           bw_message =
             ''[W-1] security.inter_service_token_env is unset AND bind '' @ show_addr addr @
             '' is non-loopback AND security.trust_network=false. '' @
             ''`/v1/files*` are open to any network caller. '' @
             ''Every unauth `POST /v1/files/copy` triggers backend I/O and S3-billed API calls; '' @
             ''every unauth `GET /v1/files` enumerates the FS root or the S3 bucket. Set '' @
             ''security.inter_service_token_env, OR set security.trust_network=true if a '' @
             ''reverse proxy already authenticates every request (see SECURITY.md).''\<rparr>)"

definition check_trust_network_without_token :: "AppConfig \<Rightarrow> BootWarning option" where
  "check_trust_network_without_token cfg =
     (if trust_network (ac_security cfg) \<and> inter_service_token (ac_security cfg) = None then
        Some \<lparr>bw_id = ''W-2'',
          bw_message =
            ''[W-2] security.trust_network=true AND '' @
            ''security.inter_service_token_env is unset '' @ em_dash @
            '' every request that reaches '' @
            ''`/v1/files*` is trusted. This is correct ONLY if a reverse proxy / '' @
            ''service mesh is genuinely in front of FileFerry AND authenticates '' @
            ''every request. If the proxy is misconfigured or absent, FileFerry is '' @
            ''fully open. Consider defense-in-depth: set inter_service_token_env '' @
            ''even behind a proxy.''\<rparr>
      else None)"

definition check_admin_enabled_on_non_loopback :: "AppConfig \<Rightarrow> socket_addr \<Rightarrow>
    BootWarning option" where
  "check_admin_enabled_on_non_loopback cfg addr =
     (if admin_enabled (ac_security cfg) \<and> \<not> is_loopback (sa_ip addr) then
        Some \<lparr>bw_id = ''W-3'',
          bw_message =
            ''[W-3] FILEFERRY_ADMIN_ENABLED is set AND bind '' @ show_addr addr @
            '' is non-loopback. '' @
            ''`GET /api` serves the OpenAPI summary (route table + version + DTO shapes) '' @
            ''to any caller that hits the endpoint. Disable via unsetting the env var '' @
            ''unless the endpoint is genuinely needed by external tooling.''\<rparr>
      else None)"

definition check_documentation_enabled_on_non_loopback :: "AppConfig \<Rightarrow> socket_addr \<Rightarrow>
    BootWarning option" where
  "check_documentation_enabled_on_non_loopback cfg addr =
     (if ac_documentation_enabled cfg \<and> \<not> admin_enabled (ac_security cfg) \<and>
         \<not> is_loopback (sa_ip addr) then
        Some \<lparr>bw_id = ''W-4'',
          bw_message =
            ''[W-4] documentation_enabled=true in YAML AND bind '' @ show_addr addr @
            '' is non-loopback. '' @ ''`/api` is currently 404'' @ [CHR 0x27] @
            ''d by the FILEFERRY_ADMIN_ENABLED gate, but a '' @
            ''future operator setting the env var (e.g. for a `doctor` diagnostic) '' @
            ''immediately surfaces the OpenAPI summary. For defence-in-depth on public '' @
            ''edges, set documentation_enabled: false in the YAML too.''\<rparr>
      else None)"

definition check_copy_inactivity_too_generous :: "AppConfig \<Rightarrow> BootWarning option" where
  "check_copy_inactivity_too_generous cfg =
     (if copy_inactivity_secs (ac_limits cfg) > COPY_INACTIVITY_WARN_CEILING_SECS then
        Some \<lparr>bw_id = ''W-5'',
          bw_message =
            ''[W-5] limits.copy_inactivity_secs = '' @
            dec (unat (copy_inactivity_secs (ac_limits cfg))) @ ''s exceeds the recommended '' @
            dec (unat COPY_INACTIVITY_WARN_CEILING_SECS) @ ''s ceiling. '' @
            ''Slow-drip peers can now hold copy streams open for arbitrarily long '' @
            ''(F3 defence weakened). Confirm the deployment genuinely has a slow-but- '' @
            ''legitimate source that needs >'' @ dec (unat COPY_INACTIVITY_WARN_CEILING_SECS) @
            ''s between successful reads.''\<rparr>
      else None)"

definition check_max_request_bytes_unusually_large :: "AppConfig \<Rightarrow> BootWarning option" where
  "check_max_request_bytes_unusually_large cfg =
     (if max_request_bytes (ac_limits cfg) > MAX_REQUEST_BYTES_WARN_CEILING then
        Some \<lparr>bw_id = ''W-6'',
          bw_message =
            ''[W-6] limits.max_request_bytes = '' @
            dec (unat (max_request_bytes (ac_limits cfg))) @
            '' bytes exceeds the recommended '' @ dec (unat MAX_REQUEST_BYTES_WARN_CEILING) @
            '' (100 MiB) ceiling. FileFerry does NOT read file payloads out of the request '' @
            ''body '' @ em_dash @ '' copies happen backend-to-backend '' @ em_dash @
            '' so the request body only carries '' @
            ''JSON metadata. If you meant to raise a per-file cap, set '' @
            ''limits.max_response_bytes instead.''\<rparr>
      else None)"

definition preflight :: "AppConfig \<Rightarrow> socket_addr \<Rightarrow> BootWarning list" where
  "preflight cfg addr =
     List.map_filter id
       [check_unauth_non_loopback cfg addr,
        check_trust_network_without_token cfg,
        check_admin_enabled_on_non_loopback cfg addr,
        check_documentation_enabled_on_non_loopback cfg addr,
        check_copy_inactivity_too_generous cfg,
        check_max_request_bytes_unusually_large cfg]"

definition log_preflight :: "AppConfig \<Rightarrow> socket_addr \<Rightarrow> log_event list" where
  "log_preflight cfg addr =
     map (\<lambda>bw. \<lparr>ev_level = WARN, ev_message = bw_message bw, ev_fields = [(''id'', bw_id bw)]\<rparr>)
       (preflight cfg addr)"

section \<open>Unwired fields\<close>

record UnwiredField =
  uf_name :: string
  uf_intended :: string
  uf_planned_release :: string

definition UNWIRED :: "UnwiredField list" where
  "UNWIRED = []"

text \<open>\<open>is_nondefault\<close> has no case and panics for every field: \<open>None\<close>.\<close>

definition is_nondefault :: "AppConfig \<Rightarrow> string \<Rightarrow> bool option" where
  "is_nondefault cfg field = None"

fun diagnose_fields :: "AppConfig \<Rightarrow> UnwiredField list \<Rightarrow> log_event list option" where
  "diagnose_fields cfg [] = Some []"
| "diagnose_fields cfg (f # fs) =
     (case is_nondefault cfg (uf_name f) of
        None \<Rightarrow> None
      | Some nd \<Rightarrow>
          map_option (append (if nd then
              [\<lparr>ev_level = WARN,
                ev_message = ''config field is accepted but has no effect in this build'',
                ev_fields = [(''field'', uf_name f), (''intended'', uf_intended f),
                             (''planned_release'', uf_planned_release f)]\<rparr>] else []))
            (diagnose_fields cfg fs))"

definition diagnose :: "AppConfig \<Rightarrow> log_event list option" where
  "diagnose cfg = diagnose_fields cfg UNWIRED"

section \<open>The doctor's report\<close>

definition show_bool :: "bool \<Rightarrow> string" where
  "show_bool b = (if b then ''true'' else ''false'')"

definition CARGO_PKG_VERSION :: string where
  "CARGO_PKG_VERSION = ''0.2.2-alpha''"

definition write_report :: "AppConfig \<Rightarrow> socket_addr \<Rightarrow> string list \<times> nat" where
  "write_report cfg addr =
     (let warnings = preflight cfg addr;
          summary =
            [''fileferry doctor '' @ CARGO_PKG_VERSION,
             ''=================================================='',
             [],
             ''Config summary:'',
             ''  port                        '' @ dec (unat (ac_port cfg)),
             ''  bind (expected)             '' @ show_addr addr,
             ''  fs.data_directory           '' @ from_utf8_lossy (fc_data_directory (ac_fs cfg)),
             ''  s3 backend                  '' @
               (if ac_s3 cfg \<noteq> None then ''configured'' else ''disabled''),
             ''  documentation_enabled       '' @ show_bool (ac_documentation_enabled cfg),
             ''  security.inter_service_tok  '' @
               (if inter_service_token (ac_security cfg) \<noteq> None then ''SET (masked)''
                else ''unset''),
             ''  security.trust_network      '' @ show_bool (trust_network (ac_security cfg)),
             ''  security.admin_enabled      '' @ show_bool (admin_enabled (ac_security cfg)) @
               '' (FILEFERRY_ADMIN_ENABLED)'',
             ''  limits.copy_inactivity_secs '' @
               dec (unat (copy_inactivity_secs (ac_limits cfg))),
             ''  limits.max_request_bytes    '' @ dec (unat (max_request_bytes (ac_limits cfg))),
             []];
          checks =
            (if warnings = [] then
               [''Preflight checks: OK  (0 warnings '' @ em_dash @ '' green)'']
             else
               [''Preflight checks: '' @ dec (length warnings) @ '' warning(s) surfaced '' @
                  em_dash @ '' amber'', []] @
               map (\<lambda>bw. ''  '' @ bw_message bw) warnings)
      in (summary @ checks @
          [[], ''Exit code: '' @ (if warnings = [] then ''0'' else ''1'') @ '' ('' @
               dec (length warnings) @ '' warning(s))''],
          length warnings))"

text \<open>
  \<open>run\<close>: the exit code, with the lines for standard output and for standard error. The
  loaded configuration is \<open>config::load\<close>'s result; \<open>stdout\<close> is the error writing the
  report fails with, if any.
\<close>

definition doctor_addr :: "AppConfig \<Rightarrow> socket_addr" where
  "doctor_addr cfg = \<lparr>sa_ip = V4 0 0 0 0, sa_port = ac_port cfg\<rparr>"

definition doctor_run :: "string + AppConfig \<Rightarrow> (string list \<Rightarrow> io_error option) \<Rightarrow>
    nat \<times> string list \<times> string list" where
  "doctor_run loaded stdout =
     (case loaded of
        Inl e \<Rightarrow> (2, [], [''doctor: config load failed: '' @ e])
      | Inr cfg \<Rightarrow>
          (let (report, n) = write_report cfg (doctor_addr cfg)
           in case stdout report of
                None \<Rightarrow> (if n = 0 then 0 else 1, report, [])
              | Some e \<Rightarrow> (2, report, [''doctor: write failed: '' @ io_display e])))"

end
