(* ===== verification/Startup.thy ===== *)
theory Startup
  imports Router BootWarnings
begin

text \<open>
  \<open>src/main.rs\<close> and \<open>src/shutdown.rs\<close>: the command line, the wiring of the backends and of
  the router, the events of startup and shutdown. Binding the listener is a parameter;
  what the running server does with a request is \<open>Router.build_router\<close>.
\<close>

section \<open>The command line\<close>

fun find_config_arg :: "string list \<Rightarrow> string option" where
  "find_config_arg [] = None"
| "find_config_arg (a # args) =
     (if a = ''--config'' then (case args of [] \<Rightarrow> None | p # rest \<Rightarrow> Some p)
      else (case strip_prefix ''--config='' a of
              Some rest \<Rightarrow> Some rest
            | None \<Rightarrow> find_config_arg args))"

definition parse_config_arg :: "string list \<Rightarrow> string option" where
  "parse_config_arg argv = find_config_arg (drop 1 argv)"

definition wants_doctor :: "string list \<Rightarrow> bool" where
  "wants_doctor argv \<longleftrightarrow> list_ex (\<lambda>a. a = ''doctor'') argv"

section \<open>Shutdown\<close>

text \<open>
  The signals the server waits for; \<open>CTRL_C\<close> is the one of the build for other systems than
  Unix.
\<close>

datatype signal = SIGTERM | SIGINT | CTRL_C

definition shutdown_event :: "signal \<Rightarrow> log_event" where
  "shutdown_event sig =
     \<lparr>ev_level = INFO, ev_message = ''graceful shutdown initiated'',
      ev_fields = [(''signal'', case sig of SIGTERM \<Rightarrow> ''SIGTERM'' | SIGINT \<Rightarrow> ''SIGINT''
                                   | CTRL_C \<Rightarrow> ''CTRL_C'')]\<rparr>"

section \<open>Startup\<close>

text \<open>
  The filter of the log and whether it is coloured. \<open>valid_filter\<close> is the grammar of
  \<open>EnvFilter\<close>; events are recorded here before any filter.
\<close>

definition init_tracing :: "(string \<Rightarrow> bool) \<Rightarrow> environment \<Rightarrow> bool \<Rightarrow> string \<times> bool" where
  "init_tracing valid_filter env stderr_is_terminal =
     ((case env ''RUST_LOG'' of
         Some f \<Rightarrow> if valid_filter f then f else ''info,fileferry=info''
       | None \<Rightarrow> ''info,fileferry=info''),
      stderr_is_terminal)"

definition info_event :: "string \<Rightarrow> (string \<times> string) list \<Rightarrow> log_event" where
  "info_event msg flds = \<lparr>ev_level = INFO, ev_message = msg, ev_fields = flds\<rparr>"

definition select_s3 :: "'b externs \<Rightarrow> environment \<Rightarrow> AppConfig \<Rightarrow>
    (string + 'b backend option) \<times> log_event list" where
  "select_s3 X env cfg =
     (let offline = offline_from_env env in
      case ac_s3 cfg of
        Some s3_cfg \<Rightarrow>
          if offline then
            (Inr (Some (offline_backend S3)),
             [warn_event (''FILEFERRY_OFFLINE is set '' @ em_dash @
                '' S3 backend is stubbed; every outbound call '' @
                ''returns Upstream('' @ [CHR 0x22] @ ''offline mode'' @ [CHR 0x22] @
                '') without contacting AWS/MinIO'') []])
          else (case s3_backend_new s3_cfg of
                  Inl e \<Rightarrow> (Inl (display e), [])
                | Inr sb \<Rightarrow> (Inr (Some (s3_backend X sb)), []))
      | None \<Rightarrow>
          (Inr None,
           if offline then
             [info_event (''FILEFERRY_OFFLINE is set but no s3: block configured '' @ em_dash @
                '' nothing to stub'') []] else []))"

definition starting_event :: "AppConfig \<Rightarrow> log_event" where
  "starting_event cfg =
     info_event ''starting FileFerry''
       [(''version'', CARGO_PKG_VERSION), (''port'', dec (unat (ac_port cfg))),
        (''fs_root'', from_utf8_lossy (fc_data_directory (ac_fs cfg))),
        (''s3_enabled'', show_bool (ac_s3 cfg \<noteq> None))]"

text \<open>
  Everything \<open>tokio_main\<close> does before it serves: the application's state, or the error that
  ends the process. A panic of \<open>diagnose\<close> is the error it prints.
\<close>

definition boot :: "'b externs \<Rightarrow> environment \<Rightarrow> (string \<Rightarrow> string + AppConfigYaml) \<Rightarrow>
    (socket_addr \<Rightarrow> io_error option) \<Rightarrow> string list \<Rightarrow> 'b world \<Rightarrow>
    (string + 'b app_state) \<times> 'b world" where
  "boot X env parse_yaml bind argv w =
     (let (loaded, evs1) = load_config env parse_yaml (w_fs w) (parse_config_arg argv);
          w1 = emit evs1 w
      in case loaded of
           Inl e \<Rightarrow> (Inl e, w1)
         | Inr cfg \<Rightarrow>
     (case diagnose cfg of
        None \<Rightarrow> (Inl ''panic'', emit [starting_event cfg] w1)
      | Some evs2 \<Rightarrow>
          (let w2 = emit (starting_event cfg # evs2) w1;
               (made, s') = fs_backend_new (fc_data_directory (ac_fs cfg)) (w_fs w2);
               w3 = w2\<lparr>w_fs := s'\<rparr>
           in case made of
                Inl e \<Rightarrow> (Inl (''initialising FS backend: '' @ io_display e), w3)
              | Inr root \<Rightarrow>
          (let (chosen, evs3) = select_s3 X env cfg;
               w4 = emit evs3 w3
           in case chosen of
                Inl e \<Rightarrow> (Inl e, w4)
              | Inr s3 \<Rightarrow>
          (let st = \<lparr>st_backends = \<lparr>bs_fs = fs_backend X root, bs_s3 = s3\<rparr>, st_config = cfg\<rparr>;
               addr = doctor_addr cfg;
               w5 = emit (log_preflight cfg addr) w4
           in case bind addr of
                Some e \<Rightarrow> (Inl (io_display e), w5)
              | None \<Rightarrow>
                  (Inr st, emit [info_event (''listening on http://'' @ show_addr addr) []] w5))))))"

text \<open>
  The server answers requests one after another until the signal; a request that does not
  return keeps it from stopping.
\<close>

fun serve :: "'b externs \<Rightarrow> 'b app_state \<Rightarrow> request list \<Rightarrow> signal \<Rightarrow> 'b world \<Rightarrow>
    (response list \<times> 'b world) option" where
  "serve X st [] sig w =
     Some ([], emit [shutdown_event sig, info_event ''shutdown complete'' []] w)"
| "serve X st (req # reqs) sig w =
     (case build_router X st req w of
        None \<Rightarrow> None
      | Some (response, w') \<Rightarrow> map_option (apfst (Cons response)) (serve X st reqs sig w'))"

text \<open>
  \<open>main\<close>: the exit code and the lines on standard error, \<open>None\<close> for a server that never
  stops.
\<close>

definition main :: "'b externs \<Rightarrow> environment \<Rightarrow> (string \<Rightarrow> string + AppConfigYaml) \<Rightarrow>
    (socket_addr \<Rightarrow> io_error option) \<Rightarrow> (string list \<Rightarrow> io_error option) \<Rightarrow> string list \<Rightarrow>
    request list \<Rightarrow> signal \<Rightarrow> 'b world \<Rightarrow> (nat \<times> string list) option" where
  "main X env parse_yaml bind stdout argv reqs sig w =
     (if wants_doctor argv then
        (let (rc, out, err) = doctor_run
               (fst (load_config env parse_yaml (w_fs w) (parse_config_arg argv))) stdout
         in Some (rc, err))
      else (case boot X env parse_yaml bind argv w of
              (Inl e, w') \<Rightarrow> Some (1, [''fatal: '' @ e])
            | (Inr st, w') \<Rightarrow>
                map_option (\<lambda>_. (0, [])) (serve X st reqs sig w')))"

end
