(* ===== verification/Download.thy ===== *)
theory Download
  imports Copy
begin

text \<open>
  Downloads that succeed: resolution and \<open>create_dir_all\<close> below a root without links when no call is
  refused, writing a new file, and the copy handler from the bucket to the file system.
\<close>

section \<open>Ways that exist and ways that do not\<close>

text \<open>Every directory from \<open>R\<close> down the names is there; or could be made.\<close>

definition dirs_down :: "fsys \<Rightarrow> string list \<Rightarrow> string list \<Rightarrow> bool" where
  "dirs_down s R ns \<longleftrightarrow> (\<forall>i \<le> length ns. lookup s (R @ take i ns) = Some Dir)"

definition dirs_free :: "fsys \<Rightarrow> string list \<Rightarrow> string list \<Rightarrow> bool" where
  "dirs_free s R ns \<longleftrightarrow> (\<forall>i \<le> length ns. lookup s (R @ take i ns) \<in> {None, Some Dir})"

lemma dirs_down_snoc [simp]:
  "dirs_down s R (ns @ [c]) \<longleftrightarrow> dirs_down s R ns \<and> lookup s (R @ ns @ [c]) = Some Dir"
  by (auto simp: dirs_down_def le_Suc_eq)

lemma dirs_free_snoc [simp]:
  "dirs_free s R (ns @ [c]) \<longleftrightarrow> dirs_free s R ns \<and> lookup s (R @ ns @ [c]) \<in> {None, Some Dir}"
  by (auto simp: dirs_free_def le_Suc_eq)

lemma dirs_down_Cons [simp]:
  "dirs_down s R (c # ns) \<longleftrightarrow> lookup s R = Some Dir \<and> dirs_down s (R @ [c]) ns"
proof
  assume a: "dirs_down s R (c # ns)"
  have "lookup s ((R @ [c]) @ take i ns) = Some Dir" if "i \<le> length ns" for i
    using a that unfolding dirs_down_def by (auto dest!: spec [of _ "Suc i"])
  with a show "lookup s R = Some Dir \<and> dirs_down s (R @ [c]) ns"
    unfolding dirs_down_def by (auto dest: spec [of _ 0])
next
  assume a: "lookup s R = Some Dir \<and> dirs_down s (R @ [c]) ns"
  show "dirs_down s R (c # ns)"
    unfolding dirs_down_def
  proof (intro allI impI)
    fix i assume "i \<le> length (c # ns)"
    with a show "lookup s (R @ take i (c # ns)) = Some Dir"
      by (cases i) (auto simp: dirs_down_def)
  qed
qed

lemma dirs_down_Nil [simp]: "dirs_down s R [] \<longleftrightarrow> lookup s R = Some Dir"
  by (simp add: dirs_down_def)

lemma walk_down:
  assumes "dirs_down s R ns" "plain_below s R" "dot_free (ns @ [c])"
  shows "walk s fl k R (ns @ [c]) = Inr (R @ ns @ [c])"
  using assms
  by (intro walk_plain_forward [where R = R]) (auto simp: dirs_down_def less_Suc_eq_le)

text \<open>A missing directory on the way is reported as such.\<close>

lemma walk_missing:
  assumes "dot_free (ns @ [c])" "lookup s d = Some Dir" "dirs_free s d ns" "\<not> dirs_down s d ns"
  shows "walk s fl k d (ns @ [c]) = Inl ENOENT"
  using assms
proof (induction ns arbitrary: d)
  case (Cons a ns)
  have free: "lookup s (d @ [a]) \<in> {None, Some Dir}"
    using Cons.prems(3) unfolding dirs_free_def by (auto dest!: spec [of _ 1])
  show ?case
  proof (cases "lookup s (d @ [a])")
    case None
    with Cons.prems(1,2) show ?thesis by (subst append_Cons, subst walk.simps) simp
  next
    case (Some n)
    with free have n: "lookup s (d @ [a]) = Some Dir" by simp
    have "dirs_free s (d @ [a]) ns"
      unfolding dirs_free_def
    proof (intro allI impI)
      fix i assume "i \<le> length ns"
      with Cons.prems(3) show "lookup s ((d @ [a]) @ take i ns) \<in> {None, Some Dir}"
        unfolding dirs_free_def by (auto dest!: spec [of _ "Suc i"])
    qed
    with Cons n have "walk s fl k (d @ [a]) (ns @ [c]) = Inl ENOENT" by auto
    with Cons.prems(1,2) n show ?thesis by (simp add: walk_plain_step [where n = Dir])
  qed
qed simp

section \<open>Making the parents\<close>

lemma component_names_no_nul:
  assumes "CHR 0x00 \<notin> set root" "seg \<in> set (component_names (components root))"
  shows "CHR 0x00 \<notin> set seg"
proof (cases "seg = ''.''")
  case False
  with assms(2) have "seg \<in> set (nodots (component_names (components root)))" by simp
  then have "seg \<in> set (segments root)" by (auto simp: component_names_components)
  with assms(1) set_segments [of seg root] show ?thesis by auto
qed simp

lemma sys_walk_components:
  assumes "root_at s root R" "unfaulted s root" "ns \<noteq> []" "\<forall>seg \<in> set ns. CHR 0x00 \<notin> set seg"
  obtains k where "sys_walk s call fl (kpath_of_components (components root @ map Normal ns)) =
    (case walk s fl k R ns of Inl e \<Rightarrow> Inl (Os e) | Inr l \<Rightarrow> Inr l)"
proof -
  have Rdir: "lookup s R = Some Dir" using assms(1) by (simp add: root_at_def)
  obtain k where k: "walk s fl MAXSYMLINKS (if is_absolute root then [] else cwd s)
      (component_names (components root) @ ns) = walk s fl k R ns"
    using walk_append [OF walk_root_components [OF assms(1)] Rdir assms(3), of fl] by blast
  have "RootDir \<in> set (components root @ map Normal ns) \<longleftrightarrow> is_absolute root"
    using RootDir_components [of root] by auto
  with assms(2-4) k component_names_no_nul [of root]
  have "sys_walk s call fl (kpath_of_components (components root @ map Normal ns)) =
    (case walk s fl k R ns of Inl e \<Rightarrow> Inl (Os e) | Inr l \<Rightarrow> Inr l)"
    by (auto simp: sys_walk_def kpath_of_components_def unfaulted_def)
  then show ?thesis ..
qed

text \<open>Directories have been added, nothing else.\<close>

definition more_dirs :: "fsys \<Rightarrow> fsys \<Rightarrow> bool" where
  "more_dirs s s' \<longleftrightarrow> fs_le s s' \<and> (\<forall>l. lookup s' l \<noteq> lookup s l \<longrightarrow> lookup s' l = Some Dir)"

lemma more_dirs_refl [simp]: "more_dirs s s"
  by (simp add: more_dirs_def)

lemma more_dirs_set_node: "more_dirs s s' \<Longrightarrow> lookup s' l = None \<Longrightarrow> more_dirs s (set_node l Dir s')"
  unfolding more_dirs_def using fs_le_trans fs_le_set_node by (auto simp: lookup_set_node)

lemma more_dirs_keeps:
  assumes "more_dirs s s'"
  shows "root_at s root R \<Longrightarrow> root_at s' root R" "plain_below s R \<Longrightarrow> plain_below s' R"
    "unfaulted s root \<Longrightarrow> unfaulted s' root" "lookup s l \<in> {None, Some Dir} \<Longrightarrow> lookup s' l \<in> {None, Some Dir}"
    "now s' = now s"
proof -
  note d = assms [unfolded more_dirs_def]
  show "root_at s root R \<Longrightarrow> root_at s' root R" using d root_at_mono by blast
  show "plain_below s R \<Longrightarrow> plain_below s' R"
    unfolding plain_below_def by (metis d node.distinct(7) option.inject)
  show "unfaulted s root \<Longrightarrow> unfaulted s' root" "now s' = now s"
    using d by (simp_all add: unfaulted_def fs_le_def)
  show "lookup s l \<in> {None, Some Dir} \<Longrightarrow> lookup s' l \<in> {None, Some Dir}"
    using d by (cases "lookup s' l = lookup s l") auto
qed

text \<open>Making one more directory; its parents are there.\<close>

definition made_or_found :: "fsys \<Rightarrow> component list \<Rightarrow> string list \<Rightarrow> bool" where
  "made_or_found s cs l \<longleftrightarrow>
     mkdir s (kpath_of_components cs) = (Inr (), set_node l Dir s) \<and> lookup s l = None \<or>
     mkdir s (kpath_of_components cs) = (Inl (Os EEXIST), s) \<and> is_dir s (kpath_of_components cs) \<and>
       lookup s l = Some Dir"

lemma no_trailing [simp]: "kpath_of_components cs\<lparr>kp_trailing := False\<rparr> = kpath_of_components cs"
  by (simp add: kpath_of_components_def)

lemma mkdir_below:
  assumes "root_at s root R" "plain_below s R" "unfaulted s root"
    and "dot_free (ns @ [c])" "\<forall>seg \<in> set (ns @ [c]). CHR 0x00 \<notin> set seg"
    and "dirs_down s R ns" "lookup s (R @ ns @ [c]) \<in> {None, Some Dir}"
  shows "made_or_found s (components root @ map Normal (ns @ [c])) (R @ ns @ [c])"
proof -
  define cs where "cs = components root @ map Normal (ns @ [c])"
  have "sys_walk s call fl (kpath_of_components cs) = Inr (R @ ns @ [c])" for call fl
  proof -
    obtain k where "sys_walk s call fl (kpath_of_components cs) =
        (case walk s fl k R (ns @ [c]) of Inl e \<Rightarrow> Inl (Os e) | Inr l \<Rightarrow> Inr l)"
      using sys_walk_components [OF assms(1,3) _ assms(5)] unfolding cs_def by blast
    then show ?thesis using walk_down [OF assms(6,2,4)] by simp
  qed
  with assms(7) show ?thesis
    unfolding cs_def [symmetric] by (auto simp: made_or_found_def mkdir_def is_dir_def)
qed

lemma mkdir_missing:
  assumes "root_at s root R" "unfaulted s root"
    and "dot_free (ns @ [c])" "\<forall>seg \<in> set (ns @ [c]). CHR 0x00 \<notin> set seg"
    and "dirs_free s R ns" "\<not> dirs_down s R ns"
  shows "mkdir s (kpath_of_components (components root @ map Normal (ns @ [c]))) = (Inl (Os ENOENT), s)"
proof -
  have Rdir: "lookup s R = Some Dir" using assms(1) by (simp add: root_at_def)
  obtain k where "sys_walk s SysMkdir False (kpath_of_components (components root @ map Normal (ns @ [c]))) =
      (case walk s False k R (ns @ [c]) of Inl e \<Rightarrow> Inl (Os e) | Inr l \<Rightarrow> Inr l)"
    using sys_walk_components [OF assms(1,2) _ assms(4)] by blast
  with walk_missing [OF assms(3) Rdir assms(5,6)] show ?thesis
    unfolding mkdir_def no_trailing by simp
qed

text \<open>Without following the last name, a path to a directory leads to what is there.\<close>

lemma walk_nofollow_exists:
  assumes "walk s True k d cs = Inr l" "lookup s d = Some Dir" "lookup s l = Some Dir"
  shows "\<exists>l'. walk s False k d cs = Inr l' \<and> lookup s l' \<noteq> None"
  using assms
proof (induction rule: walk_induct)
  case (dotdot k d cs l)
  have "lookup s (butlast d) = Some Dir"
    using dotdot by (cases cs) (auto dest: walk_Cons_Dir)
  with dotdot show ?case by (simp add: walk_dotdot)
next
  case (plain k d c cs n l)
  have "lookup s (d @ [c]) = Some Dir"
    using plain by (cases cs) (auto dest: walk_Cons_Dir)
  with plain show ?case by (simp add: walk_plain_step [where n = n])
next
  case (link k d c cs t l)
  show ?case
  proof (cases cs)
    case Nil
    with link show ?thesis by (auto simp: walk_link_last)
  next
    case (Cons c' cs')
    with link show ?thesis by (simp add: walk_link)
  qed
qed (auto simp: walk_dot)

lemma create_root_dir:
  assumes "root_at s root R" "unfaulted s root"
  shows "create_dir_all s (components root) = (Inr (), s)"
proof (cases "components root = []")
  case True
  then show ?thesis by (simp add: create_dir_all.simps [of s "[]"])
next
  case False
  let ?d0 = "if is_absolute root then [] else cwd s"
  let ?K = "kpath_of_components (components root)"
  note w = walk_root_components [OF assms(1)]
  have Rdir: "lookup s R = Some Dir" using assms(1) by (simp add: root_at_def)
  have rel: "component_names (components root) \<noteq> []" if "\<not> is_absolute root"
    using False that RootDir_components [of root] by (cases "components root" rule: component_names.cases) auto
  have d0: "lookup s ?d0 = Some Dir"
    using w Rdir by (cases "component_names (components root)") (auto dest: walk_Cons_Dir)
  obtain l where l: "walk s False MAXSYMLINKS ?d0 (component_names (components root)) = Inr l" "lookup s l \<noteq> None"
    using walk_nofollow_exists [OF w d0 Rdir] by blast
  have sw: "sys_walk s call fl ?K = (case walk s fl MAXSYMLINKS ?d0 (component_names (components root)) of
      Inl e \<Rightarrow> Inl (Os e) | Inr l \<Rightarrow> Inr l)" for call fl
    using assms(2) component_names_no_nul [of root] RootDir_components [of root] rel
    by (auto simp: sys_walk_def kpath_of_components_def unfaulted_def)
  have "mkdir s ?K = (Inl (Os EEXIST), s)" using l by (auto simp: mkdir_def sw)
  moreover have "is_dir s ?K" using w Rdir by (simp add: is_dir_def sw)
  ultimately show ?thesis
    using False by (simp add: create_dir_all.simps [of s "components root"] kind_not_found_def)
qed

lemma create_dirs:
  assumes "root_at s root R" "plain_below s R" "unfaulted s root"
    and "dot_free ns" "\<forall>seg \<in> set ns. CHR 0x00 \<notin> set seg" "dirs_free s R ns"
  shows "\<exists>s'. create_dir_all s (components root @ map Normal ns) = (Inr (), s') \<and>
    dirs_down s' R ns \<and> more_dirs s s'"
  using assms(4-)
proof (induction ns rule: rev_induct)
  case Nil
  then show ?case using create_root_dir [OF assms(1,3)] assms(1) by (simp add: root_at_def)
next
  case (snoc c ns)
  define cs where "cs = components root @ map Normal (ns @ [c])"
  let ?l = "R @ ns @ [c]"
  have cs: "cs \<noteq> []" "parent_components cs = Some (components root @ map Normal ns)"
    by (auto simp: cs_def parent_components_def butlast_append append_eq_Cons_conv)
  note unfold = create_dir_all.simps [of s cs]
  have free: "lookup s ?l \<in> {None, Some Dir}" "dirs_free s R ns" using snoc.prems(3) by simp_all
  have down: "dirs_down (set_node ?l Dir t) R (ns @ [c])" if "dirs_down t R ns" for t
  proof -
    have "dirs_down (set_node ?l Dir t) R ns" using that by (auto simp: dirs_down_def lookup_set_node)
    then show ?thesis by (simp add: lookup_set_node)
  qed
  show ?case
    unfolding cs_def [symmetric]
  proof (cases "dirs_down s R ns")
    case True
    then have "made_or_found s cs ?l"
      unfolding cs_def using mkdir_below [OF assms(1-3) snoc.prems(1,2) True free(1)] by simp
    with cs(1) down [OF True] True show "\<exists>s'. create_dir_all s cs = (Inr (), s') \<and> dirs_down s' R (ns @ [c]) \<and> more_dirs s s'"
      unfolding unfold made_or_found_def
      by (auto simp: kind_not_found_def intro!: more_dirs_set_node)
  next
    case False
    obtain t where t: "create_dir_all s (components root @ map Normal ns) = (Inr (), t)" "dirs_down t R ns"
      "more_dirs s t" using snoc free(2) by auto
    have "mkdir s (kpath_of_components cs) = (Inl (Os ENOENT), s)"
      unfolding cs_def by (rule mkdir_missing [OF assms(1,3) snoc.prems(1,2) free(2) False])
    moreover note k = more_dirs_keeps [OF t(3)]
    have "made_or_found t cs ?l"
      unfolding cs_def
      by (rule mkdir_below [OF k(1) [OF assms(1)] k(2) [OF assms(2)] k(3) [OF assms(3)] snoc.prems(1,2) t(2)
            k(4) [OF free(1)]])
    ultimately show "\<exists>s'. create_dir_all s cs = (Inr (), s') \<and> dirs_down s' R (ns @ [c]) \<and> more_dirs s s'"
      using cs t down [OF t(2)] unfolding unfold made_or_found_def
      by (auto simp: kind_not_found_def intro!: more_dirs_set_node [OF t(3)])
  qed
qed

section \<open>Writing succeeds\<close>

text \<open>Where the file goes: the directories are there or free, the place is free or a regular file.\<close>

definition writable :: "fsys \<Rightarrow> string list \<Rightarrow> string list \<Rightarrow> bool" where
  "writable s R segs \<longleftrightarrow> dirs_free s R (butlast segs) \<and>
     (lookup s (R @ segs) = None \<or> (\<exists>d t. lookup s (R @ segs) = Some (File d t)))"

lemma make_parents_succeeds:
  assumes "served s root R p" "unfaulted s root" "dirs_free s R (butlast (segments p))"
  shows "\<exists>s'. make_parents (path_join root p) s = (Inr (), s') \<and> dirs_down s' R (butlast (segments p)) \<and>
    more_dirs s s'"
proof -
  note sv = servedD [OF assms(1)]
  have v: "validate_path p = Inr ()" using assms(1) by (simp add: served_def)
  have "root \<noteq> []" using sv(1) by (simp add: root_at_def)
  then have comps: "components (path_join root p) = components root @ map Normal (segments p)"
    using sv(3,5) by (simp add: components_join_prefix body_components_dot_free)
  have parent: "parent_components (components (path_join root p)) =
      Some (components root @ map Normal (butlast (segments p)))"
    unfolding comps parent_components_def using sv(4)
    by (auto simp: butlast_append map_butlast append_eq_Cons_conv)
  have "dot_free (butlast (segments p))" "\<forall>seg \<in> set (butlast (segments p)). CHR 0x00 \<notin> set seg"
    using sv(5) set_segments [of _ p] validated_no_nul [OF v]
    by (auto simp: dot_free_def dest!: in_set_butlastD)
  from create_dirs [OF sv(1,2) assms(2) this assms(3)] show ?thesis
    by (simp add: make_parents_def parent)
qed

lemma resolve_writable:
  assumes "served s root R p" "unfaulted s root" "writable s R (segments p)" "last p \<noteq> CHR ''/''"
  shows "resolve root p s = (Inr (path_join root p), [])"
proof -
  note sv = servedD [OF assms(1)]
  obtain ns c where segs: "segments p = ns @ [c]" using sv(4) by (metis append_butlast_last_id)
  obtain k where k: "sys_walk s SysLstat False (kpath_of (path_join root p)) =
      (case walk s False k R (ns @ [c]) of Inl e \<Rightarrow> Inl (Os e) | Inr l \<Rightarrow> Inr l)"
    using sys_walk_join [OF assms(1,2,4)] unfolding segs by blast
  have dot: "dot_free (ns @ [c])" and Rdir: "lookup s R = Some Dir"
    using sv(1,5) segs by (simp_all add: root_at_def)
  have "lstat s (kpath_of (path_join root p)) = Inl (Os ENOENT) \<or>
      (\<exists>d t. lstat s (kpath_of (path_join root p)) = Inr (File d t))"
  proof (cases "dirs_down s R ns")
    case True
    with walk_down [OF True sv(2) dot] k assms(3) show ?thesis
      by (auto simp: lstat_def writable_def segs)
  next
    case False
    with walk_missing [OF dot Rdir _ False] k assms(3) show ?thesis
      by (simp add: lstat_def writable_def segs)
  qed
  moreover have "ok_prefix root (path_join root p) s"
    using root_among_ancestors [of p root] sv(3) by (auto simp: ok_prefix_def Let_def list_ex_iff)
  ultimately show ?thesis by (auto simp: resolve_def Let_def kind_not_found_def)
qed

lemma fs_write_all_succeeds:
  assumes "quiet_env X" "no_failures X" "served (w_fs w) root R p" "unfaulted (w_fs w) root"
    and "writable (w_fs w) R (segments p)" "last p \<noteq> CHR ''/''" "\<not> faulty rd"
  shows "\<exists>w'. fs_write_all X root p rd h w = (Inr (), w')"
proof -
  note sv = servedD [OF assms(3)]
  have env: "interfere X i w = w" for i and w :: "'a world"
    using assms(1) by (simp add: interfere_def quiet_env_def)
  obtain data where io: "x_io_copy X rd = (data, None)" "x_flush X data = None"
    using assms(2,7) by (cases "x_io_copy X rd") (auto simp: no_failures_def flush_ok_def)
  obtain s2 where s2: "make_parents (path_join root p) (w_fs w) = (Inr (), s2)"
    "dirs_down s2 R (butlast (segments p))" "more_dirs (w_fs w) s2"
    using make_parents_succeeds [OF assms(3,4)] assms(5) by (auto simp: writable_def)
  note k = more_dirs_keeps [OF s2(3)]
  have served2: "served s2 root R p" using assms(3) k(1,2) by (auto simp: served_def)
  have "lookup s2 (R @ take i (segments p)) = Some Dir" if "i < length (segments p)" for i
    using s2(2) that unfolding dirs_down_def by (auto simp: take_butlast dest!: spec [of _ i])
  from sys_walk_below [OF served2 k(3) [OF assms(4)] assms(6) this]
  have sw: "sys_walk s2 SysOpenWrite False (kpath_of (path_join root p)) = Inr (R @ segments p)" .
  have "lookup s2 (R @ segments p) = lookup (w_fs w) (R @ segments p)"
    using make_parents_grown [OF assms(3) s2(1)] unfolding grown_def by blast
  then have place: "lookup s2 (R @ segments p) = None \<or> (\<exists>d t. lookup s2 (R @ segments p) = Some (File d t))"
    using assms(5) by (simp add: writable_def)
  have "p \<noteq> []" using sv(4) by (auto simp: segments_def)
  then have slash: "kp_trailing (kpath_of (path_join root p)) = False"
    using assms(6) by (simp add: kpath_of_def last_path_join)
  then have "kpath_of (path_join root p)\<lparr>kp_trailing := False\<rparr> = kpath_of (path_join root p)" by simp
  with place sw slash obtain s4 where "open_trunc s2 (kpath_of (path_join root p)) = (Inr (R @ segments p), s4)"
    by (auto simp: open_trunc_def)
  with resolve_writable [OF assms(3-6)] s2(1) io show ?thesis
    by (simp add: fs_write_all_def env Let_def)
qed

section \<open>The handler\<close>

definition download_request :: "CopyFileRequest \<Rightarrow> bool" where
  "download_request req \<longleftrightarrow>
     source_storage_type req = S3 \<and> destination_storage_type req = Fs \<and>
     validate_path (source_file_path req) = Inr () \<and>
     validate_path (destination_file_path req) = Inr ()"

text \<open>The service delivers an object it has, at once and completely.\<close>

definition gets_ok :: "'b externs \<Rightarrow> ('b \<Rightarrow> string \<Rightarrow> string \<Rightarrow> string option) \<Rightarrow> bool" where
  "gets_ok X objects \<longleftrightarrow>
     (\<forall>b bucket key obj. objects b bucket key = Some obj \<longrightarrow>
        (\<exists>rd. fst (x_s3_get X b bucket key) = Inr rd \<and> \<not> faulty rd \<and> payload rd = obj \<and>
           proper rd \<and> (\<forall>ev \<in> set rd. fst ev = 0)))"

lemma s3_open_read_succeeds:
  assumes "gets_ok X objects" "objects (w_s3 w) (sb_bucket sb) (s3_key sb p) = Some obj"
  obtains rd b' where "s3_open_read X sb p w = (Inr rd, w\<lparr>w_s3 := b'\<rparr>)" "\<not> faulty rd" "payload rd = obj"
    "proper rd" "\<forall>ev \<in> set rd. fst ev = 0"
proof -
  obtain rd where rd: "fst (x_s3_get X (w_s3 w) (sb_bucket sb) (s3_key sb p)) = Inr rd" "\<not> faulty rd"
    "payload rd = obj" "proper rd" "\<forall>ev \<in> set rd. fst ev = 0"
    using assms unfolding gets_ok_def by blast
  then show ?thesis
    using that [of rd "snd (x_s3_get X (w_s3 w) (sb_bucket sb) (s3_key sb p))"]
    by (auto simp: s3_open_read_def case_prod_beta)
qed

text \<open>
  C8: a download of an object that is there and no larger than the cap, to a place below a root without
  links that is free or a regular file, its directories there or free, is answered
  204 when nothing outside the program fails: missing directories are made, and the file then holds
  exactly the object.
\<close>

theorem download_succeeds:
  assumes "st_backends st = both_backends X root sb" "copy_env_ok X objects (byte_cap st)"
    and "no_failures X" "gets_ok X objects" "download_request req"
    and "objects (w_s3 w) (sb_bucket sb) (s3_key sb (source_file_path req)) = Some obj"
    and "length obj \<le> unat (byte_cap st)"
    and "served (w_fs w) root R (destination_file_path req)" "unfaulted (w_fs w) root"
    and "writable (w_fs w) R (segments (destination_file_path req))"
    and "last (destination_file_path req) \<noteq> CHR ''/''"
    and "no_device_named (w_fs w) (destination_file_path req)"
  shows "\<exists>w'. copy_file X st req w = (Inr 204, w') \<and>
    content_at (w_fs w') (path_join root (destination_file_path req)) = Some obj"
proof -
  define w0 where "w0 = w\<lparr>w_tick := Suc (w_tick w)\<rparr>"
  note env = copy_env_ready(3,4) [OF assms(2)]
  have q: "quiet_env X" using assms(2) by (simp add: copy_env_ok_def)
  have "objects (w_s3 w0) (sb_bucket sb) (s3_key sb (source_file_path req)) = Some obj"
    using assms(6) by (simp add: w0_def)
  then obtain rd b' where rd: "s3_open_read X sb (source_file_path req) w0 = (Inr rd, w0\<lparr>w_s3 := b'\<rparr>)"
    "\<not> faulty rd" "payload rd = obj" "proper rd" "\<forall>ev \<in> set rd. fst ev = 0"
    using s3_open_read_succeeds [OF assms(4)] by blast
  obtain r w' where sc: "stream_copy X (s3_backend X sb) (source_file_path req) (fs_backend X root)
      (destination_file_path req) (byte_cap st) (idle_ms st) w = (r, w')" by fastforce
  from sc have "\<exists>n. r = Inr n"
  proof (cases rule: stream_copy_cases)
    case (no_source e)
    with rd(1) show ?thesis by (simp add: w0_def)
  next
    case (failed rd' w1 evs n e)
    with rd(1) have eqs: "rd' = rd" "w_fs w1 = w_fs w" by (auto simp: w0_def)
    have "\<not> faulty evs"
      using limited_facts(5) [OF env(1) rd(4) env(2) failed(2) [unfolded eqs(1)]] rd(2,3) assms(7)
        prompt_reader [OF rd(2,5)] by simp
    from fs_write_all_succeeds [OF q assms(3) assms(8-11) [folded eqs(2)] this, of None]
      failed(3) show ?thesis by auto
  qed simp
  then obtain n where n: "stream_copy X (s3_backend X sb) (source_file_path req) (fs_backend X root)
      (destination_file_path req) (byte_cap st) (idle_ms st) w = (Inr n, w')" using sc by blast
  have "fs_sink_ready X (destination_file_path req) (store w)"
    using copy_env_ready(5) [OF assms(2)] assms(5,12) by (simp add: store_def download_request_def)
  from download.copied_exactly [OF copy_env_ready(2) [OF assms(2)] this env n] assms(6)
  have "content_at (w_fs w') (path_join root (destination_file_path req)) = Some obj"
    by (auto simp: fs_content_def s3_content_def store_def)
  moreover have "copy_file X st req w = (Inr 204, w')"
    using copy_file_stream [of req st "s3_backend X sb" "fs_backend X root" X w] assms(1,5)
    unfolding n by (simp add: download_request_def)
  ultimately show ?thesis by blast
qed

text \<open>In the demo, to a file in a directory that is not there yet.\<close>

definition demo_deep_request :: CopyFileRequest where
  "demo_deep_request =
     \<lparr>source_storage_type = S3, source_file_path = ''c.txt'',
      destination_storage_type = Fs, destination_file_path = ''new/d.txt''\<rparr>"

lemma download_succeeds_witness:
  "\<exists>w'. copy_file demo demo_state demo_deep_request demo_world = (Inr 204, w') \<and>
     content_at (w_fs w') (path_join ''/data'' ''new/d.txt'') = Some ''hi''"
proof -
  have req: "download_request demo_deep_request" unfolding download_request_def by code_simp
  have gets: "gets_ok demo demo_objects"
    by (auto simp: gets_ok_def demo_objects_def demo_get_def demo_reader_def split: option.splits)
  have obj: "demo_objects (w_s3 demo_world) (sb_bucket demo_s3) (s3_key demo_s3 ''c.txt'') = Some ''hi''"
    by code_simp
  have seg: "segments ''new/d.txt'' = [''new'', ''d.txt'']" by code_simp
  have "validate_path ''new/d.txt'' = Inr ()" "\<not> is_absolute ''new/d.txt''" by code_simp+
  with demo_served have served: "served (w_fs demo_world) ''/data'' [''data''] ''new/d.txt''"
    by (simp add: served_def)
  have "lookup demo_fs [''data''] = Some Dir" "lookup demo_fs [''data'', ''new''] = None"
    "lookup demo_fs [''data'', ''new'', ''d.txt''] = None" by code_simp+
  then have "writable (w_fs demo_world) [''data''] [''new'', ''d.txt'']"
    by (auto simp: writable_def dirs_free_def demo_world_def le_Suc_eq)
  moreover have "no_device_named (w_fs demo_world) ''new/d.txt''"
    by (auto simp: no_device_named_def demo_world_def demo_fs_def lookup_def split: if_splits)
  ultimately show ?thesis
    using download_succeeds [OF demo_state_simps(1) demo_copy_env demo_no_failures gets req, of demo_world "''hi''"
        "[''data'']"] served obj demo_unfaulted seg
    by (simp add: demo_deep_request_def)
qed

end
