(* ===== verification/FsUnitTests.thy ===== *)
theory FsUnitTests
  imports UnitTests Download
begin

text \<open>
  The unit tests of \<open>src/backend/fs.rs\<close> and \<open>src/backend/mod.rs\<close> on the model. The temporary directory of a
  test is the directory \<open>/t\<close> of a small file system; the files and links a test creates are
  nodes of it. A cursor over a buffer is a reader that delivers it at once.
\<close>

section \<open>The file-system backend\<close>

definition in_tmp :: "(string list \<times> node) list \<Rightarrow> (bucket backend \<Rightarrow> bucket world \<Rightarrow> bool) \<Rightarrow> bool" where
  "in_tmp created test \<longleftrightarrow>
     (case fs_backend_new ''/t'' \<lparr>nodes = ([''t''], Dir) # created, cwd = [], now = 0, fault = (\<lambda>call kp. None)\<rparr> of
        (Inr root, s) \<Rightarrow> test (fs_backend demo root) (demo_world\<lparr>w_fs := s\<rparr>)
      | (Inl e, s) \<Rightarrow> False)"

definition default_options :: ListOptions where
  "default_options = \<lparr>opt_limit = None, opt_start_after = None\<rparr>"

definition listed_names :: "bucket backend \<Rightarrow> bucket world \<Rightarrow> string list option" where
  "listed_names be w =
     (case be_list be default_options w of Some (Inr files, w') \<Rightarrow> Some (map fe_name files) | _ \<Rightarrow> None)"

definition list_returns_only_files_in_root :: bool where
  "list_returns_only_files_in_root \<longleftrightarrow>
     in_tmp [([''t'', ''a.txt''], File ''hello'' 0), ([''t'', ''b.txt''], File ''world'' 0),
             ([''t'', ''nested''], Dir), ([''t'', ''nested'', ''c.txt''], File ''nope'' 0)]
       (\<lambda>be w. map_option sort (listed_names be w) = Some [''a.txt'', ''b.txt''])"

definition open_read_missing_is_notfound :: bool where
  "open_read_missing_is_notfound \<longleftrightarrow>
     in_tmp [] (\<lambda>be w. case be_open_read be ''nope.txt'' w of (Inl (NotFound p), w') \<Rightarrow> True | _ \<Rightarrow> False)"

definition write_all_then_open_read_roundtrip :: bool where
  "write_all_then_open_read_roundtrip \<longleftrightarrow>
     (let data = ''round-trip payload'' in
      in_tmp []
        (\<lambda>be w. case be_write_all be ''sub/dir/file.bin'' [(0, Bytes data)] None w of
           (Inl e, w') \<Rightarrow> False
         | (Inr u, w') \<Rightarrow>
             (case be_open_read be ''sub/dir/file.bin'' w' of
                (Inl e, w2) \<Rightarrow> False
              | (Inr reader, w2) \<Rightarrow> payload reader = data \<and> \<not> faulty reader)))"

definition list_skips_symlinks :: bool where
  "list_skips_symlinks \<longleftrightarrow>
     in_tmp [([''t'', ''real.txt''], File ''hello'' 0), ([''t'', ''pwned''], Symlink ''/etc/passwd'')]
       (\<lambda>be w. listed_names be w = Some [''real.txt''])"

definition open_read_rejects_symlink :: bool where
  "open_read_rejects_symlink \<longleftrightarrow>
     in_tmp [([''t'', ''pwned''], Symlink ''/etc/passwd'')]
       (\<lambda>be w. case be_open_read be ''pwned'' w of
          (Inl (InvalidPath msg), w') \<Rightarrow> contains ''symlink'' msg | _ \<Rightarrow> False)"

definition open_read_rejects_symlink_even_when_target_is_inside_root :: bool where
  "open_read_rejects_symlink_even_when_target_is_inside_root \<longleftrightarrow>
     in_tmp [([''t'', ''real.txt''], File ''hello'' 0), ([''t'', ''link''], Symlink ''/t/real.txt'')]
       (\<lambda>be w. invalid_path (fst (be_open_read be ''link'' w)))"

definition write_all_refuses_symlink_destination :: bool where
  "write_all_refuses_symlink_destination \<longleftrightarrow>
     in_tmp [([''t'', ''outside.txt''], File ''do-not-touch'' 0), ([''t'', ''link''], Symlink ''/t/outside.txt'')]
       (\<lambda>be w. case be_write_all be ''link'' [(0, Bytes ''attacker payload'')] None w of
          (result, w') \<Rightarrow> invalid_path result \<and>
            lookup (w_fs w') [''t'', ''outside.txt''] = Some (File ''do-not-touch'' 0))"

definition resolve_error_does_not_echo_user_path :: bool where
  "resolve_error_does_not_echo_user_path \<longleftrightarrow>
     in_tmp [] (\<lambda>be w. case fst (resolve ''/t'' ''/etc/passwd-DEADBEEF'' (w_fs w)) of
        Inl (InvalidPath msg) \<Rightarrow> \<not> contains ''DEADBEEF'' msg | _ \<Rightarrow> False)"

definition rfc3339_known_value :: bool where
  "rfc3339_known_value \<longleftrightarrow>
     format_rfc3339 1577836800 = ''2020-01-01T00:00:00Z'' \<and>
     format_rfc3339 1582934400 = ''2020-02-29T00:00:00Z'' \<and>
     format_rfc3339 0 = ''1970-01-01T00:00:00Z''"

lemma fs_read_tests:
  "open_read_missing_is_notfound" "open_read_rejects_symlink"
  "open_read_rejects_symlink_even_when_target_is_inside_root" "write_all_refuses_symlink_destination"
  "resolve_error_does_not_echo_user_path" "write_all_then_open_read_roundtrip"
  by code_simp+

lemma in_tmp_list:
  assumes "fs_backend_new ''/t'' \<lparr>nodes = ([''t''], Dir) # created, cwd = [], now = 0, fault = (\<lambda>call kp. None)\<rparr> =
      (Inr ''/t'', s)"
    and "read_dir s (kpath_of ''/t'') = Inr names"
    and "map fe_name (sort_key fe_name (concat (map (collect_entry ''/t'' s) names))) = ns" "length ns \<le> 1000"
  shows "in_tmp created (\<lambda>be w. listed_names be w = Some ns)"
proof -
  have collected: "collect_entries demo ''/t'' names acc w = (Inr (acc @ concat (map (collect_entry ''/t'' (w_fs w)) names)), w)"
    for acc and w :: "bucket world"
    using collect_entries_quiet [OF demo_quiet demo_readdir] by simp
  have "take DEFAULT_LIST_LIMIT (sort_key fe_name (concat (map (collect_entry ''/t'' s) names))) =
      sort_key fe_name (concat (map (collect_entry ''/t'' s) names))"
    using arg_cong [OF assms(3), of length] assms(4) by (intro take_all) (simp add: DEFAULT_LIST_LIMIT_def)
  then show ?thesis
    using assms(1-3) by (simp add: in_tmp_def listed_names_def default_options_def fs_list_def Let_def collected
        after_cursor_def)
qed

lemma fe_name_entry [simp]: "fe_name (entry_of n d t) = from_utf8_lossy n"
  by (simp add: entry_of_def)

lemma tmp_root:
  assumes "root_at \<lparr>nodes = ns, cwd = [], now = 0, fault = (\<lambda>call kp. None)\<rparr> ''/t'' [''t'']"
  shows "fs_backend_new ''/t'' \<lparr>nodes = ns, cwd = [], now = 0, fault = (\<lambda>call kp. None)\<rparr> =
    (Inr ''/t'', \<lparr>nodes = ns, cwd = [], now = 0, fault = (\<lambda>call kp. None)\<rparr>)"
  using create_root_dir [OF assms] by (simp add: fs_backend_new_def unfaulted_def)

lemma in_tmp_mono: "in_tmp created P \<Longrightarrow> (\<And>be w. P be w \<Longrightarrow> Q be w) \<Longrightarrow> in_tmp created Q"
  by (auto simp: in_tmp_def split: prod.splits sum.splits)

lemma list_skips_symlinks_test: "list_skips_symlinks"
proof -
  define s where "s = \<lparr>nodes = [([''t''], Dir), ([''t'', ''real.txt''], File ''hello'' 0),
    ([''t'', ''pwned''], Symlink ''/etc/passwd'')], cwd = [], now = 0, fault = (\<lambda>call kp. None)\<rparr>"
  have new: "fs_backend_new ''/t'' s = (Inr ''/t'', s)" unfolding s_def by (rule tmp_root) code_simp
  have dir: "read_dir s (kpath_of ''/t'') = Inr [''real.txt'', ''pwned'']"
    and st: "lstat s (kpath_of (path_join ''/t'' ''real.txt'')) = Inr (File ''hello'' 0)"
      "lstat s (kpath_of (path_join ''/t'' ''pwned'')) = Inr (Symlink ''/etc/passwd'')"
    unfolding s_def by code_simp+
  have "from_utf8_lossy ''real.txt'' = ''real.txt''" by (rule from_utf8_lossy_valid) code_simp
  then have "map fe_name (sort_key fe_name (concat (map (collect_entry ''/t'' s) [''real.txt'', ''pwned'']))) = [''real.txt'']"
    by (simp add: collect_entry_def st)
  from in_tmp_list [OF _ dir this] new show ?thesis
    by (simp add: list_skips_symlinks_def s_def)
qed

lemma list_returns_only_files_in_root_test: "list_returns_only_files_in_root"
proof -
  define s where "s = \<lparr>nodes = [([''t''], Dir), ([''t'', ''a.txt''], File ''hello'' 0),
    ([''t'', ''b.txt''], File ''world'' 0), ([''t'', ''nested''], Dir), ([''t'', ''nested'', ''c.txt''], File ''nope'' 0)],
    cwd = [], now = 0, fault = (\<lambda>call kp. None)\<rparr>"
  have new: "fs_backend_new ''/t'' s = (Inr ''/t'', s)" unfolding s_def by (rule tmp_root) code_simp
  have dir: "read_dir s (kpath_of ''/t'') = Inr [''a.txt'', ''b.txt'', ''nested'']"
    and st: "lstat s (kpath_of (path_join ''/t'' ''a.txt'')) = Inr (File ''hello'' 0)"
      "lstat s (kpath_of (path_join ''/t'' ''b.txt'')) = Inr (File ''world'' 0)"
      "lstat s (kpath_of (path_join ''/t'' ''nested'')) = Inr Dir"
    unfolding s_def by code_simp+
  have "from_utf8_lossy ''a.txt'' = ''a.txt''" "from_utf8_lossy ''b.txt'' = ''b.txt''"
    by (rule from_utf8_lossy_valid, code_simp)+
  moreover have le: "''a.txt'' \<le> ''b.txt''" by code_simp
  ultimately have "map fe_name (sort_key fe_name (concat (map (collect_entry ''/t'' s) [''a.txt'', ''b.txt'', ''nested'']))) =
      [''a.txt'', ''b.txt'']"
    by (simp add: collect_entry_def st)
  from in_tmp_list [OF _ dir this] new have "in_tmp
      [([''t'', ''a.txt''], File ''hello'' 0), ([''t'', ''b.txt''], File ''world'' 0), ([''t'', ''nested''], Dir),
       ([''t'', ''nested'', ''c.txt''], File ''nope'' 0)] (\<lambda>be w. listed_names be w = Some [''a.txt'', ''b.txt''])"
    by (simp add: s_def)
  then show ?thesis
    unfolding list_returns_only_files_in_root_def by (rule in_tmp_mono) (simp add: le)
qed

lemma rfc3339_known_value_test: "rfc3339_known_value"
proof -
  have y: "year_of_era 7245 = 19" "year_of_era 7304 = 19" "year_of_era 135080 = 369"
    by (simp_all add: year_of_era_def)
  have "day_of_year 7245 = 306" "day_of_year 7304 = 365" "day_of_year 135080 = 306"
    by (simp_all add: day_of_year_def y)
  with y have "civil_from_days 18262 = (2020, 1, 1)" "civil_from_days 18321 = (2020, 2, 29)"
    "civil_from_days 0 = (1970, 1, 1)"
    by (simp_all add: civil_from_days_def Let_def)
  moreover have "pad_left 4 (dec 2020) = ''2020''" "pad_left 4 (dec 1970) = ''1970''" "pad_left 2 (dec 1) = ''01''"
    "pad_left 2 (dec 2) = ''02''" "pad_left 2 (dec 29) = ''29''" "pad_left 2 (dec 0) = ''00''"
    by (simp_all add: decimal pad_left_def)
  ultimately show ?thesis
    by (simp add: rfc3339_known_value_def format_rfc3339_def Let_def unat_div unat_mod)
qed

section \<open>Hashes, the byte cap and stalled sources\<close>

definition path_hash_is_deterministic_and_short :: "'b externs \<Rightarrow> bool" where
  "path_hash_is_deterministic_and_short X \<longleftrightarrow>
     (let a = path_hash X ''tenant-A/billing/2026-Q3.csv'';
          b = path_hash X ''tenant-A/billing/2026-Q3.csv''
      in a = b \<and> length a = 12 \<and> list_all is_ascii_hexdigit a)"

definition path_hash_does_not_contain_raw_path_substring :: "'b externs \<Rightarrow> bool" where
  "path_hash_does_not_contain_raw_path_substring X \<longleftrightarrow>
     (let h = path_hash X ''tenant-abc-DEADBEEF'' in \<not> contains ''tenant'' h \<and> \<not> contains ''DEADBEEF'' h)"

text \<open>\<open>read_to_end\<close>: what it reads, and the error it ends with.\<close>

fun read_to_end :: "reader \<Rightarrow> string \<times> io_error option" where
  "read_to_end [] = ([], None)"
| "read_to_end ((d, Bytes b) # r) = apfst (append b) (read_to_end r)"
| "read_to_end ((d, Fault e) # r) = ([], Some e)"
| "read_to_end ((d, Never) # r) = ([], None)"

definition limited_reader_allows_up_to_cap :: bool where
  "limited_reader_allows_up_to_cap \<longleftrightarrow>
     (let data = replicate 100 (CHR 0x07);
          (reader, counter) = drain 8192 (limited_reader_new [(0, Bytes data)] 100);
          (out, err) = read_to_end reader
      in err = None \<and> length out = 100 \<and> counter = 100)"

definition limited_reader_errors_over_cap :: bool where
  "limited_reader_errors_over_cap \<longleftrightarrow>
     (let data = replicate 100 (CHR 0x07);
          (reader, c) = drain 8192 (limited_reader_new [(0, Bytes data)] 50);
          (out, err) = read_to_end reader
      in case err of Some e \<Rightarrow> contains ''50 bytes'' (io_display e) | None \<Rightarrow> False)"

definition limited_reader_cap_of_zero_rejects_any_byte :: bool where
  "limited_reader_cap_of_zero_rejects_any_byte \<longleftrightarrow>
     (let (reader, c) = drain 8192 (limited_reader_new [(0, Bytes [CHR 0x01])] 0);
          (out, err) = read_to_end reader
      in err \<noteq> None)"

definition stall_backend :: "'b backend" where
  "stall_backend = \<lparr>be_kind = Fs, be_list = (\<lambda>opts w. Some (Inr [], w)),
     be_open_read = (\<lambda>path w. (Inr [(0, Never)], w)), be_write_all = (\<lambda>path rd h w. (Inr (), w))\<rparr>"

text \<open>The sink reads once. What the stub backends may not be asked is never evaluated.\<close>

definition sink_backend :: "'b backend" where
  "sink_backend = \<lparr>be_kind = S3, be_list = (\<lambda>opts w. Some (Inr [], w)),
     be_open_read = (\<lambda>path w. (Inr [], w)),
     be_write_all = (\<lambda>path rd h w. case rd of (d, Fault e) # r \<Rightarrow> (Inl (Io e), w) | _ \<Rightarrow> (Inr (), w))\<rparr>"

definition stream_copy_aborts_when_source_stalls :: "'b externs \<Rightarrow> 'b world \<Rightarrow> bool" where
  "stream_copy_aborts_when_source_stalls X w \<longleftrightarrow>
     \<not> is_ok (fst (stream_copy X stall_backend ''in'' sink_backend ''out'' 1024 200 w))"

lemma path_hash_hex: "c \<in> set (path_hash X p) \<Longrightarrow> is_lower_hex c"
  by (auto simp: path_hash_def dest: hex_fixed_lower)

lemma length_path_hash: "6 \<le> length (x_sha256 X p) \<Longrightarrow> length (path_hash X p) = 12"
proof -
  have "length (hex_fixed n k) = n" for n k by (induction n arbitrary: k) auto
  moreover assume "6 \<le> length (x_sha256 X p)"
  ultimately show ?thesis by (simp add: path_hash_def length_concat comp_def sum_list_triv)
qed

lemma hash_tests:
  assumes "\<And>s. 6 \<le> length (x_sha256 X s)"
  shows "path_hash_is_deterministic_and_short X" "path_hash_does_not_contain_raw_path_substring X"
proof -
  show "path_hash_is_deterministic_and_short X"
    using assms by (auto simp: path_hash_is_deterministic_and_short_def Let_def length_path_hash list_all_iff
        dest: path_hash_hex intro: lower_hexdigit)
  have "\<not> is_lower_hex (CHR ''t'')" "\<not> is_lower_hex (CHR ''D'')" by code_simp+
  then have "CHR ''t'' \<notin> set (path_hash X p)" "CHR ''D'' \<notin> set (path_hash X p)" for p
    using path_hash_hex by blast+
  then show "path_hash_does_not_contain_raw_path_substring X"
    unfolding path_hash_does_not_contain_raw_path_substring_def Let_def contains_iff by (metis Un_iff list.set_intros(1) set_append)
qed

lemma limited_reader_tests:
  "limited_reader_allows_up_to_cap" "limited_reader_errors_over_cap" "limited_reader_cap_of_zero_rejects_any_byte"
proof -
  show "limited_reader_allows_up_to_cap"
    by (simp add: limited_reader_allows_up_to_cap_def limited_reader_new_def drain_Bytes drain_Nil rest_after_def)
  have "contains ''50 bytes'' ''transfer exceeded configured size cap of 50 bytes''" by code_simp
  moreover have "dec 50 = ''50''" by (simp add: decimal)
  ultimately show "limited_reader_errors_over_cap"
    by (simp add: limited_reader_errors_over_cap_def limited_reader_new_def drain_Bytes cap_error_def)
  show "limited_reader_cap_of_zero_rejects_any_byte"
    by (simp add: limited_reader_cap_of_zero_rejects_any_byte_def limited_reader_new_def drain_Bytes)
qed

lemma stalled_source_test:
  assumes "timeout_reader_ok X"
  shows "stream_copy_aborts_when_source_stalls X w"
proof -
  have "stalls 200 (0, Never)" by (simp add: stalls_def)
  then obtain d e where "x_timeout_reader X 200 [(0, Never)] = [(d, Fault e)]"
    using assms unfolding timeout_reader_ok_def by (metis append_Nil list.pred_inject(1))
  then show ?thesis
    by (simp add: stream_copy_aborts_when_source_stalls_def stream_copy_def stall_backend_def sink_backend_def
        instant_now_def limited_reader_new_def drain_Fault is_ok_def)
qed

end
