(* ===== verification/Listing.thy ===== *)
theory Listing
  imports Router Interfaces
begin

text \<open>
  The contract of \<open>Backend::list\<close> as an interface: a page is the first entries after the
  cursor, in name order. What a client sees that follows \<open>nextCursor\<close> through
  \<open>GET /v1/files\<close> is proved here once, for any backend that keeps the contract.
\<close>

section \<open>Pages of a sorted list\<close>

definition by_name :: "FileEntry list \<Rightarrow> bool" where
  "by_name es \<longleftrightarrow> sorted_wrt (<) (map fe_name es)"

lemma by_name_filter: "by_name es \<Longrightarrow> by_name (filter P es)"
  by (simp add: by_name_def sorted_wrt_map sorted_wrt_filter)

lemma by_name_append:
  "by_name (xs @ ys) \<Longrightarrow> x \<in> set xs \<Longrightarrow> y \<in> set ys \<Longrightarrow> fe_name x < fe_name y"
  by (auto simp: by_name_def sorted_wrt_append)

lemma by_name_iff: "by_name es \<longleftrightarrow> sorted (map fe_name es) \<and> distinct (map fe_name es)"
  by (simp add: by_name_def strict_sorted_iff)

lemma after_cursor_Some [simp]: "after_cursor (Some c) e \<longleftrightarrow> c < fe_name e"
  by (simp add: after_cursor_def)

lemma after_cursor_None [simp]: "after_cursor None e"
  by (simp add: after_cursor_def)

lemma after_cursor_trans: "after_cursor c e \<Longrightarrow> after_cursor (Some (fe_name e)) e' \<Longrightarrow> after_cursor c e'"
  by (cases c) auto

lemma after_cursor_refine:
  assumes "after_cursor c e"
  shows "filter (after_cursor (Some (fe_name e))) es =
    filter (after_cursor (Some (fe_name e))) (filter (after_cursor c) es)"
  unfolding filter_filter by (rule filter_cong [OF refl]) (metis after_cursor_trans [OF assms])

text \<open>What is left after a full page.\<close>

lemma filter_after_page:
  assumes "by_name es" "F = filter (after_cursor c) es" "0 < n" "n \<le> length F"
  shows "filter (after_cursor (Some (fe_name (last (take n F))))) es = drop n F"
proof -
  let ?l = "last (take n F)"
  have ne: "take n F \<noteq> []" using assms(3,4) by auto
  then have l: "?l \<in> set (take n F)" by simp
  then have "?l \<in> set F" by (rule in_set_takeD)
  then have ac: "after_cursor c ?l" using assms(2) by simp
  have "filter (after_cursor (Some (fe_name ?l))) es = filter (after_cursor (Some (fe_name ?l))) F"
    unfolding assms(2) by (rule after_cursor_refine) (rule ac [unfolded assms(2)])
  also have "\<dots> = filter (after_cursor (Some (fe_name ?l))) (take n F @ drop n F)" by simp
  also have "\<dots> = drop n F"
  proof -
    have srt: "by_name (take n F @ drop n F)" using assms(1,2) by (simp add: by_name_filter)
    have "\<not> fe_name ?l < fe_name e" if e: "e \<in> set (take n F)" for e
    proof -
      obtain xs x where tk: "take n F = xs @ [x]" using ne by (cases "take n F" rule: rev_cases) auto
      have "by_name (xs @ [x])" using srt unfolding tk by (simp add: by_name_def sorted_wrt_append)
      then have "e \<in> set xs \<Longrightarrow> fe_name e < fe_name x" using by_name_append by (metis list.set_intros(1))
      with e show ?thesis unfolding tk by auto
    qed
    then have "filter (after_cursor (Some (fe_name ?l))) (take n F) = []"
      by (simp add: filter_empty_conv)
    moreover have "filter (after_cursor (Some (fe_name ?l))) (drop n F) = drop n F"
      using by_name_append [OF srt l] by (simp add: filter_id_conv)
    ultimately show ?thesis by (simp del: append_take_drop_id)
  qed
  finally show ?thesis .
qed

section \<open>A client that follows the cursors\<close>

text \<open>At most \<open>fuel\<close> requests, each for \<open>n\<close> entries, until a response has no \<open>nextCursor\<close>.\<close>

fun follow_cursors :: "nat \<Rightarrow> 'b app_state \<Rightarrow> StorageType \<Rightarrow> nat \<Rightarrow> string option \<Rightarrow> 'b world \<Rightarrow>
    (FileEntry list \<times> 'b world) option" where
  "follow_cursors 0 st kind n c w = None"
| "follow_cursors (Suc fuel) st kind n c w =
     (case list_files st \<lparr>lfq_storage_type = kind, lfq_limit = Some n, lfq_start_after = c\<rparr> w of
        Some (Inr page, w') \<Rightarrow>
          (case meta_next_cursor (lfr_meta page) of
             None \<Rightarrow> Some (lfr_data page, w')
           | Some c' \<Rightarrow> map_option (apfst (append (lfr_data page)))
                         (follow_cursors fuel st kind n (Some c') w'))
      | _ \<Rightarrow> None)"

section \<open>The contract\<close>

locale listing =
  fixes be :: "'b backend"
    and ready :: "fsys \<times> 'b \<Rightarrow> bool"
    and entries :: "fsys \<times> 'b \<Rightarrow> FileEntry list"
  assumes list_page:
      "ready (store w) \<Longrightarrow> 0 < n \<Longrightarrow>
       \<exists>w'. be_list be \<lparr>opt_limit = Some n, opt_start_after = c\<rparr> w =
              Some (Inr (take n (filter (after_cursor c) (entries (store w)))), w') \<and>
            ready (store w') \<and> entries (store w') = entries (store w)"
    and entries_by_name: "ready st \<Longrightarrow> by_name (entries st)"
begin

lemma list_files_page:
  assumes "pick (st_backends st) kind = Inr be" "ready (store w)" "0 < n" "n \<le> MAX_LIST_LIMIT"
    and "\<forall>x. c = Some x \<longrightarrow> validate_path x = Inr ()"
  shows "\<exists>w'. list_files st \<lparr>lfq_storage_type = kind, lfq_limit = Some n, lfq_start_after = c\<rparr> w =
      Some (Inr (let es = take n (filter (after_cursor c) (entries (store w))) in
        \<lparr>lfr_data = es,
         lfr_meta = \<lparr>meta_count = length es,
           meta_next_cursor = (if length es = n then Some (fe_name (last es)) else None)\<rparr>\<rparr>), w') \<and>
    ready (store w') \<and> entries (store w') = entries (store w)"
proof -
  obtain w' where w': "be_list be \<lparr>opt_limit = Some n, opt_start_after = c\<rparr> w =
      Some (Inr (take n (filter (after_cursor c) (entries (store w)))), w')"
    "ready (store w')" "entries (store w') = entries (store w)"
    using list_page [OF assms(2,3)] by blast
  have "(case c of Some cursor \<Rightarrow> validate_path cursor | None \<Rightarrow> Inr ()) = Inr ()"
    using assms(5) by (cases c) auto
  then have "list_files st \<lparr>lfq_storage_type = kind, lfq_limit = Some n, lfq_start_after = c\<rparr> w =
      Some (Inr (let es = take n (filter (after_cursor c) (entries (store w))) in
        \<lparr>lfr_data = es,
         lfr_meta = \<lparr>meta_count = length es,
           meta_next_cursor = (if length es = n then Some (fe_name (last es)) else None)\<rparr>\<rparr>), w')"
    using assms(1,3,4) w'(1) by (auto simp: list_files_def Let_def)
  with w'(2,3) show ?thesis by blast
qed

lemma pages_are_complete:
  assumes "pick (st_backends st) kind = Inr be" "ready (store w)" "0 < n" "n \<le> MAX_LIST_LIMIT"
    and "\<forall>e \<in> set (entries (store w)). validate_path (fe_name e) = Inr ()"
    and "\<forall>x. c = Some x \<longrightarrow> validate_path x = Inr ()"
    and "length (filter (after_cursor c) (entries (store w))) < fuel * n"
  shows "\<exists>w'. follow_cursors fuel st kind n c w = Some (filter (after_cursor c) (entries (store w)), w')"
  using assms
proof (induction fuel arbitrary: c w)
  case (Suc fuel)
  define F where "F = filter (after_cursor c) (entries (store w))"
  obtain w1 where page: "list_files st \<lparr>lfq_storage_type = kind, lfq_limit = Some n, lfq_start_after = c\<rparr> w =
      Some (Inr \<lparr>lfr_data = take n F,
         lfr_meta = \<lparr>meta_count = length (take n F),
           meta_next_cursor = (if length (take n F) = n then Some (fe_name (last (take n F))) else None)\<rparr>\<rparr>, w1)"
    and w1: "ready (store w1)" "entries (store w1) = entries (store w)"
    using list_files_page [OF Suc.prems(1-4,6)] by (auto simp: Let_def F_def)
  show ?case
  proof (cases "length F < n")
    case True
    then have "take n F = F" "length (take n F) \<noteq> n" by auto
    with page show ?thesis by (simp add: F_def)
  next
    case False
    let ?l = "last (take n F)"
    have full: "length (take n F) = n" using False by simp
    have "?l \<in> set (take n F)" using full Suc.prems(3) by (intro last_in_set) auto
    then have "?l \<in> set (entries (store w))" by (auto dest!: in_set_takeD simp: F_def)
    then have ok: "\<forall>x. Some (fe_name ?l) = Some x \<longrightarrow> validate_path x = Inr ()"
      using Suc.prems(5) by simp
    have rest: "filter (after_cursor (Some (fe_name ?l))) (entries (store w1)) = drop n F"
      using filter_after_page [OF entries_by_name [OF Suc.prems(2)] F_def Suc.prems(3)] False w1(2) by simp
    have "length (drop n F) < fuel * n"
      using Suc.prems(7) False unfolding F_def [symmetric] by simp
    then have left: "length (filter (after_cursor (Some (fe_name ?l))) (entries (store w1))) < fuel * n"
      unfolding rest .
    have "\<forall>e \<in> set (entries (store w1)). validate_path (fe_name e) = Inr ()"
      unfolding w1(2) by (rule Suc.prems(5))
    from Suc.IH [OF Suc.prems(1) w1(1) Suc.prems(3,4) this ok left]
    obtain w2 where next_pages:
      "follow_cursors fuel st kind n (Some (fe_name ?l)) w1 = Some (drop n F, w2)"
      unfolding rest by blast
    have "follow_cursors (Suc fuel) st kind n c w = Some (take n F @ drop n F, w2)"
      unfolding follow_cursors.simps page
      by (simp only: option.case sum.case prod.case ListFilesResponse.select_convs
          ListFilesMeta.select_convs full refl if_True next_pages option.map apfst_conv)
    then show ?thesis unfolding F_def [symmetric] by simp
  qed
qed simp

end

end
