(* ===== verification/FsListing.thy ===== *)
theory FsListing
  imports Listing Copy
begin

text \<open>
  What a listing of the data directory contains: exactly the regular files directly below
  the root, in name order, whatever order \<open>readdir\<close> returns them in. With that the
  file-system backend keeps the contract \<open>listing\<close>, and a client that follows the cursors
  sees every file.
\<close>

section \<open>Well-formed trees\<close>

definition good_name :: "string \<Rightarrow> bool" where
  "good_name seg \<longleftrightarrow> seg \<noteq> [] \<and> CHR ''/'' \<notin> set seg \<and> CHR 0x00 \<notin> set seg \<and>
     seg \<noteq> ''.'' \<and> seg \<noteq> ''..''"

definition wf_fs :: "fsys \<Rightarrow> bool" where
  "wf_fs s \<longleftrightarrow> distinct (map fst (nodes s)) \<and>
     (\<forall>(p, n) \<in> set (nodes s). \<forall>seg \<in> set p. good_name seg)"

definition children :: "fsys \<Rightarrow> string list \<Rightarrow> (string list \<times> node) list" where
  "children s R = filter (\<lambda>(p, n). p \<noteq> [] \<and> butlast p = R) (nodes s)"

definition entry_of_node :: "string list \<times> node \<Rightarrow> FileEntry list" where
  "entry_of_node pn = (case snd pn of File data t \<Rightarrow> [entry_of (last (fst pn)) data t] | _ \<Rightarrow> [])"

text \<open>The regular files directly below \<open>R\<close>.\<close>

definition files_in :: "fsys \<Rightarrow> string list \<Rightarrow> FileEntry list" where
  "files_in s R = concat (map entry_of_node (children s R))"

lemma segments_good_name: "good_name seg \<Longrightarrow> segments seg = [seg] \<and> \<not> is_absolute seg"
  by (cases seg) (auto simp: good_name_def segments_def split_on_unused is_absolute_def)

lemma child_lookup:
  assumes "wf_fs s" "(p, n) \<in> set (children s R)"
  shows "p = R @ [last p]" "good_name (last p)" "lookup s p = Some n"
proof -
  have p: "(p, n) \<in> set (nodes s)" "p \<noteq> []" "butlast p = R"
    using assms(2) by (auto simp: children_def)
  then show "p = R @ [last p]" by (metis append_butlast_last_id)
  from p assms(1) show "good_name (last p)" unfolding wf_fs_def by fastforce
  from p assms(1) show "lookup s p = Some n" by (simp add: lookup_def wf_fs_def)
qed

lemma lookup_child:
  assumes "lookup s (R @ [seg]) = Some n"
  shows "(R @ [seg], n) \<in> set (children s R)"
  using assms by (auto simp: lookup_def children_def dest: map_of_SomeD)

lemma set_files_in:
  assumes "wf_fs s"
  shows "set (files_in s R) =
    {entry_of seg data t | seg data t. lookup s (R @ [seg]) = Some (File data t)}"
proof (intro set_eqI iffI)
  fix e assume "e \<in> set (files_in s R)"
  then obtain p data t where "(p, File data t) \<in> set (children s R)" "e = entry_of (last p) data t"
    by (auto simp: files_in_def entry_of_node_def split: node.splits)
  with child_lookup [OF assms] show
    "e \<in> {entry_of seg data t | seg data t. lookup s (R @ [seg]) = Some (File data t)}"
    by (metis (mono_tags, lifting) mem_Collect_eq)
next
  fix e assume "e \<in> {entry_of seg data t | seg data t. lookup s (R @ [seg]) = Some (File data t)}"
  then obtain seg data t where "lookup s (R @ [seg]) = Some (File data t)" "e = entry_of seg data t"
    by blast
  with lookup_child [of s R seg] show "e \<in> set (files_in s R)"
    by (force simp: files_in_def entry_of_node_def)
qed

section \<open>The call\<close>

text \<open>\<open>R\<close> is the root, and no system call is refused.\<close>

definition listable :: "fsys \<Rightarrow> string \<Rightarrow> string list \<Rightarrow> bool" where
  "listable s root R \<longleftrightarrow> root_at s root R \<and> unfaulted s root \<and> wf_fs s"

lemma lstat_child:
  assumes "listable s root R" "good_name seg"
  shows "lstat s (kpath_of (path_join root seg)) =
    (case lookup s (R @ [seg]) of None \<Rightarrow> Inl (Os ENOENT) | Some n \<Rightarrow> Inr n)"
proof -
  have root: "root_at s root R" "unfaulted s root" using assms(1) by (auto simp: listable_def)
  have seg: "segments seg = [seg]" "\<not> is_absolute seg" using segments_good_name [OF assms(2)] by auto
  have w: "walk s True MAXSYMLINKS (if is_absolute root then [] else cwd s) (segments root) = Inr R"
    "lookup s R = Some Dir" "root \<noteq> []"
    using root(1) by (auto simp: root_at_def)
  obtain k where "walk s False MAXSYMLINKS (if is_absolute root then [] else cwd s) (segments root @ [seg])
      = walk s False k R [seg]"
    using walk_append [OF w(1,2), of "[seg]" False] by blast
  also have "\<dots> = Inr (R @ [seg])"
    using w(2) assms(2) by (subst walk.simps) (auto simp: good_name_def split: option.split node.split)
  finally have walk: "walk s False MAXSYMLINKS (if is_absolute root then [] else cwd s)
      (segments root @ [seg]) = Inr (R @ [seg])" .
  have last: "last (path_join root seg) \<noteq> CHR ''/''"
    using assms(2) last_in_set by (metis good_name_def last_path_join)
  have "\<forall>x \<in> set (segments root @ [seg]). CHR 0x00 \<notin> set x"
    using set_segments root(2) assms(2) by (fastforce simp: unfaulted_def good_name_def)
  then have "sys_walk s SysLstat False (kpath_of (path_join root seg)) = Inr (R @ [seg])"
    using walk last root(2) w(3) seg by (simp add: sys_walk_def kpath_of_join unfaulted_def)
  then show ?thesis by (simp add: lstat_def)
qed

lemma collect_entry_child:
  assumes "listable s root R" "(p, n) \<in> set (children s R)"
  shows "collect_entry root s (last p) = entry_of_node (p, n)"
proof -
  have "wf_fs s" using assms(1) by (simp add: listable_def)
  note c = child_lookup [OF this assms(2)]
  have "lookup s (R @ [last p]) = Some n" using c(1,3) by simp
  with lstat_child [OF assms(1) c(2)] show ?thesis
    by (cases n) (simp_all add: collect_entry_def entry_of_node_def)
qed

lemma read_dir_root:
  assumes "listable s root R"
  shows "read_dir s (kpath_of root) = Inr (map (\<lambda>(p, n). last p) (children s R))"
proof -
  have root: "root_at s root R" "unfaulted s root" using assms(1) by (auto simp: listable_def)
  have w: "walk s True MAXSYMLINKS (if is_absolute root then [] else cwd s) (segments root) = Inr R"
    "lookup s R = Some Dir" "root \<noteq> []"
    using root(1) by (auto simp: root_at_def)
  have dot: "walk s True MAXSYMLINKS (if is_absolute root then [] else cwd s)
      (segments root @ [''.'']) = Inr R"
  proof -
    obtain k where "walk s True MAXSYMLINKS (if is_absolute root then [] else cwd s)
        (segments root @ [''.'']) = walk s True k R [''.'']"
      using walk_append [OF w(1,2), of "[''.'']" True] by blast
    with w(2) show ?thesis by (simp add: walk_dot)
  qed
  have "\<forall>x \<in> set (segments root). CHR 0x00 \<notin> set x"
    using set_segments root(2) by (fastforce simp: unfaulted_def)
  moreover have "is_absolute root \<or> segments root \<noteq> []"
    using segments_not_Nil w(3) by blast
  ultimately have "sys_walk s SysReadDir True (kpath_of root) = Inr R"
    using w(1) dot root(2) by (auto simp: sys_walk_def kpath_of_def unfaulted_def)
  with w(2) show ?thesis by (simp add: read_dir_def children_def)
qed

lemma fs_list_quiet:
  assumes "quiet_env X" "readdir_ok X" "listable (w_fs w) root R"
  shows "fs_list X root opts w = Some (Inr
    (take (case opt_limit opts of Some n \<Rightarrow> n | None \<Rightarrow> DEFAULT_LIST_LIMIT)
      (filter (after_cursor (opt_start_after opts)) (sort_key fe_name (files_in (w_fs w) R)))), w)"
proof -
  have "concat (map (collect_entry root (w_fs w)) (map (\<lambda>(p, n). last p) (children (w_fs w) R))) =
      files_in (w_fs w) R"
    unfolding files_in_def map_map
    by (intro arg_cong [of _ _ concat] map_cong refl)
      (auto simp: collect_entry_child [OF assms(3)])
  then show ?thesis
    by (simp add: fs_list_def read_dir_root [OF assms(3)] collect_entries_quiet [OF assms(1,2)]
        del: map_map)
qed

section \<open>Names in order\<close>

definition utf8_names :: "fsys \<Rightarrow> string list \<Rightarrow> bool" where
  "utf8_names s R \<longleftrightarrow>
     (\<forall>seg data t. lookup s (R @ [seg]) = Some (File data t) \<longrightarrow> utf8_valid seg)"

lemma utf8_names_children:
  assumes "wf_fs s" "utf8_names s R" "(p, File data t) \<in> set (children s R)"
  shows "utf8_valid (last p)"
  using child_lookup(1,3) [OF assms(1,3)] assms(2) by (metis utf8_names_def)

lemma entry_of_name: "utf8_valid seg \<Longrightarrow> fe_name (entry_of seg data t) = seg"
  by (simp add: entry_of_def from_utf8_lossy_valid)

lemma distinct_entries:
  assumes "distinct (map (last \<circ> fst) pns)" "\<And>p data t. (p, File data t) \<in> set pns \<Longrightarrow> utf8_valid (last p)"
  shows "distinct (map fe_name (concat (map entry_of_node pns)))"
    "set (map fe_name (concat (map entry_of_node pns))) \<subseteq> set (map (last \<circ> fst) pns)"
proof -
  have "distinct (map fe_name (concat (map entry_of_node pns))) \<and>
      set (map fe_name (concat (map entry_of_node pns))) \<subseteq> set (map (last \<circ> fst) pns)"
    using assms
  proof (induction pns)
    case (Cons pn pns)
    have IH: "distinct (map fe_name (concat (map entry_of_node pns)))"
      "set (map fe_name (concat (map entry_of_node pns))) \<subseteq> set (map (last \<circ> fst) pns)"
      using Cons.IH [OF _ Cons.prems(2) [OF list.set_intros(2)]] Cons.prems(1) by simp_all
    have fresh: "last (fst pn) \<notin> set (map (last \<circ> fst) pns)" using Cons.prems(1) by simp
    have "utf8_valid (last (fst pn))" if "snd pn = File data t" for data t
      using Cons.prems(2) that by (metis list.set_intros(1) prod.collapse)
    then have "map fe_name (entry_of_node pn) = [] \<or> map fe_name (entry_of_node pn) = [last (fst pn)]"
      by (simp add: entry_of_node_def entry_of_name split: node.split)
    moreover have "last (fst pn) \<notin> set (map fe_name (concat (map entry_of_node pns)))"
      using fresh IH(2) by blast
    moreover have "map fe_name (concat (map entry_of_node (pn # pns))) =
        map fe_name (entry_of_node pn) @ map fe_name (concat (map entry_of_node pns))"
      by simp
    moreover have "set (map (last \<circ> fst) (pn # pns)) =
        insert (last (fst pn)) (set (map (last \<circ> fst) pns))" by simp
    ultimately show ?case using IH
      by (elim disjE) (simp_all only: append.simps distinct.simps list.set simp_thms, blast+)
  qed simp
  then show "distinct (map fe_name (concat (map entry_of_node pns)))"
    "set (map fe_name (concat (map entry_of_node pns))) \<subseteq> set (map (last \<circ> fst) pns)" by blast+
qed

lemma children_names_distinct:
  assumes "wf_fs s"
  shows "distinct (map (last \<circ> fst) (children s R))"
proof -
  have "distinct (map fst (children s R))"
    using assms by (simp add: wf_fs_def children_def distinct_map_filter)
  moreover have "inj_on last (set (map fst (children s R)))"
    by (auto simp: inj_on_def children_def) (metis append_butlast_last_id)
  ultimately show ?thesis by (metis distinct_map list.map_comp)
qed

lemma by_name_files:
  assumes "wf_fs s" "utf8_names s R"
  shows "by_name (sort_key fe_name (files_in s R))"
proof -
  have "distinct (map fe_name (files_in s R))"
    unfolding files_in_def
    by (rule distinct_entries(1) [OF children_names_distinct [OF assms(1)]])
      (rule utf8_names_children [OF assms])
  then have "inj_on fe_name (set (files_in s R))" "distinct (files_in s R)"
    by (auto simp: distinct_map)
  then have "distinct (map fe_name (sort_key fe_name (files_in s R)))"
    by (simp add: distinct_map)
  then show ?thesis by (simp add: by_name_iff)
qed

text \<open>What a listing relies on: a quiet tree with UTF-8 names under the root.\<close>

definition fs_list_ready :: "'b externs \<Rightarrow> string \<Rightarrow> string list \<Rightarrow> fsys \<times> 'b \<Rightarrow> bool" where
  "fs_list_ready X root R st \<longleftrightarrow> quiet_env X \<and> readdir_ok X \<and> listable (fst st) root R \<and>
     utf8_names (fst st) R"

definition fs_entries :: "string list \<Rightarrow> fsys \<times> 'b \<Rightarrow> FileEntry list" where
  "fs_entries R st = sort_key fe_name (files_in (fst st) R)"

interpretation fs_listing: listing "fs_backend X root" "fs_list_ready X root R" "fs_entries R"
  for X :: "'b externs" and root R
proof
  fix w :: "'b world" and n :: nat and c
  assume "fs_list_ready X root R (store w)"
  then show "\<exists>w'. be_list (fs_backend X root) \<lparr>opt_limit = Some n, opt_start_after = c\<rparr> w =
        Some (Inr (take n (filter (after_cursor c) (fs_entries R (store w)))), w') \<and>
      fs_list_ready X root R (store w') \<and> fs_entries R (store w') = fs_entries R (store w)"
    using fs_list_quiet [of X w root R "\<lparr>opt_limit = Some n, opt_start_after = c\<rparr>"]
    by (auto simp: fs_list_ready_def fs_entries_def store_def)
next
  fix st :: "fsys \<times> 'b"
  assume "fs_list_ready X root R st"
  then show "by_name (fs_entries R st)"
    by (simp add: fs_list_ready_def fs_entries_def listable_def by_name_files)
qed

lemma allowed_byte_ascii: "allowed_byte c \<Longrightarrow> is_ascii c"
  by (auto simp: allowed_byte_def is_ascii_alphanumeric_ascii) (simp_all add: is_ascii_def byte_val_def)

lemma validated_utf8: "validate_path p = Inr () \<Longrightarrow> utf8_valid p"
  by (rule utf8_valid_ascii) (simp add: validate_path_Inr_iff allowed_byte_ascii)

section \<open>The demonstration tree\<close>

lemma demo_world_fs: "w_fs demo_world = demo_fs"
  by (simp add: demo_world_def)

lemma demo_listable: "listable demo_fs ''/data'' [''data'']"
proof -
  have "root_at demo_fs ''/data'' [''data'']" unfolding root_at_def by code_simp
  moreover have "unfaulted demo_fs ''/data''" by (simp add: unfaulted_def demo_fs_def)
  moreover have "wf_fs demo_fs" by (simp add: wf_fs_def demo_fs_def good_name_def)
  ultimately show ?thesis by (simp add: listable_def)
qed

lemma demo_file_names:
  "lookup demo_fs [''data'', seg] = Some (File data t) \<Longrightarrow> seg = ''a.txt''"
  by (simp add: lookup_def demo_fs_def split: if_splits)

lemma demo_names_valid:
  "lookup demo_fs [''data'', seg] = Some (File data t) \<Longrightarrow> validate_path seg = Inr ()"
  using demo_file_names demo_served by (auto simp: served_def)

section \<open>The properties\<close>

text \<open>
  C13: a listing of the data directory consists of one entry for every regular file directly
  below it and nothing else (no symbolic links, directories or special files), sorted by
  strictly increasing name, of which a request gets the first \<open>limit\<close> after its cursor. It does
  not depend on the order in which \<open>readdir\<close> returns the names, and it changes nothing.
\<close>
theorem fs_list_exact:
  assumes "quiet_env X" "readdir_ok X" "root_at (w_fs w) root R" "unfaulted (w_fs w) root"
    and "wf_fs (w_fs w)" "utf8_names (w_fs w) R"
  shows "\<exists>es. by_name es \<and>
    set es = {entry_of seg data t | seg data t. lookup (w_fs w) (R @ [seg]) = Some (File data t)} \<and>
    (\<forall>opts. fs_list X root opts w = Some (Inr
      (take (case opt_limit opts of Some n \<Rightarrow> n | None \<Rightarrow> DEFAULT_LIST_LIMIT)
        (filter (after_cursor (opt_start_after opts)) es)), w))"
proof (intro exI conjI allI)
  have l: "listable (w_fs w) root R" using assms by (simp add: listable_def)
  show "by_name (sort_key fe_name (files_in (w_fs w) R))" using assms(5,6) by (rule by_name_files)
  show "set (sort_key fe_name (files_in (w_fs w) R)) =
      {entry_of seg data t | seg data t. lookup (w_fs w) (R @ [seg]) = Some (File data t)}"
    using set_files_in [OF assms(5)] by simp
  show "fs_list X root opts w = Some (Inr
      (take (case opt_limit opts of Some n \<Rightarrow> n | None \<Rightarrow> DEFAULT_LIST_LIMIT)
        (filter (after_cursor (opt_start_after opts)) (sort_key fe_name (files_in (w_fs w) R)))), w)"
    for opts by (rule fs_list_quiet [OF assms(1,2) l])
qed

lemma fs_list_exact_witness:
  "\<exists>es. by_name es \<and>
    set es = {entry_of seg data t | seg data t. lookup demo_fs ([''data''] @ [seg]) = Some (File data t)} \<and>
    (\<forall>opts. fs_list demo ''/data'' opts demo_world = Some (Inr
      (take (case opt_limit opts of Some n \<Rightarrow> n | None \<Rightarrow> DEFAULT_LIST_LIMIT)
        (filter (after_cursor (opt_start_after opts)) es)), demo_world))"
proof -
  have "utf8_names demo_fs [''data'']"
    using demo_names_valid validated_utf8 by (auto simp: utf8_names_def)
  then show ?thesis
    using fs_list_exact [of demo demo_world "''/data''" "[''data'']"] demo_quiet demo_readdir demo_listable
    by (simp add: listable_def demo_world_fs)
qed



text \<open>
  A cursor the server hands out may be one it refuses: file names the validator does not
  accept are listed, and returned as \<open>nextCursor\<close>, but the request that continues there is
  answered with an error, so the rest of the listing cannot be reached.
\<close>

definition spaced_world :: "bucket world" where
  "spaced_world = demo_world\<lparr>w_fs := demo_fs\<lparr>nodes :=
     [([''data''], Dir), ([''data'', ''a b''], File ''x'' 0), ([''data'', ''c''], File ''y'' 0)]\<rparr>\<rparr>"

lemma cursor_refused:
  "(\<exists>page. fst (the (list_files demo_state \<lparr>lfq_storage_type = Fs, lfq_limit = Some 1, lfq_start_after = None\<rparr>
        spaced_world)) = Inr page \<and> meta_next_cursor (lfr_meta page) = Some ''a b'') \<and>
   (\<exists>m. list_files demo_state \<lparr>lfq_storage_type = Fs, lfq_limit = Some 1, lfq_start_after = Some ''a b''\<rparr>
        spaced_world = Some (Inl (InvalidPath m), spaced_world))"
proof
  have l: "listable (w_fs spaced_world) ''/data'' [''data'']"
  proof -
    have "root_at (w_fs spaced_world) ''/data'' [''data'']" unfolding root_at_def by code_simp
    moreover have "unfaulted (w_fs spaced_world) ''/data''"
      by (simp add: unfaulted_def spaced_world_def demo_fs_def)
    moreover have "wf_fs (w_fs spaced_world)"
      by (simp add: wf_fs_def spaced_world_def demo_fs_def good_name_def)
    ultimately show ?thesis by (simp add: listable_def)
  qed
  have files: "files_in (w_fs spaced_world) [''data''] = [entry_of ''a b'' ''x'' 0, entry_of ''c'' ''y'' 0]"
    by (simp add: files_in_def children_def spaced_world_def demo_fs_def entry_of_node_def)
  have "utf8_valid ''a b''" "utf8_valid ''c''" by code_simp+
  then have names: "fe_name (entry_of ''a b'' ''x'' 0) = ''a b''" "fe_name (entry_of ''c'' ''y'' 0) = ''c''"
    by (simp_all add: entry_of_name)
  then have "take 1 (sort_key fe_name (files_in (w_fs spaced_world) [''data''])) = [entry_of ''a b'' ''x'' 0]"
    by (simp add: files)
  then have "fs_list demo ''/data'' \<lparr>opt_limit = Some 1, opt_start_after = None\<rparr> spaced_world =
      Some (Inr [entry_of ''a b'' ''x'' 0], spaced_world)"
    using fs_list_quiet [OF demo_quiet demo_readdir l, of "\<lparr>opt_limit = Some 1, opt_start_after = None\<rparr>"]
    by (simp add: after_cursor_def)
  then show "\<exists>page. fst (the (list_files demo_state \<lparr>lfq_storage_type = Fs, lfq_limit = Some 1, lfq_start_after = None\<rparr>
        spaced_world)) = Inr page \<and> meta_next_cursor (lfr_meta page) = Some ''a b''"
    by (simp add: list_files_def MAX_LIST_LIMIT_def names)
  have "validate_path ''a b'' =
      Inl (InvalidPath ''path contains disallowed characters (allowed: 0-9 a-z A-Z - . _ /)'')" by code_simp
  then show "\<exists>m. list_files demo_state \<lparr>lfq_storage_type = Fs, lfq_limit = Some 1, lfq_start_after = Some ''a b''\<rparr>
      spaced_world = Some (Inl (InvalidPath m), spaced_world)"
    by (simp add: list_files_def MAX_LIST_LIMIT_def)
qed

end
