(* ===== verification/FsProperties.thy ===== *)
theory FsProperties
  imports FsListing
begin

text \<open>
  What the file-system backend guarantees on its own: a written file reads back, a symbolic
  link at the end of a path is never followed whatever other processes do in between, absolute paths elsewhere are refused; and, on a concrete tree, two
  ways in which the checks are weaker than their comments say.
\<close>

section \<open>What was written is read\<close>

lemma fs_write_fault:
  assumes "quiet_env X" "fs_write_all X root p rd h w = (r, w')"
  shows "fault (w_fs w') = fault (w_fs w)"
proof -
  have env: "x_env X i t = t" for i t using assms(1) by (simp add: quiet_env_def)
  have mp: "make_parents q s = (u, s') \<Longrightarrow> fault s' = fault s" for q s u s'
    using make_parents_fs_le by (fastforce simp: fs_le_def)
  from assms(2) show ?thesis
  proof (cases rule: fs_write_all_cases)
    case (written s2 l s4 data err)
    have "fault s4 = fault s2" using open_trunc_Inr [OF written(2)] by (auto simp: opened_def env)
    moreover have "fault (write_node s4 l data) = fault s4"
      by (simp add: write_node_def split: option.split node.split)
    ultimately show ?thesis using mp written(1,4) by (simp add: env)
  qed (use mp in \<open>auto simp: env\<close>)
qed

lemma sys_walk_unfaulted:
  assumes "place s fl (kpath_of (path_join root p)) = Inr l" "unfaulted s root" "validate_path p = Inr ()"
    and "\<not> is_absolute p" "root \<noteq> []"
  shows "sys_walk s call fl (kpath_of (path_join root p)) = Inr l"
proof -
  have p: "segments p \<noteq> []" using segments_not_Nil assms(3,4) validated_segments by blast
  have "\<forall>seg \<in> set (segments root @ segments p). CHR 0x00 \<notin> set seg"
    using set_segments validated_no_nul [OF assms(3)] assms(2) by (fastforce simp: unfaulted_def)
  with assms p show ?thesis
    by (simp add: sys_walk_def kpath_of_join place_def start_of_def kp_walk_names_def unfaulted_def)
qed

lemma fs_open_read_finds:
  assumes "quiet_env X" "unfaulted (w_fs w) root" "validate_path p = Inr ()" "\<not> is_absolute p" "root \<noteq> []"
    and "content_at (w_fs w) (path_join root p) = Some data"
  shows "fs_open_read X root p w = (Inr (x_file_reader X data), w)"
proof -
  have env: "interfere X i w = w" for i using assms(1) by (simp add: interfere_def quiet_env_def)
  obtain l n where l: "place (w_fs w) False (kpath_of (path_join root p)) = Inr l"
    "lookup (w_fs w) l = Some n" "(\<exists>t. n = File data t) \<or> n = Special data"
    using assms(6) by (auto simp: content_at_def split: sum.splits option.splits node.splits)
  note sw = sys_walk_unfaulted [OF l(1) assms(2-5)]
  have "ok_prefix root (path_join root p) (w_fs w)"
    using root_among_ancestors [of p root] assms(4) by (auto simp: ok_prefix_def Let_def list_ex_iff)
  then have "resolve root p (w_fs w) = (Inr (path_join root p), [])"
    using l(2,3) by (auto simp: resolve_def Let_def lstat_def sw)
  with l(2,3) show ?thesis
    by (auto simp: fs_open_read_def env open_rdonly_def sw node_reader_def)
qed

text \<open>
  C21: a write through the file-system backend that succeeds can be read back: the next read
  of the same path succeeds and delivers exactly the bytes written, without an error.
\<close>
theorem fs_write_then_read:
  assumes "quiet_env X" "io_copy_ok X" "file_reader_ok X" "unfaulted (w_fs w) root" "root \<noteq> []"
    and "validate_path p = Inr ()" "\<not> is_absolute p" "no_device_named (w_fs w) p"
    and "fs_write_all X root p rd h w = (Inr (), w')"
  shows "\<exists>rd'. fs_open_read X root p w' = (Inr rd', w') \<and> payload rd' = payload rd \<and> \<not> faulty rd'"
proof -
  have "content_at (w_fs w') (path_join root p) = Some (payload rd)"
    by (rule fs_write_all_content(2) [OF assms(1,2,6,8,9)])
  moreover have "unfaulted (w_fs w') root"
    using fs_write_fault [OF assms(1,9)] assms(4) by (simp add: unfaulted_def)
  ultimately show ?thesis
    using fs_open_read_finds [OF assms(1) _ assms(6,7,5)] assms(3) by (auto simp: file_reader_ok_def)
qed

lemma fs_write_then_read_witness:
  "\<exists>w' rd'. fs_write_all demo ''/data'' ''s/d.txt'' [(0, Bytes ''hi'')] None demo_world = (Inr (), w') \<and>
     fs_open_read demo ''/data'' ''s/d.txt'' w' = (Inr rd', w') \<and> payload rd' = ''hi''"
proof -
  have "fst (fs_write_all demo ''/data'' ''s/d.txt'' [(0, Bytes ''hi'')] None demo_world) = Inr ()"
    by code_simp
  then obtain w' where w': "fs_write_all demo ''/data'' ''s/d.txt'' [(0, Bytes ''hi'')] None demo_world = (Inr (), w')"
    by (metis prod.collapse)
  have "validate_path ''s/d.txt'' = Inr ()" "\<not> is_absolute ''s/d.txt''" by code_simp+
  moreover have "no_device_named demo_fs ''s/d.txt''"
    by (auto simp: no_device_named_def lookup_def demo_fs_def split: if_splits)
  ultimately have "\<exists>rd'. fs_open_read demo ''/data'' ''s/d.txt'' w' = (Inr rd', w') \<and>
      payload rd' = payload [(0, Bytes ''hi'')] \<and> \<not> faulty rd'"
    by (intro fs_write_then_read [OF demo_quiet demo_io_copy demo_file_reader demo_unfaulted _ _ _ _ w'])
      (simp_all add: demo_world_fs)
  with w' show ?thesis by auto
qed

section \<open>Links and the root\<close>

definition link_at :: "fsys \<Rightarrow> string \<Rightarrow> bool" where
  "link_at s q \<longleftrightarrow> (\<exists>l t. place s False (kpath_of q) = Inr l \<and> lookup s l = Some (Symlink t))"

text \<open>
  C20: whatever other processes do to the tree while the operation is under way, a path whose
  last name is a symbolic link at the moment of the open is refused: a read returns an
  error, and a write returns an error without having written anywhere (at most the parent
  directories were made), so neither the link nor what it points to is read or changed.
\<close>
theorem last_link_is_never_followed:
  "(link_at (x_env X 1 (w_fs w)) (path_join root p) \<longrightarrow>
      (\<exists>e w'. fs_open_read X root p w = (Inl e, w') \<and> store w' \<in> {store w, (x_env X 1 (w_fs w), w_s3 w)})) \<and>
   (\<forall>u s2. make_parents (path_join root p) (x_env X 2 (w_fs w)) = (u, s2) \<and>
      link_at (x_env X 3 s2) (path_join root p) \<longrightarrow>
      (\<exists>e w'. fs_write_all X root p rd h w = (Inl e, w') \<and> w_fs w' \<in> {w_fs w, s2, x_env X 3 s2} \<and>
        w_s3 w' = w_s3 w))"
proof (intro conjI impI allI)
  assume link: "link_at (x_env X 1 (w_fs w)) (path_join root p)"
  obtain r w' where op: "fs_open_read X root p w = (r, w')" by fastforce
  have "store w' \<in> {store w, (x_env X 1 (w_fs w), w_s3 w)}"
    using fs_open_read_world [of X root p w] op by (auto simp: store_def)
  moreover have "\<exists>e. r = Inl e"
    using fs_open_read_Inr [of X root p w _ w'] op link by (cases r) (fastforce simp: link_at_def)+
  ultimately show "\<exists>e w'. fs_open_read X root p w = (Inl e, w') \<and>
      store w' \<in> {store w, (x_env X 1 (w_fs w), w_s3 w)}"
    using op by blast
next
  fix u s2
  assume a: "make_parents (path_join root p) (x_env X 2 (w_fs w)) = (u, s2) \<and>
      link_at (x_env X 3 s2) (path_join root p)"
  obtain r w' where wr: "fs_write_all X root p rd h w = (r, w')" by fastforce
  then show "\<exists>e w'. fs_write_all X root p rd h w = (Inl e, w') \<and>
      w_fs w' \<in> {w_fs w, s2, x_env X 3 s2} \<and> w_s3 w' = w_s3 w"
  proof (cases rule: fs_write_all_cases)
    case (written s2' l s4 data err)
    have "place (x_env X 3 s2) False (kpath_of (path_join root p)) = Inr l"
      "\<forall>t. lookup (x_env X 3 s2) l \<noteq> Some (Symlink t)"
      using open_trunc_Inr [OF written(2)] written(1) a by (auto simp: opened_def)
    with a show ?thesis by (auto simp: link_at_def)
  qed (use a wr in auto)
qed

text \<open>A tree with a link to a file and one to a directory outside the root \<open>/data\<close>.\<close>

definition linked_fs :: fsys where
  "linked_fs =
     \<lparr>nodes = [([''data''], Dir), ([''data'', ''l''], Symlink ''/etc/pw''),
               ([''data'', ''d''], Symlink ''/etc''), ([''etc''], Dir),
               ([''etc'', ''pw''], File ''root'' 0)],
      cwd = [], now = 7, fault = (\<lambda>call kp. None)\<rparr>"

definition linked_world :: "bucket world" where
  "linked_world = demo_world\<lparr>w_fs := linked_fs\<rparr>"

lemma last_link_is_never_followed_witness:
  "(\<exists>e w'. fs_open_read demo ''/data'' ''l'' linked_world = (Inl e, w')) \<and>
   (\<exists>e w'. fs_write_all demo ''/data'' ''l'' [(0, Bytes ''x'')] None linked_world = (Inl e, w') \<and>
      lookup (w_fs w') [''etc'', ''pw''] = Some (File ''root'' 0))"
proof -
  have "place linked_fs False (kpath_of (path_join ''/data'' ''l'')) = Inr [''data'', ''l'']"
    "lookup linked_fs [''data'', ''l''] = Some (Symlink ''/etc/pw'')" by code_simp+
  then have link: "link_at linked_fs (path_join ''/data'' ''l'')" by (auto simp: link_at_def)
  obtain u s2 where mp: "make_parents (path_join ''/data'' ''l'') linked_fs = (u, s2)" by fastforce
  have "nodes (snd (make_parents (path_join ''/data'' ''l'') linked_fs)) = nodes linked_fs" by code_simp
  then have s2: "lookup s2 = lookup linked_fs" "s2 = linked_fs"
    using make_parents_fs_le [OF mp] mp by (auto simp: lookup_def fun_eq_iff fs_le_def)
  from last_link_is_never_followed [of demo linked_world "''/data''" "''l''" "[(0, Bytes ''x'')]" None]
    link mp s2
  show ?thesis by (auto simp: linked_world_def lookup_def linked_fs_def)
qed

text \<open>
  C22: an absolute path that does not start with the components of the root, as configured or
  as the system resolves it, is refused with the fixed message by reads and writes alike, before any
  system call that opens or creates, and nothing changes.
\<close>
theorem absolute_path_refused:
  assumes "is_absolute p" "\<not> prefix (components root) (components p)"
    and "\<forall>c. canonicalize (w_fs w) (kpath_of root) = Inr c \<longrightarrow> \<not> prefix (components c) (components p)"
  shows "(\<exists>w'. fs_open_read X root p w =
      (Inl (InvalidPath ''resolved path escapes fs root''), w') \<and> store w' = store w) \<and>
    (\<exists>w'. fs_write_all X root p rd h w =
      (Inl (InvalidPath ''resolved path escapes fs root''), w') \<and> store w' = store w)"
proof -
  have "\<not> ok_prefix root (path_join root p) (w_fs w)"
    using ok_prefix_absolute [OF assms(1)] assms(2,3) by blast
  then obtain evs where "resolve root p (w_fs w) =
      (Inl (InvalidPath ''resolved path escapes fs root''), evs)"
    using refused_escape by (metis prod.collapse)
  then show ?thesis by (simp add: fs_open_read_def fs_write_all_def)
qed

lemma absolute_path_refused_witness:
  "\<exists>w'. fs_open_read demo ''/data'' ''/etc/pw'' linked_world =
     (Inl (InvalidPath ''resolved path escapes fs root''), w')"
proof -
  have abs: "is_absolute ''/etc/pw''" "\<not> prefix (components ''/data'') (components ''/etc/pw'')"
    by code_simp+
  have "canonicalize linked_fs (kpath_of ''/data'') = Inr ''/data''" by code_simp
  with absolute_path_refused [OF abs, of linked_world demo] abs(2) show ?thesis
    by (auto simp: linked_world_def)
qed

section \<open>Where the checks are weaker than their comments\<close>

text \<open>
  The ancestors check never refuses a relative path: the root itself is an ancestor of
  whatever is joined to it, \<open>..\<close> included, so it is no second line of defence behind the
  validator; and a symbolic link before the last name of a path is followed.
\<close>

lemma ancestors_check_passes_relative:
  "\<not> is_absolute p \<Longrightarrow> ok_prefix root (path_join root p) s"
  using root_among_ancestors [of p root] by (auto simp: ok_prefix_def Let_def list_ex_iff)

lemma dotdot_leaves_root:
  "fst (fs_open_read demo ''/data'' ''../etc/pw'' linked_world) = Inr (demo_reader ''root'')"
  by code_simp

lemma directory_link_is_followed:
  "validate_path ''d/pw'' = Inr () \<and>
   fst (fs_open_read demo ''/data'' ''d/pw'' linked_world) = Inr (demo_reader ''root'') \<and>
   lookup (w_fs (snd (fs_write_all demo ''/data'' ''d/pw'' [(0, Bytes ''x'')] None linked_world)))
     [''etc'', ''pw''] = Some (File ''x'' 7)"
  by (intro conjI; code_simp)

end
