(* ===== verification/S3Listing.thy ===== *)
theory S3Listing
  imports Listing Copy
begin

text \<open>
  The listing of a bucket, page by page: the loop over continuation tokens ends, and what it
  returns is the beginning of the listing of the whole prefix, given a service that keeps the
  documented behaviour of \<open>ListObjectsV2\<close>. With that the S3 backend keeps the contract
  \<open>listing\<close>, and so do clients that follow the cursors of \<open>GET /v1/files\<close>.
\<close>

lemma lists_okD:
  assumes "lists_ok X catalog left" "x_s3_list X b req = (r, b')"
  shows "catalog b' = catalog b" "left b' = left b" "r = Inr resp \<Longrightarrow> page_ok (left b) req resp"
proof -
  have b': "b' = snd (x_s3_list X b req)" "r = fst (x_s3_list X b req)" using assms(2) by simp_all
  from assms(1) show "catalog b' = catalog b" "left b' = left b"
    unfolding b' lists_ok_def by blast+
  show "page_ok (left b) req resp" if "r = Inr resp"
    using assms(1) that unfolding b' lists_ok_def by blast
qed

section \<open>One page\<close>

lemma map_filter_append: "List.map_filter f (xs @ ys) = List.map_filter f xs @ List.map_filter f ys"
  by (simp add: List.map_filter_def)

lemma s3_collect_spec:
  "length out < limit \<Longrightarrow>
   s3_collect sb limit objs out = take limit (out @ List.map_filter (s3_entry sb) objs)"
proof (induction sb limit objs out rule: s3_collect.induct)
  case (2 sb limit obj objs out)
  show ?case
  proof (cases "s3_entry sb obj")
    case None
    with 2 show ?thesis by (simp add: List.map_filter_simps)
  next
    case (Some e)
    show ?thesis
    proof (cases "limit \<le> length (out @ [e])")
      case True
      then have "limit = Suc (length out)" using 2(3) by simp
      with Some show ?thesis by (simp add: List.map_filter_simps)
    next
      case False
      with Some 2(2) [OF Some refl False] show ?thesis by (simp add: List.map_filter_simps)
    qed
  qed
qed (simp add: List.map_filter_simps)

lemma s3_list_request_simps [simp]:
  "lq_token (s3_list_request sb start tok) = tok" "lq_bucket (s3_list_request sb start tok) = sb_bucket sb"
  "lq_prefix (s3_list_request sb start tok) = s3_prefix_arg sb"
  "lq_start_after (s3_list_request sb start None) = start"
  by (simp_all add: s3_list_request_def)

lemma s3_list_request_next:
  "(s3_list_request sb start tok)\<lparr>lq_token := Some t, lq_start_after := None\<rparr> =
     s3_list_request sb start (Some t)"
  by (simp add: s3_list_request_def)

section \<open>All pages\<close>

text \<open>The loop ends: every truncated page makes what is left shorter.\<close>

lemma s3_list_pages_spec:
  assumes "lists_ok X catalog left" "length out < limit"
    and "left b (s3_list_request sb start tok) = rest"
  shows "\<exists>r b'. s3_list_pages X sb limit start out tok b = Some (r, b') \<and>
    catalog b' = catalog b \<and> left b' = left b \<and>
    (r = Inr (take limit (out @ List.map_filter (s3_entry sb) rest)) \<or>
     (\<exists>m. r = Inl (Upstream m)) \<and> (\<exists>b req e. fst (x_s3_list X b req) = Inl e))"
  using assms(2,3)
proof (induction "length rest" arbitrary: out tok b rest rule: less_induct)
  case less
  let ?req = "s3_list_request sb start tok" and ?mf = "List.map_filter (s3_entry sb)"
  obtain r b1 where call: "x_s3_list X b ?req = (r, b1)" by fastforce
  note kept = lists_okD(1,2) [OF assms(1) call]
  show ?case
  proof (cases r)
    case (Inl e)
    then have "s3_list_pages X sb limit start out tok b = Some (Inl (Upstream (''s3 list: '' @ e)), b1)"
      using call by (subst s3_list_pages.simps) simp
    moreover have "fst (x_s3_list X b ?req) = Inl e" using call Inl by simp
    ultimately show ?thesis using kept by blast
  next
    case (Inr resp)
    obtain k where k: "contents_of resp = take k rest"
      "if k < length rest
       then 0 < k \<and> lo_is_truncated resp = Some True \<and>
         (\<exists>t. lo_next_token resp = Some t \<and> left b (s3_list_request sb start (Some t)) = drop k rest)
       else lo_is_truncated resp \<noteq> Some True"
      using lists_okD(3) [OF assms(1) call Inr]
      unfolding page_ok_def s3_list_request_next less.prems(2) by blast
    define out' where "out' = take limit (out @ ?mf (take k rest))"
    have out': "s3_collect sb limit (contents_of resp) out = out'"
      unfolding k(1) out'_def by (rule s3_collect_spec [OF less.prems(1)])
    have split: "?mf rest = ?mf (take k rest) @ ?mf (drop k rest)"
      by (metis append_take_drop_id map_filter_append)
    have step: "s3_list_pages X sb limit start out tok b =
        (if length out' \<ge> limit \<or> lo_is_truncated resp \<noteq> Some True then Some (Inr out', b1)
         else (case lo_next_token resp of None \<Rightarrow> Some (Inr out', b1)
               | Some t \<Rightarrow> s3_list_pages X sb limit start out' (Some t) b1))"
      using call Inr
      by (subst s3_list_pages.simps)
        (simp add: Let_def out' [unfolded contents_of_def] split: option.split)
    show ?thesis
    proof (cases "length out' \<ge> limit")
      case True
      then have all: "out' = take limit (out @ ?mf rest)" by (simp add: out'_def split)
      have "s3_list_pages X sb limit start out tok b = Some (Inr out', b1)"
        using step True by simp
      then show ?thesis unfolding all using kept by blast
    next
      case room: False
      then have grown: "out' = out @ ?mf (take k rest)" by (auto simp: out'_def)
      show ?thesis
      proof (cases "k < length rest")
        case False
        then have all: "out' = take limit (out @ ?mf rest)" by (simp add: out'_def)
        have "s3_list_pages X sb limit start out tok b = Some (Inr out', b1)"
          using step k(2) False by simp
        then show ?thesis unfolding all using kept by blast
      next
        case True
        then obtain t where t: "0 < k" "lo_is_truncated resp = Some True" "lo_next_token resp = Some t"
          "left b (s3_list_request sb start (Some t)) = drop k rest"
          using k(2) by auto
        have next_page: "s3_list_pages X sb limit start out tok b =
            s3_list_pages X sb limit start out' (Some t) b1"
          using step room t(2,3) by simp
        have "out' @ ?mf (drop k rest) = out @ ?mf rest" by (simp add: grown split)
        with less.hyps [of "drop k rest" out' b1 "Some t"] t(1,4) True room kept next_page
        show ?thesis by (auto simp: not_le)
      qed
    qed
  qed
qed

section \<open>The listing of a prefix\<close>

lemma append_less_cancel: "p @ a < p @ b \<longleftrightarrow> a < (b :: string)"
  by (induction p) auto

lemma s3_entry_Some_iff:
  "s3_entry sb obj = Some e \<longleftrightarrow>
     ob_key obj = Some (s3_key sb (fe_name e)) \<and> fe_name e \<noteq> [] \<and> CHR ''/'' \<notin> set (fe_name e) \<and>
     fe_size e = (case ob_size obj of Some n \<Rightarrow> if n < 0 then 0 else word_of_int n | None \<Rightarrow> 0) \<and>
     fe_last_modified e = map_option (\<lambda>t. case t of Some str \<Rightarrow> str | None \<Rightarrow> []) (ob_last_modified obj)"
  (is "?l \<longleftrightarrow> ?r")
proof (cases "\<exists>name. ob_key obj = Some (s3_key sb name)")
  case True
  then obtain name where name: "ob_key obj = Some (s3_key sb name)" "s3_strip_prefix sb (s3_key sb name) = Some name"
    using s3_strip_prefix_key by blast
  then show ?thesis
    by (cases e) (auto simp: s3_entry_def Let_def dest: s3_key_inj split: option.split)
next
  case False
  then have "s3_entry sb obj = None"
    using s3_strip_prefix_key by (fastforce simp: s3_entry_def split: option.split)
  with False show ?thesis by auto
qed

definition s3_entries :: "('b \<Rightarrow> string \<Rightarrow> s3_object list) \<Rightarrow> s3_backend_state \<Rightarrow> fsys \<times> 'b \<Rightarrow>
    FileEntry list" where
  "s3_entries catalog sb st = List.map_filter (s3_entry sb) (catalog (snd st) (sb_bucket sb))"

lemma by_name_entries:
  assumes "sorted_wrt (<) (map (the \<circ> ob_key) objs)"
  shows "by_name (List.map_filter (s3_entry sb) objs)"
  using assms
proof (induction objs)
  case (Cons obj objs)
  show ?case
  proof (cases "s3_entry sb obj")
    case (Some e)
    have "fe_name e < fe_name e'" if "obj' \<in> set objs" "s3_entry sb obj' = Some e'" for obj' e'
    proof -
      have "the (ob_key obj) < the (ob_key obj')" using Cons.prems that(1) by simp
      then have "s3_key sb (fe_name e) < s3_key sb (fe_name e')"
        using Some that(2) by (simp add: s3_entry_Some_iff)
      then show ?thesis by (simp add: s3_key_prefix_arg append_less_cancel split: option.splits)
    qed
    with Some Cons show ?thesis
      by (auto simp: by_name_def List.map_filter_simps) (auto simp: List.map_filter_def)
  qed (use Cons in \<open>simp add: List.map_filter_simps\<close>)
qed (simp add: by_name_def List.map_filter_simps)

text \<open>The prefix and the start of the first request select the entries after the cursor.\<close>

lemma listed_entries:
  "List.map_filter (s3_entry sb) (filter (listed (s3_list_request sb
       (map_option (\<lambda>name. case s3_prefix_arg sb of Some p \<Rightarrow> p @ name | None \<Rightarrow> name) c) None)) objs) =
   filter (after_cursor c) (List.map_filter (s3_entry sb) objs)"
proof (induction objs)
  case (Cons obj objs)
  let ?start = "map_option (\<lambda>name. case s3_prefix_arg sb of Some p \<Rightarrow> p @ name | None \<Rightarrow> name) c"
  show ?case
  proof (cases "s3_entry sb obj")
    case None
    with Cons show ?thesis by (simp add: List.map_filter_simps)
  next
    case (Some e)
    then have "ob_key obj = Some (s3_key sb (fe_name e))" by (simp add: s3_entry_Some_iff)
    then have "listed (s3_list_request sb ?start None) obj \<longleftrightarrow> after_cursor c e"
      by (auto simp: listed_def s3_key_prefix_arg append_less_cancel after_cursor_def
          split: option.split)
    with Some Cons show ?thesis by (simp add: List.map_filter_simps)
  qed
qed (simp add: List.map_filter_simps)

lemma s3_list_spec:
  assumes "lists_ok X catalog left" "0 < limit" "opt_limit opts = Some limit"
  shows "\<exists>r b'. s3_list X sb opts w = Some (r, w\<lparr>w_s3 := b'\<rparr>) \<and>
    catalog b' = catalog (w_s3 w) \<and> left b' = left (w_s3 w) \<and>
    (r = Inr (take limit (filter (after_cursor (opt_start_after opts)) (s3_entries catalog sb (store w)))) \<or>
     (\<exists>m. r = Inl (Upstream m)) \<and> (\<exists>b req e. fst (x_s3_list X b req) = Inl e))"
proof -
  let ?start = "map_option (\<lambda>name. case s3_prefix_arg sb of Some p \<Rightarrow> p @ name | None \<Rightarrow> name)
    (opt_start_after opts)"
  have "left (w_s3 w) (s3_list_request sb ?start None) =
      filter (listed (s3_list_request sb ?start None)) (catalog (w_s3 w) (sb_bucket sb))"
    using assms(1) unfolding lists_ok_def by simp
  from s3_list_pages_spec [OF assms(1) _ this, of "[]" limit] assms(2)
  obtain r b' where r: "s3_list_pages X sb limit ?start [] None (w_s3 w) = Some (r, b')"
    "catalog b' = catalog (w_s3 w)" "left b' = left (w_s3 w)"
    "r = Inr (take limit (filter (after_cursor (opt_start_after opts)) (s3_entries catalog sb (store w)))) \<or>
     (\<exists>m. r = Inl (Upstream m)) \<and> (\<exists>b req e. fst (x_s3_list X b req) = Inl e)"
    unfolding append_Nil listed_entries s3_entries_def store_def snd_conv list.size by blast
  have "s3_list X sb opts w = Some (r, w\<lparr>w_s3 := b'\<rparr>)"
    using r(1) by (simp add: s3_list_def assms(3))
  with r(2-4) show ?thesis by blast
qed

section \<open>The contract\<close>

definition s3_list_ready :: "'b externs \<Rightarrow> ('b \<Rightarrow> string \<Rightarrow> s3_object list) \<Rightarrow>
    ('b \<Rightarrow> list_request \<Rightarrow> s3_object list) \<Rightarrow> fsys \<times> 'b \<Rightarrow> bool" where
  "s3_list_ready X catalog left st \<longleftrightarrow> lists_ok X catalog left \<and>
     (\<forall>b req. \<exists>resp. fst (x_s3_list X b req) = Inr resp)"

interpretation s3_listing: listing "s3_backend X sb" "s3_list_ready X catalog left" "s3_entries catalog sb"
  for X :: "'b externs" and sb catalog left
proof
  fix w :: "'b world" and n :: nat and c
  assume ready: "s3_list_ready X catalog left (store w)" and n: "0 < n"
  then have "lists_ok X catalog left" "\<nexists>b req e. fst (x_s3_list X b req) = Inl e"
    by (auto simp: s3_list_ready_def) (metis Inl_Inr_False)
  with s3_list_spec [of X catalog left n "\<lparr>opt_limit = Some n, opt_start_after = c\<rparr>" sb w] n
  obtain b' where "s3_list X sb \<lparr>opt_limit = Some n, opt_start_after = c\<rparr> w =
      Some (Inr (take n (filter (after_cursor c) (s3_entries catalog sb (store w)))), w\<lparr>w_s3 := b'\<rparr>)"
    "catalog b' = catalog (w_s3 w)" by auto
  with ready show "\<exists>w'. be_list (s3_backend X sb) \<lparr>opt_limit = Some n, opt_start_after = c\<rparr> w =
        Some (Inr (take n (filter (after_cursor c) (s3_entries catalog sb (store w)))), w') \<and>
      s3_list_ready X catalog left (store w') \<and> s3_entries catalog sb (store w') = s3_entries catalog sb (store w)"
    by (auto simp: s3_list_ready_def s3_entries_def store_def)
next
  fix st :: "fsys \<times> 'b"
  assume "s3_list_ready X catalog left st"
  then show "by_name (s3_entries catalog sb st)"
    by (simp add: s3_list_ready_def s3_entries_def lists_ok_def by_name_entries)
qed

lemma set_s3_entries:
  "e \<in> set (s3_entries catalog sb st) \<longleftrightarrow>
     (\<exists>obj \<in> set (catalog (snd st) (sb_bucket sb)). s3_entry sb obj = Some e)"
  by (force simp: s3_entries_def List.map_filter_def)

lemma s3_entries_names:
  "fe_name ` set (s3_entries catalog sb st) =
     {name. name \<noteq> [] \<and> CHR ''/'' \<notin> set name \<and>
            (\<exists>obj \<in> set (catalog (snd st) (sb_bucket sb)). ob_key obj = Some (s3_key sb name))}"
proof (intro set_eqI iffI)
  fix name assume "name \<in> fe_name ` set (s3_entries catalog sb st)"
  then show "name \<in> {name. name \<noteq> [] \<and> CHR ''/'' \<notin> set name \<and>
      (\<exists>obj \<in> set (catalog (snd st) (sb_bucket sb)). ob_key obj = Some (s3_key sb name))}"
    by (auto simp: set_s3_entries s3_entry_Some_iff)
next
  fix name assume "name \<in> {name. name \<noteq> [] \<and> CHR ''/'' \<notin> set name \<and>
      (\<exists>obj \<in> set (catalog (snd st) (sb_bucket sb)). ob_key obj = Some (s3_key sb name))}"
  then obtain obj where obj: "name \<noteq> []" "CHR ''/'' \<notin> set name"
    "obj \<in> set (catalog (snd st) (sb_bucket sb))" "ob_key obj = Some (s3_key sb name)" by blast
  then have "\<exists>e. s3_entry sb obj = Some e \<and> fe_name e = name"
    using s3_strip_prefix_key [of sb "s3_key sb name" name] by (simp add: s3_entry_def Let_def)
  with obj(3) show "name \<in> fe_name ` set (s3_entries catalog sb st)"
    unfolding image_iff Bex_def set_s3_entries by blast
qed

section \<open>The properties\<close>

text \<open>
  C24: a listing of the bucket always ends, however many pages the service splits it into, and
  when no page fails it is the first \<open>limit\<close> entries after the cursor of the whole listing of
  the prefix: one entry per object directly below the configured prefix (a name with no
  slash, the marker object of the prefix itself left out), by strictly increasing name. The
  only other outcome is the upstream error, and listing leaves both stores as they are.
\<close>
theorem s3_list_exact:
  assumes "lists_ok X catalog left" "0 < limit" "opt_limit opts = Some limit"
  shows "\<exists>es r w'. by_name es \<and>
    fe_name ` set es = {name. name \<noteq> [] \<and> CHR ''/'' \<notin> set name \<and>
      (\<exists>obj \<in> set (catalog (w_s3 w) (sb_bucket sb)). ob_key obj = Some (s3_key sb name))} \<and>
    s3_list X sb opts w = Some (r, w') \<and> w_fs w' = w_fs w \<and> catalog (w_s3 w') = catalog (w_s3 w) \<and>
    (r = Inr (take limit (filter (after_cursor (opt_start_after opts)) es)) \<or>
     (\<exists>m. r = Inl (Upstream m)) \<and> (\<exists>b req e. fst (x_s3_list X b req) = Inl e))"
proof -
  have "sorted_wrt (<) (map (the \<circ> ob_key) (catalog (w_s3 w) (sb_bucket sb)))"
    using assms(1) unfolding lists_ok_def by blast
  then have "by_name (s3_entries catalog sb (store w))"
    by (simp add: s3_entries_def store_def by_name_entries)
  moreover have "fe_name ` set (s3_entries catalog sb (store w)) =
      {name. name \<noteq> [] \<and> CHR ''/'' \<notin> set name \<and>
        (\<exists>obj \<in> set (catalog (w_s3 w) (sb_bucket sb)). ob_key obj = Some (s3_key sb name))}"
    by (simp add: s3_entries_names store_def)
  ultimately show ?thesis
    using s3_list_spec [OF assms, of sb w]
    by (elim exE conjE) (intro exI conjI, assumption+, simp_all)
qed

lemma s3_list_exact_witness:
  "\<exists>es r w'. s3_list demo demo_s3 \<lparr>opt_limit = Some 5, opt_start_after = None\<rparr> demo_world = Some (r, w') \<and>
    r = Inr (take 5 es) \<and> fe_name ` set es = {''c.txt''}"
proof -
  have "{name. name \<noteq> [] \<and> CHR ''/'' \<notin> set name \<and>
      (\<exists>obj \<in> set (demo_catalog (w_s3 demo_world) (sb_bucket demo_s3)). ob_key obj = Some (s3_key demo_s3 name))}
      = {''c.txt''}"
    by (auto simp: demo_catalog_def demo_world_def demo_bucket_def demo_s3_def s3_key_def ends_with_char_def)
  with s3_list_exact [OF demo_lists, of 5 "\<lparr>opt_limit = Some 5, opt_start_after = None\<rparr>" demo_world demo_s3]
  show ?thesis by (auto simp: demo_list_def Let_def)
qed



end
