(* ===== verification/S3Properties.thy ===== *)
theory S3Properties
  imports S3Listing
begin

text \<open>
  What the S3 backend guarantees on its own: the mapping between paths and keys of the
  configured prefix, and that an uploaded object reads back while every other object stays.
\<close>

text \<open>
  C26: paths and keys below the configured prefix correspond one to one: stripping the prefix
  is the inverse of building the key (with or without a trailing slash in the
  configuration), a key outside the prefix has no path, and different paths never share a key.
\<close>
theorem s3_key_roundtrip:
  "s3_strip_prefix sb (s3_key sb p) = Some p \<and>
   (s3_strip_prefix sb key = Some q \<longleftrightarrow> s3_key sb q = key) \<and>
   (s3_strip_prefix sb key = None \<longleftrightarrow> key \<notin> range (s3_key sb)) \<and>
   (s3_key sb p = s3_key sb q \<longleftrightarrow> p = q)"
proof (intro conjI)
  show "s3_strip_prefix sb (s3_key sb p) = Some p" by (simp add: s3_strip_prefix_key)
  show "s3_strip_prefix sb key = Some q \<longleftrightarrow> s3_key sb q = key"
    using s3_strip_prefix_key [of sb key q] by auto
  show "s3_strip_prefix sb key = None \<longleftrightarrow> key \<notin> range (s3_key sb)"
    using s3_strip_prefix_key [of sb key] by (metis image_iff not_Some_eq UNIV_I)
  show "s3_key sb p = s3_key sb q \<longleftrightarrow> p = q" using s3_key_inj by blast
qed

lemma s3_write_stored:
  assumes "object_store_ok X objects" "io_copy_ok X" "s3_write_all X sb p rd h w = (Inr (), w')"
  shows "\<not> faulty rd \<and> objects (w_s3 w') =
    (objects (w_s3 w))(sb_bucket sb := (objects (w_s3 w) (sb_bucket sb))(s3_key sb p \<mapsto> payload rd))"
proof -
  obtain data body b' where wr: "x_io_copy X rd = (data, None)" "x_byte_stream X data = Inr body"
    "x_s3_put X (w_s3 w) (sb_bucket sb) (s3_key sb p) body = (Inr (), b')" "w' = w\<lparr>w_s3 := b'\<rparr>"
    using s3_write_all_Inr [OF assms(3)] by blast
  have data: "\<not> faulty rd" "data = payload rd" using io_copy_okD [OF assms(2) wr(1)] by auto
  have "body = data" using assms(1) wr(2) unfolding object_store_ok_def by blast
  moreover have "fst (x_s3_put X (w_s3 w) (sb_bucket sb) (s3_key sb p) body) = Inr ()"
    "snd (x_s3_put X (w_s3 w) (sb_bucket sb) (s3_key sb p) body) = b'" using wr(3) by simp_all
  then have "objects b' = (objects (w_s3 w))
      (sb_bucket sb := (objects (w_s3 w) (sb_bucket sb))(s3_key sb p \<mapsto> body))"
    using assms(1) unfolding object_store_ok_def by blast
  ultimately show ?thesis using data wr(4) by simp
qed

text \<open>
  C27: after a write of the S3 backend that succeeds, the object at the path is exactly the
  bytes the source delivered (which ended without an error), every other object of every bucket is
  unchanged, and a read of the path that reaches its end delivers those bytes; a read never
  delivers anything but a prefix of them.
\<close>
theorem s3_write_then_read:
  assumes "object_store_ok X objects" "io_copy_ok X" "s3_write_all X sb p rd h w = (Inr (), w')"
    and "s3_open_read X sb p w' = (Inr rd', w'')"
  shows "\<not> faulty rd \<and> objects (w_s3 w') (sb_bucket sb) (s3_key sb p) = Some (payload rd) \<and>
    (\<forall>bucket key. (bucket, key) \<noteq> (sb_bucket sb, s3_key sb p) \<longrightarrow>
       objects (w_s3 w') bucket key = objects (w_s3 w) bucket key) \<and>
    prefix (payload rd') (payload rd) \<and> (\<not> faulty rd' \<longrightarrow> payload rd' = payload rd) \<and>
    objects (w_s3 w'') = objects (w_s3 w')"
proof -
  note wr = s3_write_stored [OF assms(1-3)]
  have get: "fst (x_s3_get X (w_s3 w') (sb_bucket sb) (s3_key sb p)) = Inr rd'"
    using s3_open_read_Inr [OF assms(4)] .
  have "objects (w_s3 w'') = objects (w_s3 w')"
    using s3_open_read_world(2) [of X sb p w'] assms(1,4) by (simp add: object_store_ok_def)
  with wr object_store_get(2) [OF assms(1) get] show ?thesis by auto
qed

lemma s3_write_then_read_witness:
  "\<exists>w' w''. s3_write_all demo demo_s3 ''n.txt'' [(0, Bytes ''hi'')] None demo_world = (Inr (), w') \<and>
     s3_open_read demo demo_s3 ''n.txt'' w' = (Inr [(0, Bytes ''hi'')], w'') \<and>
     demo_objects (w_s3 w') ''files'' ''in/n.txt'' = Some ''hi''"
proof -
  let ?w' = "demo_world\<lparr>w_s3 := [((''files'', ''in/c.txt''), ''hi''), ((''files'', ''in/n.txt''), ''hi'')]\<rparr>"
  have key: "s3_key demo_s3 ''n.txt'' = ''in/n.txt''" "sb_bucket demo_s3 = ''files''"
    by (simp_all add: s3_key_def demo_s3_def ends_with_char_def)
  have wr: "s3_write_all demo demo_s3 ''n.txt'' [(0, Bytes ''hi'')] None demo_world = (Inr (), ?w')"
    by (simp add: s3_write_all_def key demo_put_def demo_world_def demo_bucket_def)
  have rd: "s3_open_read demo demo_s3 ''n.txt'' ?w' = (Inr [(0, Bytes ''hi'')], ?w')"
    by (simp add: s3_open_read_def key demo_get_def demo_reader_def)
  from s3_write_then_read [OF demo_object_store demo_io_copy wr rd] wr rd key show ?thesis by auto
qed

end
