(* ===== verification/ConfigProperties.thy ===== *)
theory ConfigProperties
  imports BootWarnings
begin

text \<open>
  What a loaded configuration satisfies and when loading fails, that no secret reaches the
  \<open>Debug\<close> output, the doctor's report or the boot warnings, and the table of the warnings.
\<close>

section \<open>A loaded configuration\<close>

text \<open>Every secret is the non-empty value of an environment variable, and the key prefix is safe.\<close>

definition secret_from :: "environment \<Rightarrow> string \<Rightarrow> bool" where
  "secret_from env v \<longleftrightarrow> v \<noteq> [] \<and> (\<exists>name. env name = Some v)"

definition s3_config_ok :: "environment \<Rightarrow> S3Config \<Rightarrow> bool" where
  "s3_config_ok env c \<longleftrightarrow> secret_from env (sc_access_key_id c) \<and> secret_from env (sc_secret_access_key c) \<and>
     \<not> contains ''..'' (sc_bucket_path c) \<and> \<not> starts_with ''/'' (sc_bucket_path c)"

definition config_ok :: "environment \<Rightarrow> AppConfig \<Rightarrow> bool" where
  "config_ok env c \<longleftrightarrow> ac_cors_origin c = [] \<and>
     pred_option (secret_from env) (inter_service_token (ac_security c)) \<and>
     pred_option (s3_config_ok env) (ac_s3 c) \<and>
     (admin_enabled (ac_security c) \<longleftrightarrow> admin_enabled_from_env env)"

lemma require_env_Inr: "require_env env name = Inr v \<longleftrightarrow> env name = Some v \<and> v \<noteq> []"
  by (auto simp: require_env_def split: option.split)

lemma require_env_Inl: "(\<exists>e. require_env env name = Inl e) \<longleftrightarrow> env name = None \<or> env name = Some []"
  by (auto simp: require_env_def split: option.split)

lemma s3_config_validate_Inr:
  "s3_config_validate c = Inr () \<longleftrightarrow> \<not> contains ''..'' (sc_bucket_path c) \<and> \<not> starts_with ''/'' (sc_bucket_path c)"
  by (auto simp: s3_config_validate_def)

lemma security_from_yaml_Inr:
  "security_from_yaml env y = Inr sec \<Longrightarrow>
     pred_option (secret_from env) (inter_service_token sec) \<and>
     admin_enabled sec = admin_enabled_from_env env"
  by (auto simp: security_from_yaml_def security_default_def secret_from_def require_env_def
      dest!: sym [of "Some _"] split: option.splits sum.splits if_splits)

lemma s3_from_yaml_Inr:
  assumes "s3_from_yaml env y = Inr c"
  shows "s3_config_ok env c"
proof -
  obtain k v where kv: "require_env env (y_access_key_id_env y) = Inr k"
    "require_env env (y_secret_access_key_env y) = Inr v"
    "sc_access_key_id c = k" "sc_secret_access_key c = v" "s3_config_validate c = Inr ()"
    using assms by (auto simp: s3_from_yaml_def Let_def split: sum.splits)
  then show ?thesis
    by (auto simp: s3_config_ok_def secret_from_def require_env_Inr s3_config_validate_Inr)
qed

lemma from_yaml_ok:
  assumes "from_yaml env y = Inr cfg"
  shows "config_ok env cfg"
proof -
  obtain sec where sec: "security_from_yaml env (y_security y) = Inr sec"
    using assms by (auto simp: from_yaml_def split: sum.splits)
  with assms security_from_yaml_Inr [OF sec] show ?thesis
    by (auto simp: from_yaml_def Let_def config_ok_def split: sum.splits option.splits if_splits
        dest: s3_from_yaml_Inr)
qed

lemma load_config_ok:
  assumes "fst (load_config env parse_yaml s path) = Inr cfg"
  shows "config_ok env cfg"
  using assms from_yaml_ok [of env _ cfg]
  by (auto simp: load_config_def Let_def config_ok_def config_default_def security_default_def
      split: option.splits sum.splits)

text \<open>
  C34: whatever configuration file is loaded, or none, a configuration the program starts with
  has no CORS origin (which this build does not implement), takes the token and the S3
  credentials from non-empty environment variables only, has a key prefix without \<open>..\<close> that does not start
  with a slash, and enables the admin routes exactly when the environment says so, never the file.
\<close>
theorem loaded_config_ok:
  assumes "fst (load_config env parse_yaml s path) = Inr cfg"
  shows "ac_cors_origin cfg = [] \<and>
    pred_option (\<lambda>t. t \<noteq> [] \<and> (\<exists>name. env name = Some t)) (inter_service_token (ac_security cfg)) \<and>
    pred_option (\<lambda>c. sc_access_key_id c \<noteq> [] \<and> sc_secret_access_key c \<noteq> [] \<and>
        (\<exists>name. env name = Some (sc_access_key_id c)) \<and> (\<exists>name. env name = Some (sc_secret_access_key c)) \<and>
        \<not> contains ''..'' (sc_bucket_path c) \<and> \<not> starts_with ''/'' (sc_bucket_path c)) (ac_s3 cfg) \<and>
    (admin_enabled (ac_security cfg) \<longleftrightarrow> admin_enabled_from_env env)"
  using load_config_ok [OF assms]
  by (auto simp: config_ok_def s3_config_ok_def secret_from_def elim!: option.pred_mono_strong)

definition sample_yaml :: AppConfigYaml where
  "sample_yaml =
     \<lparr>y_port = Some 9000, y_documentation_enabled = None, y_cors_origin = None, y_fs = None,
      y_s3 = Some \<lparr>y_region = ''eu'', y_endpoint_url = [], y_bucket = ''files'', y_bucket_path = ''in'',
                   y_access_key_id_env = ''KEY'', y_secret_access_key_env = ''SECRET''\<rparr>,
      y_limits = None,
      y_security = Some \<lparr>y_inter_service_token_env = Some ''TOKEN'', y_trust_network = None\<rparr>\<rparr>"

definition sample_env :: environment where
  "sample_env = [''KEY'' \<mapsto> ''k'', ''SECRET'' \<mapsto> ''s'', ''TOKEN'' \<mapsto> ''t'']"

definition sample_fs :: fsys where
  "sample_fs = \<lparr>nodes = [([''c.yaml''], File ''port: 9000'' 0)], cwd = [], now = 0, fault = (\<lambda>call kp. None)\<rparr>"

lemma sample_loads:
  "\<exists>cfg. fst (load_config sample_env (\<lambda>text. Inr sample_yaml) sample_fs (Some ''/c.yaml'')) = Inr cfg \<and>
     inter_service_token (ac_security cfg) = Some ''t'' \<and> ac_port cfg = 9000"
proof -
  have "read_to_string sample_fs (kpath_of ''/c.yaml'') = Inr ''port: 9000''" by code_simp
  then show ?thesis
    by (simp add: load_config_def resolve_path_def from_yaml_def security_from_yaml_def sample_yaml_def
        sample_env_def require_env_def s3_from_yaml_def s3_config_validate_def contains_iff starts_with_def
        config_default_def Let_def) (auto simp: Cons_eq_append_conv)
qed

lemma loaded_config_ok_witness:
  "\<exists>cfg. fst (load_config sample_env (\<lambda>text. Inr sample_yaml) sample_fs (Some ''/c.yaml'')) = Inr cfg \<and>
     ac_cors_origin cfg = []"
  using sample_loads loaded_config_ok by blast

section \<open>When loading fails\<close>

definition missing :: "environment \<Rightarrow> string \<Rightarrow> bool" where
  "missing env name \<longleftrightarrow> env name = None \<or> env name = Some []"

lemma require_token_Inl: "(\<exists>e. map_sum id Some (require_env env name) = Inl e) \<longleftrightarrow> missing env name"
  by (auto simp: require_env_def missing_def split: option.split)

lemma security_from_yaml_Inl:
  "(\<exists>e. security_from_yaml env y = Inl e) \<longleftrightarrow>
     (\<exists>s name. y = Some s \<and> y_inter_service_token_env s = Some name \<and> name \<noteq> [] \<and> missing env name)"
proof (cases y)
  case (Some s)
  show ?thesis
  proof (cases "y_inter_service_token_env s")
    case (Some name)
    with \<open>y = Some s\<close> require_token_Inl [of env name] show ?thesis
      by (cases "map_sum id Some (require_env env name)") (auto simp: security_from_yaml_def)
  qed (simp add: Some security_from_yaml_def)
qed (simp add: security_from_yaml_def)

lemma s3_from_yaml_Inl:
  "(\<exists>e. s3_from_yaml env y = Inl e) \<longleftrightarrow>
     missing env (y_access_key_id_env y) \<or> missing env (y_secret_access_key_env y) \<or>
     contains ''..'' (y_bucket_path y) \<or> starts_with ''/'' (y_bucket_path y)"
  by (auto simp: s3_from_yaml_def Let_def missing_def require_env_def s3_config_validate_def
      split: option.splits sum.splits if_splits)

text \<open>
  C35: resolving a parsed file fails exactly when a named token variable, an S3 credential variable is unset
  or empty, the key prefix contains \<open>..\<close> or starts with a slash, or a CORS origin is set; every other
  file is accepted, so the service never starts open because a token was misnamed.
\<close>
theorem from_yaml_fails_iff:
  "(\<exists>e. from_yaml env y = Inl e) \<longleftrightarrow>
     (\<exists>s name. y_security y = Some s \<and> y_inter_service_token_env s = Some name \<and> name \<noteq> [] \<and>
        (env name = None \<or> env name = Some [])) \<or>
     (\<exists>c. y_s3 y = Some c \<and>
        (env (y_access_key_id_env c) \<in> {None, Some []} \<or> env (y_secret_access_key_env c) \<in> {None, Some []} \<or>
         contains ''..'' (y_bucket_path c) \<or> starts_with ''/'' (y_bucket_path c))) \<or>
     (\<exists>c cs. y_cors_origin y = Some (c # cs))"
proof (cases "security_from_yaml env (y_security y)")
  case (Inl e)
  with security_from_yaml_Inl [of env "y_security y"] show ?thesis
    by (auto simp: from_yaml_def missing_def)
next
  case (Inr sec)
  with security_from_yaml_Inl [of env "y_security y"] have no_token:
    "\<not> (\<exists>s name. y_security y = Some s \<and> y_inter_service_token_env s = Some name \<and> name \<noteq> [] \<and>
        (env name = None \<or> env name = Some []))"
    by (auto simp: missing_def)
  have cors: "unwrap_or (y_cors_origin y) [] \<noteq> [] \<longleftrightarrow> (\<exists>c cs. y_cors_origin y = Some (c # cs))"
    by (cases "y_cors_origin y") (auto simp: neq_Nil_conv)
  have origin: "ac_cors_origin config_default = []" by (simp add: config_default_def)
  show ?thesis
  proof (cases "y_s3 y")
    case None
    with Inr no_token cors show ?thesis by (auto simp: from_yaml_def Let_def origin)
  next
    case (Some c)
    with Inr no_token cors s3_from_yaml_Inl [of env c] show ?thesis
      by (cases "s3_from_yaml env c") (auto simp: from_yaml_def Let_def missing_def origin)
  qed
qed

section \<open>Secrets\<close>

text \<open>The configuration with every secret replaced.\<close>

definition map_secrets :: "(string \<Rightarrow> string) \<Rightarrow> AppConfig \<Rightarrow> AppConfig" where
  "map_secrets f c = c
     \<lparr>ac_s3 := map_option (\<lambda>s3. s3\<lparr>sc_access_key_id := f (sc_access_key_id s3),
                                  sc_secret_access_key := f (sc_secret_access_key s3)\<rparr>) (ac_s3 c),
      ac_security := (ac_security c)
        \<lparr>inter_service_token := map_option f (inter_service_token (ac_security c))\<rparr>\<rparr>"

lemma map_secrets_simps [simp]:
  "ac_port (map_secrets f c) = ac_port c" "ac_limits (map_secrets f c) = ac_limits c"
  "ac_fs (map_secrets f c) = ac_fs c" "ac_cors_origin (map_secrets f c) = ac_cors_origin c"
  "ac_documentation_enabled (map_secrets f c) = ac_documentation_enabled c"
  "trust_network (ac_security (map_secrets f c)) = trust_network (ac_security c)"
  "admin_enabled (ac_security (map_secrets f c)) = admin_enabled (ac_security c)"
  "inter_service_token (ac_security (map_secrets f c)) = map_option f (inter_service_token (ac_security c))"
  "ac_s3 (map_secrets f c) = None \<longleftrightarrow> ac_s3 c = None"
  by (simp_all add: map_secrets_def)

lemma checks_map_secrets:
  "check_unauth_non_loopback (map_secrets f c) addr = check_unauth_non_loopback c addr"
  "check_trust_network_without_token (map_secrets f c) = check_trust_network_without_token c"
  "check_admin_enabled_on_non_loopback (map_secrets f c) addr = check_admin_enabled_on_non_loopback c addr"
  "check_documentation_enabled_on_non_loopback (map_secrets f c) addr =
     check_documentation_enabled_on_non_loopback c addr"
  "check_copy_inactivity_too_generous (map_secrets f c) = check_copy_inactivity_too_generous c"
  "check_max_request_bytes_unusually_large (map_secrets f c) = check_max_request_bytes_unusually_large c"
  by (simp_all only: check_unauth_non_loopback_def check_trust_network_without_token_def
      check_admin_enabled_on_non_loopback_def check_documentation_enabled_on_non_loopback_def
      check_copy_inactivity_too_generous_def check_max_request_bytes_unusually_large_def
      map_secrets_simps option.map_disc_iff)

lemma preflight_map_secrets: "preflight (map_secrets f c) addr = preflight c addr"
  by (simp only: preflight_def checks_map_secrets)

text \<open>
  C36: no secret is ever shown: the \<open>Debug\<close> output of the configuration, the doctor's report and
  the boot warnings are the same whatever the token, the access key and the secret key are.
\<close>
theorem secrets_are_never_shown:
  "debug_app_config (map_secrets f c) = debug_app_config c \<and>
   write_report (map_secrets f c) addr = write_report c addr \<and>
   log_preflight (map_secrets f c) addr = log_preflight c addr"
proof (intro conjI)
  show "debug_app_config (map_secrets f c) = debug_app_config c"
    by (simp add: debug_app_config_def debug_security_config_def debug_opt_def debug_s3_config_def
        option.map_comp comp_def map_secrets_def split: option.split)
  show "write_report (map_secrets f c) addr = write_report c addr"
    by (simp only: write_report_def preflight_map_secrets map_secrets_simps option.map_disc_iff)
  show "log_preflight (map_secrets f c) addr = log_preflight c addr"
    by (simp only: log_preflight_def preflight_map_secrets)
qed

section \<open>The table of warnings\<close>

text \<open>A check \<open>ch\<close> warns exactly under \<open>b\<close>, with identifier \<open>i\<close>.\<close>

definition row :: "BootWarning option \<Rightarrow> string \<times> bool \<Rightarrow> bool" where
  "row ch ib = (case ch of
      None \<Rightarrow> \<not> snd ib
    | Some bw \<Rightarrow> snd ib \<and> bw_id bw = fst ib \<and> starts_with (''['' @ fst ib @ '']'') (bw_message bw))"

lemma rows:
  assumes "list_all2 row checks table"
  shows "map bw_id (List.map_filter id checks) = map fst (filter snd table) \<and>
    list_all (\<lambda>bw. starts_with (''['' @ bw_id bw @ '']'') (bw_message bw)) (List.map_filter id checks)"
  using assms
proof (induction rule: list_all2_induct)
  case (Cons ch checks ib table)
  then show ?case by (cases ch) (simp_all add: row_def List.map_filter_simps)
qed (simp add: List.map_filter_simps)

lemma tagged: "starts_with (''['' @ i @ '']'') m" if "m = ''['' @ i @ '']'' @ r"
  using that starts_with_append [of "''['' @ i @ '']''" r] by simp

lemma check_rows:
  "row (check_unauth_non_loopback c addr)
     (''W-1'', \<not> is_loopback (sa_ip addr) \<and> inter_service_token (ac_security c) = None \<and>
        \<not> trust_network (ac_security c))"
  "row (check_trust_network_without_token c)
     (''W-2'', inter_service_token (ac_security c) = None \<and> trust_network (ac_security c))"
  "row (check_admin_enabled_on_non_loopback c addr)
     (''W-3'', \<not> is_loopback (sa_ip addr) \<and> admin_enabled (ac_security c))"
  "row (check_documentation_enabled_on_non_loopback c addr)
     (''W-4'', \<not> is_loopback (sa_ip addr) \<and> ac_documentation_enabled c \<and> \<not> admin_enabled (ac_security c))"
  "row (check_copy_inactivity_too_generous c) (''W-5'', 300 < copy_inactivity_secs (ac_limits c))"
  "row (check_max_request_bytes_unusually_large c) (''W-6'', 104857600 < max_request_bytes (ac_limits c))"
  unfolding check_unauth_non_loopback_def check_trust_network_without_token_def
      check_admin_enabled_on_non_loopback_def check_documentation_enabled_on_non_loopback_def
      check_copy_inactivity_too_generous_def check_max_request_bytes_unusually_large_def
      COPY_INACTIVITY_WARN_CEILING_SECS_def MAX_REQUEST_BYTES_WARN_CEILING_def row_def starts_with_def Let_def
  by (simp_all add: not_le) blast+

text \<open>
  C37: the boot warnings are those of a table: \<open>W-1\<close> to \<open>W-6\<close> in this order, each exactly under its own
  condition on the configuration and the bind address, and every message starts with its identifier in
  brackets.
\<close>
theorem preflight_table:
  "map bw_id (preflight c addr) = map fst (filter snd
     [(''W-1'', \<not> is_loopback (sa_ip addr) \<and> inter_service_token (ac_security c) = None \<and>
                \<not> trust_network (ac_security c)),
      (''W-2'', inter_service_token (ac_security c) = None \<and> trust_network (ac_security c)),
      (''W-3'', \<not> is_loopback (sa_ip addr) \<and> admin_enabled (ac_security c)),
      (''W-4'', \<not> is_loopback (sa_ip addr) \<and> ac_documentation_enabled c \<and> \<not> admin_enabled (ac_security c)),
      (''W-5'', 300 < copy_inactivity_secs (ac_limits c)),
      (''W-6'', 104857600 < max_request_bytes (ac_limits c))]) \<and>
   list_all (\<lambda>bw. starts_with (''['' @ bw_id bw @ '']'') (bw_message bw)) (preflight c addr)"
  unfolding preflight_def by (rule rows) (simp only: list_all2_Cons list_all2_Nil check_rows simp_thms)

text \<open>
  The exit code of \<open>fileferry doctor\<close>: 2 when the configuration does not load or the report cannot be
  written, else 1 when a warning applies to the address the service would bind, else 0; the
  report ends with a line that names the same code.
\<close>
theorem doctor_exit_code:
  "fst (doctor_run loaded stdout) =
     (case loaded of
        Inl e \<Rightarrow> 2
      | Inr c \<Rightarrow> if stdout (fst (write_report c (doctor_addr c))) \<noteq> None then 2
                 else if preflight c (doctor_addr c) = [] then 0 else 1) \<and>
   last (fst (write_report c addr)) =
     ''Exit code: '' @ (if preflight c addr = [] then ''0'' else ''1'') @ '' ('' @
       dec (length (preflight c addr)) @ '' warning(s))''"
proof (intro conjI)
  have n: "snd (write_report c addr) = length (preflight c addr)" for c addr
    by (simp only: write_report_def Let_def snd_conv)
  show "fst (doctor_run loaded stdout) =
     (case loaded of
        Inl e \<Rightarrow> 2
      | Inr c \<Rightarrow> if stdout (fst (write_report c (doctor_addr c))) \<noteq> None then 2
                 else if preflight c (doctor_addr c) = [] then 0 else 1)"
  proof (cases loaded)
    case (Inr c)
    obtain report k where "write_report c (doctor_addr c) = (report, k)" by fastforce
    with Inr n [of c "doctor_addr c"] show ?thesis
      by (cases "stdout report") (simp_all add: doctor_run_def)
  qed (simp add: doctor_run_def)
  show "last (fst (write_report c addr)) =
     ''Exit code: '' @ (if preflight c addr = [] then ''0'' else ''1'') @ '' ('' @
       dec (length (preflight c addr)) @ '' warning(s))''"
    unfolding write_report_def Let_def fst_conv append_assoc last_appendR by simp
qed

end
