(* ===== verification/ServerProperties.thy ===== *)
theory ServerProperties
  imports Service Startup S3Listing ConfigProperties
begin

text \<open>
  The program from its command line to its shutdown: when it starts and with what, that every
  request of a running server is answered, what the answers and the log have in common, and
  that offline mode keeps the bucket out of reach.
\<close>

section \<open>Starting\<close>

lemma diagnose_never_panics: "diagnose cfg = Some []"
  by (simp add: diagnose_def UNWIRED_def)

lemma select_s3_Inr:
  "\<exists>s3 evs. select_s3 X env cfg = (Inr s3, evs) \<and> (s3 = None \<longleftrightarrow> ac_s3 cfg = None) \<and>
     (if offline_from_env env then s3 = None \<or> s3 = Some (offline_backend S3)
      else s3 = map_option (\<lambda>c. s3_backend X (projr (s3_backend_new c))) (ac_s3 cfg))"
  by (cases "ac_s3 cfg") (simp_all add: select_s3_def s3_backend_new_def Let_def)

text \<open>The outcome of \<open>boot\<close>, in one equation.\<close>

lemma boot_cases:
  obtains (not_loaded) e where "fst (load_config env parse_yaml (w_fs w) (parse_config_arg argv)) = Inl e"
      "\<exists>e. fst (boot X env parse_yaml bind argv w) = Inl e"
    | (no_directory) cfg e where
      "fst (load_config env parse_yaml (w_fs w) (parse_config_arg argv)) = Inr cfg"
      "fst (create_dir_all (w_fs w) (components (fc_data_directory (ac_fs cfg)))) = Inl e"
      "\<exists>e. fst (boot X env parse_yaml bind argv w) = Inl e"
    | (not_bound) cfg e where
      "fst (load_config env parse_yaml (w_fs w) (parse_config_arg argv)) = Inr cfg"
      "bind (doctor_addr cfg) = Some e" "\<exists>e. fst (boot X env parse_yaml bind argv w) = Inl e"
    | (started) cfg s3 s' w' where
      "fst (load_config env parse_yaml (w_fs w) (parse_config_arg argv)) = Inr cfg"
      "create_dir_all (w_fs w) (components (fc_data_directory (ac_fs cfg))) = (Inr (), s')"
      "bind (doctor_addr cfg) = None" "fst (select_s3 X env cfg) = Inr s3"
      "boot X env parse_yaml bind argv w =
         (Inr \<lparr>st_backends = \<lparr>bs_fs = fs_backend X (fc_data_directory (ac_fs cfg)), bs_s3 = s3\<rparr>,
               st_config = cfg\<rparr>, w')"
      "w_s3 w' = w_s3 w" "w_fs w' = s'"
proof -
  obtain loaded evs1 where load: "load_config env parse_yaml (w_fs w) (parse_config_arg argv) = (loaded, evs1)"
    by fastforce
  show ?thesis
  proof (cases loaded)
    case (Inl e)
    with load show ?thesis by (intro not_loaded [of e]) (simp_all add: boot_def)
  next
    case cfg: (Inr cfg)
    obtain made s' where made: "create_dir_all (w_fs w) (components (fc_data_directory (ac_fs cfg))) = (made, s')"
      by fastforce
    show ?thesis
    proof (cases made)
      case (Inl e)
      with load cfg made show ?thesis
        by (intro no_directory [of cfg e]) (simp_all add: boot_def diagnose_never_panics fs_backend_new_def Let_def)
    next
      case (Inr u)
      obtain s3 evs3 where s3: "select_s3 X env cfg = (Inr s3, evs3)" using select_s3_Inr by metis
      show ?thesis
      proof (cases "bind (doctor_addr cfg)")
        case (Some e)
        with load cfg made Inr s3 show ?thesis
          by (intro not_bound [of cfg e])
            (simp_all add: boot_def diagnose_never_panics fs_backend_new_def Let_def)
      next
        case None
        with load cfg made Inr s3 show ?thesis
          by (intro started [of cfg s' s3 "snd (boot X env parse_yaml bind argv w)"])
            (simp_all add: boot_def diagnose_never_panics fs_backend_new_def Let_def)
      qed
    qed
  qed
qed

text \<open>
  C32: the service starts exactly when its configuration loads, its data directory exists or
  can be made and its address can be bound; nothing else keeps it from starting.
\<close>
theorem boot_succeeds_iff:
  "(\<exists>st. fst (boot X env parse_yaml bind argv w) = Inr st) \<longleftrightarrow>
     (\<exists>cfg. fst (load_config env parse_yaml (w_fs w) (parse_config_arg argv)) = Inr cfg \<and>
        fst (create_dir_all (w_fs w) (components (fc_data_directory (ac_fs cfg)))) = Inr () \<and>
        bind (doctor_addr cfg) = None)"
  by (cases rule: boot_cases [of env parse_yaml w argv X bind]) auto

lemma boot_state:
  assumes "boot X env parse_yaml bind argv w = (Inr st, w')"
  shows "fst (load_config env parse_yaml (w_fs w) (parse_config_arg argv)) = Inr (st_config st) \<and>
    bs_fs (st_backends st) = fs_backend X (fc_data_directory (ac_fs (st_config st))) \<and>
    (bs_s3 (st_backends st) = None \<longleftrightarrow> ac_s3 (st_config st) = None) \<and>
    bs_s3 (st_backends st) =
      map_option (\<lambda>c. if offline_from_env env then offline_backend S3
                       else s3_backend X (projr (s3_backend_new c))) (ac_s3 (st_config st)) \<and>
    wired X (st_backends st) \<and> w_s3 w' = w_s3 w"
proof (cases rule: boot_cases [of env parse_yaml w argv X bind])
  case (started cfg s3 s' w1)
  then have st: "st = \<lparr>st_backends = \<lparr>bs_fs = fs_backend X (fc_data_directory (ac_fs cfg)), bs_s3 = s3\<rparr>,
      st_config = cfg\<rparr>" "w' = w1" using assms by simp_all
  have s3: "s3 = map_option (\<lambda>c. if offline_from_env env then offline_backend S3
      else s3_backend X (projr (s3_backend_new c))) (ac_s3 cfg)"
    using started(4) by (cases "ac_s3 cfg") (auto simp: select_s3_def s3_backend_new_def Let_def split: if_splits)
  then have "wired X \<lparr>bs_fs = fs_backend X (fc_data_directory (ac_fs cfg)), bs_s3 = s3\<rparr>"
    by (cases "ac_s3 cfg") (auto simp: wired_def)
  with s3 st started(1,6) show ?thesis by simp
qed (use assms in auto)

text \<open>
  The state a service with that configuration runs with, and that \<open>boot\<close> returns exactly this one.
\<close>

definition app_state_of :: "'b externs \<Rightarrow> environment \<Rightarrow> AppConfig \<Rightarrow> 'b app_state" where
  "app_state_of X env cfg =
     \<lparr>st_backends = \<lparr>bs_fs = fs_backend X (fc_data_directory (ac_fs cfg)),
        bs_s3 = (case fst (select_s3 X env cfg) of Inl e \<Rightarrow> None | Inr s3 \<Rightarrow> s3)\<rparr>, st_config = cfg\<rparr>"

lemma app_state_of_simps [simp]:
  "st_config (app_state_of X env cfg) = cfg"
  "bs_fs (st_backends (app_state_of X env cfg)) = fs_backend X (fc_data_directory (ac_fs cfg))"
  by (simp_all add: app_state_of_def)

lemma app_state_of_s3:
  "bs_s3 (st_backends (app_state_of X env cfg)) =
     map_option (\<lambda>c. if offline_from_env env then offline_backend S3
                      else s3_backend X (projr (s3_backend_new c))) (ac_s3 cfg)"
  by (cases "ac_s3 cfg") (simp_all add: app_state_of_def select_s3_def s3_backend_new_def Let_def)

lemma app_state_of_wired: "wired X (st_backends (app_state_of X env cfg))"
  by (cases "ac_s3 cfg") (auto simp: wired_def app_state_of_s3)

lemma boot_app_state:
  assumes "boot X env parse_yaml bind argv w = (Inr st, w')"
  shows "st = app_state_of X env (st_config st)" "w_s3 w' = w_s3 w"
    "create_dir_all (w_fs w) (components (fc_data_directory (ac_fs (st_config st)))) = (Inr (), w_fs w')"
proof -
  have "st = app_state_of X env (st_config st) \<and> w_s3 w' = w_s3 w \<and>
      create_dir_all (w_fs w) (components (fc_data_directory (ac_fs (st_config st)))) = (Inr (), w_fs w')"
    using assms by (cases rule: boot_cases [of env parse_yaml w argv X bind]) (auto simp: app_state_of_def)
  then show "st = app_state_of X env (st_config st)" "w_s3 w' = w_s3 w"
    "create_dir_all (w_fs w) (components (fc_data_directory (ac_fs (st_config st)))) = (Inr (), w_fs w')" by blast+
qed

text \<open>
  C31: a service that has started runs with the configuration that was loaded, its file-system
  backend rooted at the configured directory, an S3 backend exactly when one is configured, which under
  \<open>FILEFERRY_OFFLINE\<close> is the stub; starting has not touched the bucket.
\<close>
theorem boot_wires_configuration:
  assumes "boot X env parse_yaml bind argv w = (Inr st, w')"
  shows "fst (load_config env parse_yaml (w_fs w) (parse_config_arg argv)) = Inr (st_config st) \<and>
    bs_fs (st_backends st) = fs_backend X (fc_data_directory (ac_fs (st_config st))) \<and>
    (bs_s3 (st_backends st) = None \<longleftrightarrow> ac_s3 (st_config st) = None) \<and>
    bs_s3 (st_backends st) =
      map_option (\<lambda>c. if offline_from_env env then offline_backend S3
                       else s3_backend X (projr (s3_backend_new c))) (ac_s3 (st_config st)) \<and>
    wired X (st_backends st) \<and> w_s3 w' = w_s3 w"
  by (rule boot_state [OF assms])

text \<open>The demonstration starts without a configuration file, offline or not.\<close>

definition demo_boot :: "environment \<Rightarrow> (string + bucket app_state) \<times> bucket world" where
  "demo_boot env = boot demo env (\<lambda>text. Inl ''no parser'') (\<lambda>addr. None) [''fileferry''] demo_world"

lemma demo_loads:
  assumes "env ''FILEFERRY_CONFIG'' = None"
  shows "fst (load_config env parse_yaml demo_fs None) =
    Inr (config_default\<lparr>ac_security := security_default\<lparr>admin_enabled := admin_enabled_from_env env\<rparr>\<rparr>)"
proof -
  have "path_exists demo_fs (kpath_of ''./fileferry.yaml'') = False" by code_simp
  then show ?thesis by (simp add: load_config_def resolve_path_def assms Let_def)
qed

lemma demo_directory: "create_dir_all demo_fs (components ''./data'') = (Inr (), demo_fs)"
proof -
  define cs where "cs = components ''./data''"
  obtain r s where m: "mkdir demo_fs (kpath_of_components cs) = (r, s)" by fastforce
  have "fst (mkdir demo_fs (kpath_of_components cs)) = Inl (Os EEXIST)" unfolding cs_def by code_simp
  with m have r: "r = Inl (Os EEXIST)" "s = demo_fs" by (auto elim: mkdir_cases)
  have "is_dir demo_fs (kpath_of_components cs)" "cs \<noteq> []" "\<not> kind_not_found (Os EEXIST)"
    unfolding cs_def by code_simp+
  with m r show ?thesis unfolding cs_def [symmetric] by (simp add: create_dir_all.simps [of demo_fs])
qed

lemma demo_starts:
  assumes "env ''FILEFERRY_CONFIG'' = None"
  shows "\<exists>st w'. demo_boot env = (Inr st, w')"
proof -
  have "\<exists>st. fst (demo_boot env) = Inr st"
    using demo_loads [where env = env, OF assms] demo_directory unfolding demo_boot_def
    by (cases rule: boot_cases [of env "\<lambda>text. Inl ''no parser''" demo_world "[''fileferry'']" demo "\<lambda>addr. None"])
      (auto simp: demo_world_def parse_config_arg_def config_default_def fs_default_def)
  then show ?thesis by (metis prod.collapse)
qed

lemma demo_started:
  assumes "env ''FILEFERRY_CONFIG'' = None" "demo_boot env = (Inr st, w')"
  shows "fc_data_directory (ac_fs (st_config st)) = ''./data''" "w_fs w' = demo_fs"
proof -
  have "fst (load_config env (\<lambda>text. Inl ''no parser'') demo_fs None) = Inr (st_config st)"
    using boot_state [OF assms(2) [unfolded demo_boot_def]] by (simp add: demo_world_def parse_config_arg_def)
  then show dir: "fc_data_directory (ac_fs (st_config st)) = ''./data''"
    using demo_loads [where env = env, OF assms(1), of "\<lambda>text. Inl ''no parser''"]
    by (simp add: config_default_def fs_default_def) (drule sym, simp)
  show "w_fs w' = demo_fs"
    using boot_app_state(3) [OF assms(2) [unfolded demo_boot_def]] dir demo_directory by (simp add: demo_world_def)
qed

lemma boot_wires_configuration_witness:
  "\<exists>st w'. demo_boot (\<lambda>name. None) = (Inr st, w') \<and> wired demo (st_backends st) \<and> w_s3 w' = demo_bucket"
proof -
  obtain st w' where b: "demo_boot (\<lambda>name. None) = (Inr st, w')"
    using demo_starts [of "\<lambda>name. None"] by auto
  from boot_wires_configuration [OF b [unfolded demo_boot_def]] b show ?thesis
    by (simp add: demo_world_def)
qed

section \<open>Answering\<close>

text \<open>A listing for a positive number of entries returns, whichever backend serves it.\<close>

definition list_returns :: "'b backend \<Rightarrow> bool" where
  "list_returns be \<longleftrightarrow> (\<forall>n c w. 0 < n \<longrightarrow> be_list be \<lparr>opt_limit = Some n, opt_start_after = c\<rparr> w \<noteq> None)"

lemma wired_list_returns:
  assumes "wired X bs" "lists_ok X catalog left" "pick bs k = Inr be"
  shows "list_returns be"
proof -
  have "list_returns (fs_backend X root)" for root
    by (simp add: list_returns_def fs_list_def)
  moreover have "list_returns (s3_backend X sb)" for sb
    unfolding list_returns_def s3_backend_simps
  proof (intro allI impI)
    fix n c and w :: "'a world" assume "0 < (n :: nat)"
    from s3_list_spec [OF assms(2) this, of "\<lparr>opt_limit = Some n, opt_start_after = c\<rparr>" sb w]
    show "s3_list X sb \<lparr>opt_limit = Some n, opt_start_after = c\<rparr> w \<noteq> None" by auto
  qed
  moreover have "list_returns (offline_backend S3 :: 'a backend)"
    by (simp add: list_returns_def)
  ultimately show ?thesis
    using assms(1,3) by (cases k) (auto simp: wired_def pick_def)
qed

lemma list_files_returns:
  assumes "\<And>be. pick (st_backends st) (lfq_storage_type q) = Inr be \<Longrightarrow> list_returns be"
  shows "list_files st q w \<noteq> None"
proof (cases "pick (st_backends st) (lfq_storage_type q)")
  case (Inr be)
  then have "list_returns be" by (rule assms)
  show ?thesis
  proof (cases "case lfq_limit q of None \<Rightarrow> Inr DEFAULT_LIST_LIMIT
      | Some n \<Rightarrow> if n = 0 then Inr DEFAULT_LIST_LIMIT
                  else if n > MAX_LIST_LIMIT then Inl (ListLimitTooLarge MAX_LIST_LIMIT) else Inr n")
    case (Inr limit)
    then have "0 < limit" by (auto simp: DEFAULT_LIST_LIMIT_def split: option.splits if_splits)
    then obtain r w' where "be_list be \<lparr>opt_limit = Some limit, opt_start_after = lfq_start_after q\<rparr> w = Some (r, w')"
      using \<open>list_returns be\<close> unfolding list_returns_def by fastforce
    then show ?thesis
      unfolding list_files_def \<open>pick (st_backends st) (lfq_storage_type q) = Inr be\<close> sum.case Inr
      by (simp add: Let_def split: sum.split option.split)
  qed (simp add: list_files_def Inr)
qed (simp add: list_files_def)

lemma routes_return:
  assumes "wired X (st_backends st)" "lists_ok X catalog left"
  shows "routes X st req w \<noteq> None"
proof -
  have lf: "list_files st q w' \<noteq> None" for q w'
    by (rule list_files_returns) (rule wired_list_returns [OF assms])
  have ls: "\<exists>r w''. list_files_service X st req' w' = Some (r, w'')" for req' w'
    by (auto simp: list_files_service_def lf split: sum.split option.split prod.split)
  have "copy_file_service X st req' w' \<noteq> None" for req' w'
    by (auto simp: copy_file_service_def split: sum.split prod.split)
  with ls [of req w] show ?thesis
    by (auto simp: routes_def route_table_def route_get_def route_post_def require_bearer_def fallback_def Let_def
        split: option.split)
qed

lemma build_router_returns:
  assumes "wired X (st_backends st)" "lists_ok X catalog left"
  shows "\<exists>r w'. build_router X st req w = Some (r, w')"
proof -
  have "timeout_layer X d (routes X st) req' w' \<noteq> None" for d req' w'
    using routes_return [OF assms] by (auto simp: timeout_layer_def split: option.split)
  then obtain r w0 where "timeout_layer X (request_timeout_secs (ac_limits (st_config st))) (routes X st)
      (prepared X st req) (inner_world X req w) = Some (r, w0)" by fastforce
  then show ?thesis by (simp add: build_router_eq)
qed

lemma serve_returns:
  assumes "wired X (st_backends st)" "lists_ok X catalog left"
  shows "\<exists>rs w'. serve X st reqs sig w = Some (rs, w') \<and> length rs = length reqs"
proof (induction reqs arbitrary: w)
  case (Cons req reqs)
  obtain r w1 where "build_router X st req w = Some (r, w1)"
    using build_router_returns [OF assms] by blast
  with Cons [of w1] show ?case by auto
qed simp


lemma demo_wired: "wired demo (st_backends demo_state)"
  by (auto simp: wired_def both_backends_def)


section \<open>Serving\<close>

lemma serve_Cons:
  assumes "serve X st (req # reqs) sig w = Some (rs, w')"
  obtains r rs' w1 where "build_router X st req w = Some (r, w1)" "serve X st reqs sig w1 = Some (rs', w')"
    "rs = r # rs'"
  using assms by (auto split: option.splits prod.splits)

text \<open>
  Over the whole life of a server there is one response and one access event per request,
  in order: the statuses sent are the statuses logged, and every response carries the security
  headers and a trace id; the log ends with the shutdown events.
\<close>
theorem serve_accounts_for_every_request:
  assumes "header_values_ok X" "deadline_rel logs X" "wired X (st_backends st)"
    and "serve X st reqs sig w = Some (rs, w')"
  shows "length rs = length reqs \<and>
    (\<exists>evs. filter is_access (w_log w') = filter is_access (w_log w) @ evs \<and>
       list_all2 (\<lambda>(req, r) ev. \<exists>d tid. ev = access_event (rq_method req) (route_label X st req) (r_status r) d tid)
         (zip reqs rs) evs) \<and>
    list_all (\<lambda>r. header_get ''x-frame-options'' (r_headers r) = Some ''DENY'' \<and>
      header_get ''x-trace-id'' (r_headers r) \<noteq> None) rs"
  using assms(4)
proof (induction reqs arbitrary: w rs)
  case Nil
  then show ?case by (auto simp: is_access_def shutdown_event_def info_event_def)
next
  case (Cons req reqs)
  obtain r rs' w1 where step: "build_router X st req w = Some (r, w1)" "serve X st reqs sig w1 = Some (rs', w')"
    "rs = r # rs'" using serve_Cons [OF Cons.prems] .
  obtain evs d tid where log: "w_log w1 = w_log w @ evs @
      [access_event (rq_method req) (route_label X st req) (r_status r) d tid]" "filter is_access evs = []"
    using request_logged [OF assms(2,3) step(1)] by blast
  have "is_access (access_event (rq_method req) (route_label X st req) (r_status r) d tid)"
    by (simp add: is_access_def access_event_def)
  with log have one: "filter is_access (w_log w1) = filter is_access (w_log w) @
      [access_event (rq_method req) (route_label X st req) (r_status r) d tid]" by simp
  have "(''x-frame-options'', ''DENY'') \<in> set default_headers" by (simp add: default_headers_def)
  with response_decorated [OF assms(1) step(1)] have decorated:
    "header_get ''x-frame-options'' (r_headers r) = Some ''DENY''" "header_get ''x-trace-id'' (r_headers r) \<noteq> None"
    by auto
  from Cons.IH [OF step(2)] obtain evs' where rest: "length rs' = length reqs"
    "filter is_access (w_log w') = filter is_access (w_log w1) @ evs'"
    "list_all2 (\<lambda>(req, r) ev. \<exists>d tid. ev = access_event (rq_method req) (route_label X st req) (r_status r) d tid)
       (zip reqs rs') evs'"
    "list_all (\<lambda>r. header_get ''x-frame-options'' (r_headers r) = Some ''DENY'' \<and>
      header_get ''x-trace-id'' (r_headers r) \<noteq> None) rs'" by blast
  show ?case
    by (intro conjI exI [of _ "access_event (rq_method req) (route_label X st req) (r_status r) d tid # evs'"])
      (use rest one decorated step(3) in auto)
qed

lemma serve_accounts_for_every_request_witness:
  "\<exists>rs w'. serve demo demo_state [demo_request ''GET'' ''/'' []] SIGINT demo_world = Some (rs, w') \<and>
     length rs = 1 \<and> length (filter is_access (w_log w')) = 1"
proof -
  obtain r w1 where "build_router demo demo_state (demo_request ''GET'' ''/'' []) demo_world = Some (r, w1)"
    using demo_root_request by blast
  then obtain rs w' where sv: "serve demo demo_state [demo_request ''GET'' ''/'' []] SIGINT demo_world = Some (rs, w')"
    by auto
  from serve_accounts_for_every_request [OF demo_header_values demo_deadline_rel demo_wired sv] sv
  show ?thesis by (auto simp: demo_world_def dest!: list_all2_lengthD)
qed

section \<open>Relations between stores, over the life of the server\<close>

text \<open>
  A \<open>handler_relation\<close> that only looks at the two stores holds between the beginning and the end of a request
  (\<open>Shutdown\<close> lifts it to the life of a server).
\<close>

locale store_relation = handler_relation rel for rel :: "'b world \<Rightarrow> 'b world \<Rightarrow> bool" +
  assumes rel_store: "store w' = store w \<Longrightarrow> rel w w'"
begin

lemma rel_build_router:
  assumes "deadline_rel rel X" "\<And>k be. pick (st_backends st) k = Inr be \<Longrightarrow> backend_rel rel be"
    and "build_router X st req w = Some (r, w')"
  shows "rel w w'"
proof -
  have "service_rel rel (routes X st)" using assms(2) by (rule rel_routes)
  then obtain r0 w0 where r0: "rel (inner_world X req w) w0" "w' = logged X st req w r0 w0"
    using build_router_rel [OF assms(3,1)] by blast
  have "rel w (inner_world X req w)" by (rule rel_store) simp
  moreover have "rel w0 w'" unfolding r0(2) by (rule rel_store) (simp add: logged_def)
  ultimately show ?thesis using r0(1) rel_trans by blast
qed

end

section \<open>The bucket\<close>

text \<open>The bucket changes by steps of \<open>others\<close> only: by none, where that relation is empty.\<close>

definition bucket_by :: "('b \<Rightarrow> 'b \<Rightarrow> bool) \<Rightarrow> 'b world \<Rightarrow> 'b world \<Rightarrow> bool" where
  "bucket_by others w w' \<longleftrightarrow> others\<^sup>*\<^sup>* (w_s3 w) (w_s3 w')"

interpretation bucket: store_relation "bucket_by others" for others :: "'b \<Rightarrow> 'b \<Rightarrow> bool"
  by unfold_locales (auto simp: bucket_by_def store_def)

lemma fs_backend_bucket: "backend_rel (bucket_by others) (fs_backend X root)"
proof -
  have "w_s3 w' = w_s3 w" if "collect_entries X root names acc w = (r, w')" for names acc r and w w' :: "'a world"
    using collect_entries_world [of X root names acc w] that by auto
  then show ?thesis
    by (auto simp: backend_rel_def bucket_by_def fs_open_read_world fs_write_all_s3 fs_list_def Let_def
        split: sum.splits prod.splits)
qed

lemma offline_bucket: "backend_rel (bucket_by others) (offline_backend k)"
  by (simp add: backend_rel_def bucket_by_def)

lemma offline_state_bucket:
  assumes "offline_from_env env" "pick (st_backends (app_state_of X env cfg)) k = Inr be"
  shows "backend_rel (bucket_by others) be"
  using assms by (cases k; cases "ac_s3 cfg") (auto simp: pick_def app_state_of_s3 fs_backend_bucket offline_bucket)

section \<open>The whole program\<close>



section \<open>The command line\<close>

text \<open>
  Any argument \<open>doctor\<close> selects the doctor, also where it is the value of \<open>--config\<close>: a service
  whose configuration file has that name never starts.
\<close>

lemma config_named_doctor:
  "parse_config_arg [''fileferry'', ''--config'', ''doctor''] = Some ''doctor'' \<and>
   wants_doctor [''fileferry'', ''--config'', ''doctor'']"
  by code_simp

end
