(* ===== verification/Shutdown.thy ===== *)
theory Shutdown
  imports ServerProperties "HOL-Library.Multiset"
begin

text \<open>
  The running server as a step relation: requests arrive and wait, are answered in any
  order, a signal closes the listener, and the server stops once nothing is in flight
  (\<open>axum::serve(..).with_graceful_shutdown(shutdown_signal())\<close>). The concurrency is stated by rely and
  guarantee: a request runs under whatever behaviour of the libraries and interference of other
  processes (the other requests among them) \<open>allowed\<close> admits, and between the answers the stores change by
  \<open>rely\<close>. \<open>Startup.serve\<close> is one run of it.
\<close>

section \<open>The steps\<close>

datatype phase = Accepting | Draining | Stopped

text \<open>Requests are numbered as they arrive; \<open>sv_sent\<close> has the answers in the order they were sent.\<close>

record 'b server =
  sv_phase :: phase
  sv_next :: nat
  sv_in_flight :: "(nat \<times> request) list"
  sv_sent :: "(nat \<times> request \<times> response) list"
  sv_world :: "'b world"

definition server_start :: "'b world \<Rightarrow> 'b server" where
  "server_start w = \<lparr>sv_phase = Accepting, sv_next = 0, sv_in_flight = [], sv_sent = [], sv_world = w\<rparr>"

inductive server_step :: "('b externs \<Rightarrow> bool) \<Rightarrow> (fsys \<times> 'b \<Rightarrow> fsys \<times> 'b \<Rightarrow> bool) \<Rightarrow> environment \<Rightarrow> AppConfig \<Rightarrow>
    'b server \<Rightarrow> 'b server \<Rightarrow> bool"
  for allowed :: "'b externs \<Rightarrow> bool" and rely :: "fsys \<times> 'b \<Rightarrow> fsys \<times> 'b \<Rightarrow> bool"
    and env :: environment and cfg :: AppConfig where
  arrive: "sv_phase s = Accepting \<Longrightarrow>
    server_step allowed rely env cfg s
      (s\<lparr>sv_next := Suc (sv_next s), sv_in_flight := sv_in_flight s @ [(sv_next s, req)]\<rparr>)"
| answer: "sv_in_flight s = before @ (i, req) # after \<Longrightarrow> allowed X \<Longrightarrow>
    build_router X (app_state_of X env cfg) req (sv_world s) = Some (r, w') \<Longrightarrow>
    server_step allowed rely env cfg s
      (s\<lparr>sv_in_flight := before @ after, sv_sent := sv_sent s @ [(i, req, r)], sv_world := w'\<rparr>)"
| signal: "sv_phase s = Accepting \<Longrightarrow>
    server_step allowed rely env cfg s
      (s\<lparr>sv_phase := Draining, sv_world := emit [shutdown_event sig] (sv_world s)\<rparr>)"
| drained: "sv_phase s = Draining \<Longrightarrow> sv_in_flight s = [] \<Longrightarrow>
    server_step allowed rely env cfg s (s\<lparr>sv_phase := Stopped,
      sv_world := emit [info_event ''shutdown complete'' []] (sv_world s)\<rparr>)"
| others: "rely (store (sv_world s)) (fs, b) \<Longrightarrow>
    server_step allowed rely env cfg s (s\<lparr>sv_world := (sv_world s)\<lparr>w_fs := fs, w_s3 := b\<rparr>\<rparr>)"

lemma server_start_simps [simp]:
  "sv_phase (server_start w) = Accepting" "sv_next (server_start w) = 0"
  "sv_in_flight (server_start w) = []" "sv_sent (server_start w) = []" "sv_world (server_start w) = w"
  by (simp_all add: server_start_def)

abbreviation server_run :: "('b externs \<Rightarrow> bool) \<Rightarrow> (fsys \<times> 'b \<Rightarrow> fsys \<times> 'b \<Rightarrow> bool) \<Rightarrow> environment \<Rightarrow> AppConfig \<Rightarrow>
    'b server \<Rightarrow> 'b server \<Rightarrow> bool" where
  "server_run allowed rely env cfg \<equiv> rtranclp (server_step allowed rely env cfg)"

text \<open>
  A handler the deadline cuts short leaves the stores as some run does in which, say, every later call
  fails or comes too late to matter; it has not logged an access.
\<close>

definition cut_short :: "('b externs \<Rightarrow> bool) \<Rightarrow> environment \<Rightarrow> AppConfig \<Rightarrow> request \<Rightarrow> 'b world \<Rightarrow> 'b world \<Rightarrow> bool" where
  "cut_short allowed env cfg req w w' \<longleftrightarrow>
     (\<exists>X r v. allowed X \<and> routes X (app_state_of X env cfg) req w = Some (r, v) \<and> store w' = store v \<and> logs w w')"

definition deadlines_ok :: "('b externs \<Rightarrow> bool) \<Rightarrow> environment \<Rightarrow> AppConfig \<Rightarrow> bool" where
  "deadlines_ok allowed env cfg \<longleftrightarrow>
     (\<forall>X d req w w'. allowed X \<longrightarrow> x_deadline X d req w = Some w' \<longrightarrow> cut_short allowed env cfg req w w')"

lemma deadlines_logs: "deadlines_ok allowed env cfg \<Longrightarrow> allowed X \<Longrightarrow> deadline_rel logs X"
  unfolding deadlines_ok_def deadline_rel_def cut_short_def by blast

lemma no_deadlines_ok: "(\<And>X. allowed X \<Longrightarrow> no_deadline X) \<Longrightarrow> deadlines_ok allowed env cfg"
  by (simp add: deadlines_ok_def no_deadline_def)

text \<open>The route the access log names does not depend on the configuration.\<close>

definition route_of :: "request \<Rightarrow> string" where
  "route_of req =
     (if rq_path req \<in> set [''/'', ''/health'', ''/api'', ''/v1/files'', ''/v1/files/copy''] then rq_path req
      else ''<unmatched>'')"

lemma route_label_of: "route_label X st req = route_of req"
  by (simp add: route_label_def route_of_def route_table_def)

section \<open>What every reachable state satisfies\<close>

text \<open>Every request that has arrived is waiting or answered, once.\<close>

definition accounted :: "'b server \<Rightarrow> bool" where
  "accounted s \<longleftrightarrow>
     mset (map fst (sv_in_flight s)) + mset (map fst (sv_sent s)) = mset [0..<sv_next s]"

text \<open>The access log since \<open>w\<close> is the list of the answers.\<close>

definition log_matches :: "'b world \<Rightarrow> 'b server \<Rightarrow> bool" where
  "log_matches w s \<longleftrightarrow>
     (\<exists>evs. filter is_access (w_log (sv_world s)) = filter is_access (w_log w) @ evs \<and>
        list_all2 (\<lambda>(i, req, r) ev. \<exists>d tid.
           ev = access_event (rq_method req) (route_of req) (r_status r) d tid) (sv_sent s) evs)"

definition stopped_clean :: "'b server \<Rightarrow> bool" where
  "stopped_clean s \<longleftrightarrow> sv_phase s = Stopped \<longrightarrow>
     sv_in_flight s = [] \<and> last (w_log (sv_world s)) = info_event ''shutdown complete'' []"

lemma step_accounted: "server_step allowed rely env cfg s s' \<Longrightarrow> accounted s \<Longrightarrow> accounted s'"
  by (induction rule: server_step.induct) (auto simp: accounted_def)

lemma accounted_start: "accounted (server_start w)"
  by (simp add: accounted_def)

lemma step_stopped_clean: "server_step allowed rely env cfg s s' \<Longrightarrow> stopped_clean s \<Longrightarrow> stopped_clean s'"
  by (induction rule: server_step.induct) (auto simp: stopped_clean_def)

lemma emit_log_matches:
  assumes "log_matches w s" "sv_sent s' = sv_sent s"
    and "w_log (sv_world s') = w_log (sv_world s) @ evs" "list_all (\<lambda>ev. \<not> is_access ev) evs"
  shows "log_matches w s'"
proof -
  have "filter is_access evs = []" using assms(4) by (simp add: filter_empty_conv list_all_iff)
  with assms(1-3) show ?thesis by (simp add: log_matches_def)
qed

lemma step_log_matches:
  assumes "deadlines_ok allowed env cfg" "server_step allowed rely env cfg s s'" "log_matches w s"
  shows "log_matches w s'"
  using assms(2,3)
proof (induction rule: server_step.induct)
  case (answer s before i req after X r w')
  obtain evs d tid where ev: "w_log w' = w_log (sv_world s) @ evs @
      [access_event (rq_method req) (route_of req) (r_status r) d tid]" "filter is_access evs = []"
    using request_logged [OF deadlines_logs [OF assms(1) answer(2)] app_state_of_wired answer(3)]
    unfolding route_label_of by blast
  obtain evs0 where "filter is_access (w_log (sv_world s)) = filter is_access (w_log w) @ evs0"
    "list_all2 (\<lambda>(i, req, r) ev. \<exists>d tid.
       ev = access_event (rq_method req) (route_of req) (r_status r) d tid) (sv_sent s) evs0"
    using answer(4) by (auto simp: log_matches_def)
  with ev show ?case
    unfolding log_matches_def
    by (intro exI [of _ "evs0 @ [access_event (rq_method req) (route_of req) (r_status r) d tid]"])
      (auto simp: is_access_def access_event_def intro!: list_all2_appendI)
qed (auto elim!: emit_log_matches simp: is_access_def shutdown_event_def info_event_def)

lemma run_invariant:
  assumes "server_run allowed rely env cfg s s'" "P s" "\<And>a b. server_step allowed rely env cfg a b \<Longrightarrow> P a \<Longrightarrow> P b"
  shows "P s'"
  using assms(1) by (induction rule: rtranclp_induct) (use assms(2,3) in auto)

lemma two_steps: "server_step allowed rely env cfg a b \<Longrightarrow> server_step allowed rely env cfg b c \<Longrightarrow> server_run allowed rely env cfg a c"
  by (rule rtranclp_trans [OF r_into_rtranclp r_into_rtranclp])

lemma run_one:
  assumes "allowed X" "build_router X (app_state_of X env cfg) req (sv_world s) = Some (r, w')" "sv_phase s = Accepting" "sv_in_flight s = []"
  shows "server_run allowed rely env cfg s (s\<lparr>sv_next := Suc (sv_next s), sv_sent := sv_sent s @ [(sv_next s, req, r)],
    sv_world := w'\<rparr>)"
proof -
  let ?s1 = "s\<lparr>sv_next := Suc (sv_next s), sv_in_flight := sv_in_flight s @ [(sv_next s, req)]\<rparr>"
  have "server_step allowed rely env cfg s ?s1" using assms(3) by (rule server_step.arrive)
  moreover have "server_step allowed rely env cfg ?s1 (?s1\<lparr>sv_in_flight := [] @ [], sv_sent := sv_sent ?s1 @ [(sv_next s, req, r)],
      sv_world := w'\<rparr>)"
    using assms by (intro server_step.answer [where X = X]) simp_all
  ultimately have "server_run allowed rely env cfg s (?s1\<lparr>sv_in_flight := [] @ [], sv_sent := sv_sent ?s1 @ [(sv_next s, req, r)],
      sv_world := w'\<rparr>)"
    by (rule two_steps)
  moreover have "?s1\<lparr>sv_in_flight := [] @ [], sv_sent := sv_sent ?s1 @ [(sv_next s, req, r)], sv_world := w'\<rparr> =
      s\<lparr>sv_next := Suc (sv_next s), sv_sent := sv_sent s @ [(sv_next s, req, r)], sv_world := w'\<rparr>"
    using assms(4) by (cases s) simp
  ultimately show ?thesis by (simp only:)
qed

lemma run_accounted:
  assumes "server_run allowed rely env cfg (server_start w) s"
  shows "accounted s"
  by (rule run_invariant [where P = accounted, OF assms accounted_start step_accounted])


text \<open>The demonstration: the default configuration over the demonstration's libraries, among arbitrary clients.\<close>

abbreviation demo_run :: "environment \<Rightarrow> bucket server \<Rightarrow> bucket server \<Rightarrow> bool" where
  "demo_run env \<equiv> server_run (\<lambda>X. X = demo) (\<lambda>a b. True) env config_default"

lemma demo_deadlines: "deadlines_ok (\<lambda>X. X = demo) env cfg"
  by (rule no_deadlines_ok) (simp add: demo_no_deadline)

lemma demo_answers: "\<exists>r w'. build_router demo (app_state_of demo env cfg) req w = Some (r, w')"
  by (rule build_router_returns [OF app_state_of_wired demo_lists])


section \<open>Stopping\<close>

lemma step_keeps_closed:
  "server_step allowed rely env cfg s s' \<Longrightarrow> sv_phase s \<noteq> Accepting \<Longrightarrow>
     sv_phase s' \<noteq> Accepting \<and> sv_next s' = sv_next s \<and> prefix (sv_sent s) (sv_sent s')"
  by (induction rule: server_step.induct) auto

lemma run_keeps_closed:
  assumes "server_run allowed rely env cfg s s'" "sv_phase s \<noteq> Accepting"
  shows "sv_phase s' \<noteq> Accepting \<and> sv_next s' = sv_next s \<and> prefix (sv_sent s) (sv_sent s')"
  using assms(1)
proof (induction rule: rtranclp_induct)
  case (step s1 s2)
  then show ?case using step_keeps_closed [OF step(2)] by (auto intro: prefix_order.trans)
qed (use assms(2) in simp)

lemma answer_all:
  assumes "allowed X" "lists_ok X catalog left"
  shows "\<exists>s'. server_run allowed rely env cfg s s' \<and> sv_in_flight s' = [] \<and> sv_phase s' = sv_phase s \<and>
    map fst (sv_sent s') = map fst (sv_sent s) @ map fst (sv_in_flight s) \<and> sv_next s' = sv_next s"
proof (induction "length (sv_in_flight s)" arbitrary: s)
  case 0
  then show ?case by (intro exI [of _ s]) simp
next
  case (Suc n)
  then obtain i req rest where fl: "sv_in_flight s = (i, req) # rest"
    by (cases "sv_in_flight s") auto
  obtain r w' where "build_router X (app_state_of X env cfg) req (sv_world s) = Some (r, w')"
    using build_router_returns [OF app_state_of_wired assms(2)] by blast
  then have step: "server_step allowed rely env cfg s
      (s\<lparr>sv_in_flight := [] @ rest, sv_sent := sv_sent s @ [(i, req, r)], sv_world := w'\<rparr>)"
    using fl assms(1) by (intro server_step.answer [where X = X]) simp_all
  have "n = length (sv_in_flight
      (s\<lparr>sv_in_flight := [] @ rest, sv_sent := sv_sent s @ [(i, req, r)], sv_world := w'\<rparr>))"
    using Suc(2) fl by simp
  from Suc(1) [OF this] obtain s' where "server_run allowed rely env cfg
      (s\<lparr>sv_in_flight := [] @ rest, sv_sent := sv_sent s @ [(i, req, r)], sv_world := w'\<rparr>) s'"
    "sv_in_flight s' = []" "sv_phase s' = sv_phase s" "sv_next s' = sv_next s"
    "map fst (sv_sent s') = map fst (sv_sent s) @ i # map fst rest" by auto
  moreover have "server_run allowed rely env cfg s
      (s\<lparr>sv_in_flight := [] @ rest, sv_sent := sv_sent s @ [(i, req, r)], sv_world := w'\<rparr>)"
    using step by (rule r_into_rtranclp)
  ultimately show ?case using fl by (intro exI [of _ s']) (auto intro: rtranclp_trans)
qed



section \<open>One request after another\<close>

lemma serve_run:
  assumes "allowed X" "serve X (app_state_of X env cfg) reqs sig (sv_world s) = Some (rs, w')"
    and "sv_phase s = Accepting" "sv_in_flight s = []"
  shows "\<exists>s'. server_run allowed rely env cfg s s' \<and> sv_phase s' = Stopped \<and> sv_world s' = w' \<and>
    map (snd \<circ> snd) (sv_sent s') = map (snd \<circ> snd) (sv_sent s) @ rs"
  using assms(2-)
proof (induction reqs arbitrary: s rs)
  case Nil
  let ?s1 = "s\<lparr>sv_phase := Draining, sv_world := emit [shutdown_event sig] (sv_world s)\<rparr>"
  let ?s2 = "?s1\<lparr>sv_phase := Stopped, sv_world := emit [info_event ''shutdown complete'' []] (sv_world ?s1)\<rparr>"
  have "server_step allowed rely env cfg s ?s1" using Nil(2) by (rule server_step.signal)
  moreover have "server_step allowed rely env cfg ?s1 ?s2" using Nil(3) by (intro server_step.drained) simp_all
  ultimately have "server_run allowed rely env cfg s ?s2" by (rule two_steps)
  with Nil(1) show ?case by (intro exI [of _ ?s2]) (auto simp: emit_def)
next
  case (Cons req reqs)
  obtain r rs' w1 where step: "build_router X (app_state_of X env cfg) req (sv_world s) = Some (r, w1)"
    "serve X (app_state_of X env cfg) reqs sig w1 = Some (rs', w')" "rs = r # rs'"
    using serve_Cons [OF Cons.prems(1)] .
  let ?s1 = "s\<lparr>sv_next := Suc (sv_next s), sv_sent := sv_sent s @ [(sv_next s, req, r)], sv_world := w1\<rparr>"
  have "server_run allowed rely env cfg s ?s1" using assms(1) step(1) Cons.prems(2,3)
    by (rule run_one)
  moreover have "\<exists>s'. server_run allowed rely env cfg ?s1 s' \<and> sv_phase s' = Stopped \<and> sv_world s' = w' \<and>
      map (snd \<circ> snd) (sv_sent s') = map (snd \<circ> snd) (sv_sent ?s1) @ rs'"
    by (rule Cons.IH) (use step(2) Cons.prems(2,3) in simp_all)
  then obtain s' where "server_run allowed rely env cfg ?s1 s'" "sv_phase s' = Stopped" "sv_world s' = w'"
    "map (snd \<circ> snd) (sv_sent s') = map (snd \<circ> snd) (sv_sent ?s1) @ rs'" by blast
  moreover have "map (snd \<circ> snd) (sv_sent ?s1) @ rs' = map (snd \<circ> snd) (sv_sent s) @ rs"
    using step(3) by simp
  ultimately show ?case by (metis rtranclp_trans)
qed



section \<open>Relations between the stores\<close>

text \<open>
  A relation between the worlds at the ends of a backend's operations holds between any two states of a run,
  if it holds for what the others do: the guarantee of each request is the rely of the next.
\<close>

context store_relation
begin

lemma rel_deadline:
  assumes "deadlines_ok allowed env cfg" "allowed X"
    and "\<And>Y k be. allowed Y \<Longrightarrow> pick (st_backends (app_state_of Y env cfg)) k = Inr be \<Longrightarrow> backend_rel rel be"
  shows "deadline_rel rel X"
  unfolding deadline_rel_def
proof (intro allI impI)
  fix d req w w' assume "x_deadline X d req w = Some w'"
  with assms(1,2) obtain Y r v where Y: "allowed Y" "routes Y (app_state_of Y env cfg) req w = Some (r, v)"
    "store w' = store v" unfolding deadlines_ok_def cut_short_def by blast
  have "service_rel rel (routes Y (app_state_of Y env cfg))" using assms(3) [OF Y(1)] by (rule rel_routes)
  with Y(2) have "rel w v" by (auto simp: service_rel_def)
  then show "rel w w'" using rel_store [OF Y(3)] rel_trans by blast
qed

lemma rel_server_run:
  assumes "server_run allowed rely env cfg s s'" "deadlines_ok allowed env cfg"
    and "\<And>X k be. allowed X \<Longrightarrow> pick (st_backends (app_state_of X env cfg)) k = Inr be \<Longrightarrow> backend_rel rel be"
    and "\<And>w fs b. rely (store w) (fs, b) \<Longrightarrow> rel w (w\<lparr>w_fs := fs, w_s3 := b\<rparr>)"
  shows "rel (sv_world s) (sv_world s')"
  using assms(1)
proof (induction rule: rtranclp_induct)
  case base
  show ?case by (rule rel_refl)
next
  case (step s1 s2)
  from step(2) have "rel (sv_world s1) (sv_world s2)"
  proof (induction rule: server_step.induct)
    case (answer s before i req after X r w')
    have "rel (sv_world s) w'"
      by (rule rel_build_router [OF rel_deadline [OF assms(2) answer(2)] assms(3) [OF answer(2)] answer(3)])
        (rule assms(3))
    then show ?case by simp
  qed (simp_all add: rel_refl rel_store assms(4))
  with step(3) show ?case by (rule rel_trans)
qed

end

section \<open>Offline mode\<close>

text \<open>
  C28: with \<open>FILEFERRY_OFFLINE\<close> set, the program never reaches the bucket: from its start to its
  shutdown, whatever the configuration, whatever requests it serves and however they interleave, the bucket's state changes by
  steps other clients take (\<open>others\<close>, any relation), and by nothing else; if they take none, it is what it was.
\<close>
theorem offline_never_touches_bucket:
  assumes "offline_from_env env" "boot X env parse_yaml bind argv w = (Inr st, w1)"
    and "deadlines_ok allowed env (st_config st)"
    and "server_run allowed (\<lambda>a b. others (snd a) (snd b)) env (st_config st) (server_start w1) s"
  shows "others\<^sup>*\<^sup>* (w_s3 w) (w_s3 (sv_world s))"
proof -
  have "bucket_by others (sv_world (server_start w1)) (sv_world s)"
    by (rule bucket.rel_server_run [OF assms(4,3) offline_state_bucket [OF assms(1)]])
      (auto simp: bucket_by_def store_def)
  with boot_app_state(2) [OF assms(2)] show ?thesis by (simp add: bucket_by_def)
qed

text \<open>The demonstration started, having served the requests and stopped.\<close>

lemma demo_lives:
  fixes reqs :: "request list"
  obtains s where "server_run (\<lambda>X. X = demo) rely env (st_config st) (server_start w1) s"
    "sv_phase s = Stopped" "length (sv_sent s) = length reqs"
proof -
  obtain rs w' where sv: "serve demo (app_state_of demo env (st_config st)) reqs SIGTERM
      (sv_world (server_start w1)) = Some (rs, w')" "length rs = length reqs"
    using serve_returns [where reqs = reqs, OF app_state_of_wired demo_lists] by metis
  from serve_run [where allowed = "\<lambda>X. X = demo" and rely = rely, OF refl sv(1)]
  obtain s where "server_run (\<lambda>X. X = demo) rely env (st_config st) (server_start w1) s"
    "sv_phase s = Stopped" "map (snd \<circ> snd) (sv_sent s) = rs" by auto
  with sv(2) show ?thesis using that [of s] by (metis length_map)
qed

lemma offline_never_touches_bucket_witness:
  "\<exists>st w1 s. demo_boot [''FILEFERRY_OFFLINE'' \<mapsto> ''1''] = (Inr st, w1) \<and> sv_phase s = Stopped \<and>
     server_run (\<lambda>X. X = demo) (\<lambda>a b. False) [''FILEFERRY_OFFLINE'' \<mapsto> ''1''] (st_config st) (server_start w1) s \<and>
     length (sv_sent s) = 1 \<and> w_s3 (sv_world s) = demo_bucket"
proof -
  let ?env = "[''FILEFERRY_OFFLINE'' \<mapsto> ''1'']"
  have off: "offline_from_env ?env" by code_simp
  obtain st w1 where b: "demo_boot ?env = (Inr st, w1)"
    using demo_starts [of "[''FILEFERRY_OFFLINE'' \<mapsto> ''1'']"] by auto
  obtain s where s: "server_run (\<lambda>X. X = demo) (\<lambda>a b. False) ?env (st_config st) (server_start w1) s"
    "sv_phase s = Stopped" "length (sv_sent s) = length [demo_request ''GET'' ''/v1/files'' []]"
    using demo_lives .
  have "(\<lambda>a b. False)\<^sup>*\<^sup>* (w_s3 demo_world) (w_s3 (sv_world s))"
    by (rule offline_never_touches_bucket [OF off b [unfolded demo_boot_def] demo_deadlines s(1)])
  then have "w_s3 (sv_world s) = demo_bucket"
    by (auto simp: demo_world_def elim: rtranclp.cases)
  then show ?thesis using b s by auto
qed

end
