(* ===== verification/Confinement.thy ===== *)
theory Confinement
  imports Demo
begin

text \<open>
  Confinement to the data directory: whatever validated path the backend is asked for, absolute ones
  included, and whatever other processes do meanwhile within a relation of their own, an operation reads
  and changes nothing but the tree below the directory the root resolves to, provided that tree holds no
  symbolic link.
\<close>

section \<open>The data directory\<close>

definition file_name :: "string \<Rightarrow> bool" where
  "file_name c \<longleftrightarrow> c \<notin> {[], ''.'', ''..''} \<and> CHR ''/'' \<notin> set c \<and> CHR 0x00 \<notin> set c"

text \<open>
  The root resolves to \<open>R\<close>, a real directory below real directories (links may lie on the way the root
  names), and nothing below it is a link.
\<close>

definition data_dir :: "string \<Rightarrow> string list \<Rightarrow> fsys \<Rightarrow> bool" where
  "data_dir root R s \<longleftrightarrow> root_at s root R \<and> plain_below s R \<and> list_all file_name R \<and>
     (\<forall>a. prefix a R \<longrightarrow> lookup s a = Some Dir)"

definition outside :: "string list \<Rightarrow> fsys \<Rightarrow> string list \<Rightarrow> node option" where
  "outside R s l = (if strict_prefix R l then None else lookup s l)"

text \<open>The directory stays, and outside of it the tree changes by steps of \<open>others\<close> only.\<close>

definition stays_inside :: "string \<Rightarrow> string list \<Rightarrow>
    ((string list \<Rightarrow> node option) \<Rightarrow> (string list \<Rightarrow> node option) \<Rightarrow> bool) \<Rightarrow> fsys \<Rightarrow> fsys \<Rightarrow> bool" where
  "stays_inside root R others s s' \<longleftrightarrow>
     (data_dir root R s \<longrightarrow> data_dir root R s' \<and> others\<^sup>*\<^sup>* (outside R s) (outside R s'))"

definition env_inside :: "string \<Rightarrow> string list \<Rightarrow>
    ((string list \<Rightarrow> node option) \<Rightarrow> (string list \<Rightarrow> node option) \<Rightarrow> bool) \<Rightarrow> 'b externs \<Rightarrow> bool" where
  "env_inside root R others X \<longleftrightarrow> (\<forall>i s. stays_inside root R others s (x_env X i s))"

lemma data_dirD:
  assumes "data_dir root R s"
  shows "root_at s root R" "plain_below s R" "list_all file_name R" "prefix a R \<Longrightarrow> lookup s a = Some Dir"
  using assms by (auto simp: data_dir_def)

lemma stays_inside_refl [simp]: "stays_inside root R others s s"
  by (simp add: stays_inside_def)

lemma stays_inside_trans:
  "stays_inside root R others a b \<Longrightarrow> stays_inside root R others b c \<Longrightarrow> stays_inside root R others a c"
  unfolding stays_inside_def by (meson rtranclp_trans)

section \<open>The names of a validated path\<close>

text \<open>\<open>q\<close> is \<open>root\<close> followed by the names \<open>rest\<close>, up to \<open>.\<close> and repeated slashes in the root.\<close>

definition names_below :: "string \<Rightarrow> string \<Rightarrow> string list \<Rightarrow> bool" where
  "names_below q root rest \<longleftrightarrow> is_absolute q = is_absolute root \<and> dot_free rest \<and>
     components q = components root @ map Normal rest \<and>
     (\<exists>as. segments q = as @ rest \<and> nodots as = nodots (segments root))"

lemma names_below_join:
  assumes "validate_path p = Inr ()" "\<not> is_absolute p" "root \<noteq> []"
  shows "names_below (path_join root p) root (segments p)"
  using assms validated_segments [OF assms(1)]
  by (auto simp: names_below_def is_absolute_join components_join_prefix body_components_dot_free segments_join)

lemma components_relative:
  assumes "root \<noteq> []" "\<not> is_absolute root"
  shows "\<exists>c cs. components root = c # cs \<and> c \<noteq> RootDir"
proof (cases "components root")
  case Nil
  from assms obtain c cs where "root = c # cs" "c \<noteq> CHR ''/''" by (cases root) (auto simp: is_absolute_def)
  then obtain seg segs where "split_on CHR ''/'' root = seg # segs" "seg \<noteq> []"
    by (cases "split_on CHR ''/'' cs") auto
  then have "components root \<noteq> []"
    using assms(2) by (auto simp: components_def segments_def body_components_def)
  with Nil show ?thesis by simp
next
  case (Cons c cs)
  moreover have "RootDir \<notin> set (components root)" using assms(2) by (simp add: RootDir_components)
  ultimately show ?thesis by auto
qed

lemma body_components_Normal:
  assumes "map component_of xs = map Normal ys"
  shows "xs = ys"
  using assms
proof (induction xs arbitrary: ys)
  case (Cons x xs)
  then show ?case by (cases ys) (auto simp: component_of_def split: if_splits)
qed simp

lemma names_below_absolute:
  assumes "validate_path p = Inr ()" "is_absolute p" "root \<noteq> []" "prefix (components root) (components p)"
  shows "\<exists>rest. names_below p root rest"
proof -
  have p: "components p = RootDir # map Normal (segments p)" "dot_free (segments p)"
    using assms(2) validated_segments [OF assms(1)] by (auto simp: components_def body_components_dot_free)
  have abs: "is_absolute root"
    using components_relative [OF assms(3)] assms(4) p(1) by fastforce
  then have root: "components root = RootDir # map component_of (nodots (segments root))"
    by (simp add: components_def body_components_def)
  then have "prefix (map component_of (nodots (segments root))) (map Normal (segments p))"
    using assms(4) p(1) by simp
  then obtain ns where ns: "map component_of (nodots (segments root)) = map Normal ns" "prefix ns (segments p)"
    using prefix_map_rightE by blast
  then obtain rest where rest: "segments p = ns @ rest" by (auto simp: prefix_def)
  have "nodots (segments root) = ns" using ns(1) by (rule body_components_Normal)
  moreover from this have "components root = RootDir # map Normal ns" using root ns(1) by simp
  ultimately show ?thesis
    using p rest abs assms(2) by (intro exI [of _ rest]) (auto simp: names_below_def)
qed

section \<open>The directory's own name\<close>

lemma file_names_segments:
  assumes "list_all file_name R"
  shows "segments (concat (map (\<lambda>seg. CHR ''/'' # seg) R)) = R"
  using assms
proof (induction R)
  case (Cons c R)
  then have c: "c \<noteq> []" "CHR ''/'' \<notin> set c" by (auto simp: file_name_def)
  then have sc: "segments c = [c]" by (simp add: segments_def split_on_unused)
  show ?case
  proof (cases R)
    case Nil
    with sc show ?thesis by (simp add: segments_slash)
  next
    case (Cons d ds)
    then have "segments (c @ concat (map (\<lambda>seg. CHR ''/'' # seg) R)) =
        segments c @ segments (concat (map (\<lambda>seg. CHR ''/'' # seg) R))"
      by (simp add: segments_append_slash segments_slash)
    with sc Cons.IH Cons.prems show ?thesis by (simp add: segments_slash)
  qed
qed (simp add: segments_def)

lemma render_abs_names:
  assumes "list_all file_name R"
  shows "segments (render_abs R) = R" "is_absolute (render_abs R)" "render_abs R \<noteq> []"
proof -
  show "segments (render_abs R) = R"
    using file_names_segments [OF assms] by (auto simp: render_abs_def segments_def)
  show "is_absolute (render_abs R)"
    by (cases R) (auto simp: render_abs_def is_absolute_def)
  then show "render_abs R \<noteq> []" by (auto simp: is_absolute_def)
qed

lemma walk_real:
  assumes "\<And>a. prefix a (d @ cs) \<Longrightarrow> lookup s a = Some Dir" "dot_free cs"
  shows "walk s fl k d cs = Inr (d @ cs)"
  using assms
proof (induction cs arbitrary: d)
  case (Cons c cs)
  have "lookup s d = Some Dir" "lookup s (d @ [c]) = Some Dir" using Cons.prems(1) by simp_all
  then have "walk s fl k d (c # cs) = walk s fl k (d @ [c]) cs"
    using Cons.prems(2) by (intro walk_plain_step [where n = Dir]) simp_all
  also have "\<dots> = Inr ((d @ [c]) @ cs)"
    using Cons.prems by (intro Cons.IH) simp_all
  finally show ?case by simp
qed simp

lemma data_dir_render:
  assumes "data_dir root R s"
  shows "root_at s (render_abs R) R"
proof -
  note d = data_dirD [OF assms] and r = render_abs_names [OF data_dirD(3) [OF assms]]
  have "dot_free R" using d(3) by (auto simp: dot_free_def file_name_def list_all_iff)
  then have "walk s True MAXSYMLINKS [] R = Inr ([] @ R)"
    using d(4) by (intro walk_real) simp_all
  with r d(4) [of R] show ?thesis by (simp add: root_at_def)
qed

section \<open>Where the system calls go\<close>

lemma walk_last_followed:
  assumes "walk s False k d cs = Inr l" "\<forall>t. lookup s l \<noteq> Some (Symlink t)"
  shows "walk s True k d cs = Inr l"
  using assms
proof (induction rule: walk_induct)
  case (None k d c)
  then show ?case by (simp add: walk_None)
next
  case (plain k d c cs n l)
  then show ?case by (simp add: walk_plain_step [where n = n])
next
  case (link k d c cs t l)
  then show ?case by (simp add: walk_link)
qed (auto simp: walk_dot walk_dotdot)

lemma place_below:
  assumes "root_at s root R" "plain_below s R" "names_below q root rest" "place s False (kpath_of q) = Inr l"
  shows "l = R @ rest \<or> rest = [] \<and> (\<exists>t. lookup s l = Some (Symlink t))"
proof -
  define d0 where "d0 = (if is_absolute root then [] else cwd s)"
  have w: "walk s True MAXSYMLINKS d0 (segments root) = Inr R" "lookup s R = Some Dir"
    using assms(1) by (simp_all add: root_at_def d0_def)
  obtain as where q: "segments q = as @ rest" "nodots as = nodots (segments root)" "is_absolute q = is_absolute root"
    "dot_free rest" using assms(3) by (auto simp: names_below_def)
  have "lookup s d0 = Some Dir" using w by (cases "segments root") (auto dest: walk_Cons_Dir)
  then have was: "walk s True MAXSYMLINKS d0 as = Inr R" using walk_nodots [OF w q(2) [symmetric]] by blast
  define last where "last = rest @ (if kp_trailing (kpath_of q) then [''.''] else [])"
  have wq: "walk s False MAXSYMLINKS d0 (as @ last) = Inr l"
  proof -
    have "kp_names (kpath_of q) = as @ rest" "kp_abs (kpath_of q) = is_absolute root"
      using q(1,3) by (simp_all add: kpath_of_def)
    with assms(4) show ?thesis by (simp add: place_def start_of_def kp_walk_names_def d0_def last_def)
  qed
  show ?thesis
  proof (cases "last = []")
    case True
    then show ?thesis using walk_last_followed [of s MAXSYMLINKS d0 as l] wq was by (auto simp: last_def)
  next
    case False
    obtain k where "walk s False k R last = Inr l" using walk_append [OF was w(2) False, of False] wq by auto
    moreover have "''..'' \<notin> set last" "nodots last = rest" using q(4) by (auto simp: dot_free_def last_def)
    ultimately show ?thesis using walk_plain [OF _ assms(2), of False k R last l] by simp
  qed
qed

text \<open>Above the root every directory is there already.\<close>

lemma mkdir_above_root:
  assumes "root_at s root R" "a \<in> set (ancestors_of (components root))"
    and "mkdir s (kpath_of_components a) = (r, s')"
  shows "s' = s"
  using assms(3)
proof (cases rule: mkdir_cases)
  case (made l)
  define d0 where "d0 = (if is_absolute root then [] else cwd s)"
  have "RootDir \<in> set a \<longleftrightarrow> is_absolute root" using ancestor_abs [of a root "[]"] assms(2) by simp
  then have "walk s False MAXSYMLINKS d0 (component_names a) = Inr l"
    using made(2) by (simp add: place_def start_of_def kp_walk_names_def kpath_of_components_def d0_def)
  moreover obtain bs where "components root = a @ bs"
    using ancestors_of_imp_prefix [OF assms(2)] by (auto simp: prefix_def)
  then have "walk s True MAXSYMLINKS d0 (component_names a @ component_names bs) = Inr R"
    using walk_root_components [OF assms(1)] by (simp add: d0_def)
  ultimately have "lookup s l \<noteq> None"
    using assms(1) by (intro walk_initial_exists) (auto simp: root_at_def)
  with made(3) show ?thesis by simp
qed simp

lemma make_parents_below:
  assumes "root_at s root R" "plain_below s R" "names_below q root rest" "make_parents q s = (r, s')"
  shows "grown s R rest s'"
proof (cases "parent_components (components q)")
  case None
  with assms(4) show ?thesis by (simp add: make_parents_def)
next
  case (Some parent)
  have q: "components q = components root @ map Normal rest" "dot_free rest"
    using assms(3) by (auto simp: names_below_def)
  have cd: "create_dir_all s parent = (r, s')" using assms(4) Some by (simp add: make_parents_def)
  show ?thesis
  proof (cases "rest = []")
    case True
    then have "ancestors_of (components root) = components root # ancestors_of parent"
      using Some q by (subst ancestors_of.simps) simp
    then have "a \<in> set (ancestors_of (components root))" if "a \<in> set (ancestors_of parent)" for a
      using that by simp
    then have "s' = s"
      using mkdir_above_root [OF assms(1)]
      by (intro create_dir_all_invariant [where P = "\<lambda>t. t = s", OF cd]) blast+
    then show ?thesis by simp
  next
    case False
    have "parent = butlast (components root @ map Normal rest)"
      using Some q by (auto simp: parent_components_def split: if_splits)
    then show ?thesis
      using cd assms(1,2) q(2) False
      by (elim create_dir_all_invariant) (auto intro: mkdir_ancestor_grown)
  qed
qed

section \<open>What the backend resolves\<close>

lemma canonical_root:
  assumes "root_at s root R" "canonicalize s (kpath_of root) = Inr c"
  shows "c = render_abs R"
proof -
  obtain l where l: "place s True (kpath_of root) = Inr l" "c = render_abs l"
    using assms(2) by (auto simp: canonicalize_def dest!: sys_walk_Inr split: sum.splits option.splits)
  define d0 where "d0 = (if is_absolute root then [] else cwd s)"
  have w: "walk s True MAXSYMLINKS d0 (segments root) = Inr R" "lookup s R = Some Dir"
    using assms(1) by (simp_all add: root_at_def d0_def)
  obtain k where "walk s True MAXSYMLINKS d0 (segments root @ [''.'']) = walk s True k R [''.'']"
    using walk_append [OF w, of "[''.'']" True] by auto
  then have "walk s True MAXSYMLINKS d0 (segments root @ [''.'']) = Inr R" using w(2) by (simp add: walk_dot)
  with w l show ?thesis
    by (auto simp: place_def start_of_def kp_walk_names_def kpath_of_def d0_def split: if_splits)
qed

lemma resolve_names:
  assumes "data_dir root R s" "validate_path p = Inr ()" "resolve root p s = (Inr q, evs)"
  obtains root' rest where "names_below q root' rest" "root' \<in> {root, render_abs R}"
    "suffix rest (segments p)" "\<not> is_absolute p \<longrightarrow> rest = segments p"
proof -
  have q: "q = path_join root p" using resolve_Inr [OF assms(3)] by simp
  have ok: "ok_prefix root (path_join root p) s" using assms(3) refused_escape [of root p s] by fastforce
  note root = data_dirD(1) [OF assms(1)]
  then have ne: "root \<noteq> []" by (simp add: root_at_def)
  show ?thesis
  proof (cases "is_absolute p")
    case False
    with names_below_join [OF assms(2) _ ne] q that show ?thesis by blast
  next
    case True
    then have qp: "q = p" using q by (simp add: path_join_def)
    have tail: "suffix rest (segments p)" if "names_below p root' rest" for root' rest
      using that by (auto simp: names_below_def suffix_def)
    from ok_prefix_absolute [OF True ok] show ?thesis
    proof
      assume "prefix (components root) (components p)"
      with names_below_absolute [OF assms(2) True ne] qp that tail True show ?thesis by blast
    next
      assume "\<exists>c. canonicalize s (kpath_of root) = Inr c \<and> prefix (components c) (components p)"
      then have "prefix (components (render_abs R)) (components p)" using canonical_root [OF root] by auto
      with names_below_absolute [OF assms(2) True render_abs_names(3) [OF data_dirD(3) [OF assms(1)]]] qp that tail True
      show ?thesis by blast
    qed
  qed
qed

lemma data_dir_root: "data_dir root R s \<Longrightarrow> root' \<in> {root, render_abs R} \<Longrightarrow> root_at s root' R"
  using data_dirD(1) data_dir_render by auto

section \<open>What the operations change\<close>

lemma inside_step:
  assumes "data_dir root R s" "root_at s' root R" "plain_below s' R"
    and "\<And>l. \<not> strict_prefix R l \<Longrightarrow> lookup s' l = lookup s l"
  shows "stays_inside root R others s s'"
proof -
  have "outside R s' = outside R s" using assms(4) by (auto simp: outside_def)
  moreover have "\<not> strict_prefix R a" if "prefix a R" for a
    using that by (auto simp: strict_prefix_def dest: prefix_order.antisym)
  ultimately show ?thesis using assms by (simp add: stays_inside_def data_dir_def)
qed

lemma grown_inside:
  assumes "data_dir root R s" "grown s R rest s'"
  shows "stays_inside root R others s s'"
  using assms(1) grown_root [OF assms(2)] grown_plain [OF assms(2)] data_dirD(1,2) [OF assms(1)]
proof (intro inside_step)
  show "lookup s' l = lookup s l" if "\<not> strict_prefix R l" for l
    using assms(2) that unfolding grown_def by blast
qed auto

lemma root_at_set_file:
  assumes "root_at s root R" "lookup s l = None \<or> (\<exists>d t. lookup s l = Some (File d t))"
  shows "root_at (set_node l (File d t) s) root R"
  using assms walk_set_file [of s True MAXSYMLINKS _ "segments root" R l]
  by (auto simp: root_at_def lookup_set_node)

lemma plain_below_set_file: "plain_below s R \<Longrightarrow> plain_below (set_node l (File d t) s) R"
  by (auto simp: plain_below_def lookup_set_node)

lemma written_inside:
  assumes "data_dir root R s" "opened s l s'" "strict_prefix R l"
  shows "stays_inside root R others s (write_node s' l data)"
proof -
  have l: "l \<noteq> []" using assms(3) by auto
  show ?thesis
  proof (cases "\<exists>d. lookup s l = Some (Special d)")
    case True
    with assms(2) show ?thesis by (auto simp: opened_def write_node_def)
  next
    case False
    then have leaf: "lookup s l = None \<or> (\<exists>d t. lookup s l = Some (File d t))" "s' = set_node l (File [] (now s)) s"
      using assms(2) by (auto simp: opened_def)
    have s': "write_node s' l data = set_node l (File data (now s)) (set_node l (File [] (now s)) s)"
      using l by (simp add: leaf(2) write_node_set_node)
    show ?thesis
    proof (rule inside_step [OF assms(1)])
      show "root_at (write_node s' l data) root R"
        using l leaf(1) unfolding s'
        by (intro root_at_set_file data_dirD(1) [OF assms(1)]) (auto simp: lookup_set_node)
      show "plain_below (write_node s' l data) R"
        unfolding s' by (intro plain_below_set_file data_dirD(2) [OF assms(1)])
      show "lookup (write_node s' l data) m = lookup s m" if "\<not> strict_prefix R m" for m
        using that assms(3) unfolding s' by (auto simp: lookup_set_node)
    qed
  qed
qed

lemma open_trunc_below:
  assumes "root_at s root R" "plain_below s R" "names_below q root rest" "open_trunc s (kpath_of q) = (Inr l, s')"
  shows "opened s l s' \<and> strict_prefix R l"
proof -
  have o: "place s False (kpath_of q) = Inr l" "opened s l s'"
    using open_trunc_Inr [OF assms(4)] by auto
  from place_below [OF assms(1-3) o(1)] o(2) assms(1) show ?thesis
    by (cases rest) (auto simp: opened_def root_at_def strict_prefix_def)
qed

lemma fs_write_all_inside:
  assumes "env_inside root R others X" "validate_path p = Inr ()" "fs_write_all X root p rd h w = (r, w')"
  shows "stays_inside root R others (w_fs w) (w_fs w')"
proof (cases "data_dir root R (w_fs w)")
  case False
  then show ?thesis by (simp add: stays_inside_def)
next
  case start: True
  have env: "stays_inside root R others s (x_env X i s)" for i s using assms(1) by (simp add: env_inside_def)
  have keep: "data_dir root R s'" if "data_dir root R s" "stays_inside root R others s s'" for s s'
    using that by (simp add: stays_inside_def)
  obtain res evs where res: "resolve root p (w_fs w) = (res, evs)" by fastforce
  show ?thesis
  proof (cases res)
    case (Inl e)
    with assms(3) res show ?thesis by (auto simp: fs_write_all_def)
  next
    case (Inr q)
    obtain root' rest where q: "names_below q root' rest" "root' \<in> {root, render_abs R}"
      using resolve_names [OF start assms(2) res [unfolded Inr]] by metis
    have qp: "path_join root p = q" using resolve_Inr res Inr by fastforce
    note d2 = keep [OF start env [of _ 2]]
    have parents: "stays_inside root R others (w_fs w) s2" if "make_parents q (x_env X 2 (w_fs w)) = (u, s2)" for u s2
      using env stays_inside_trans
        grown_inside [OF d2 make_parents_below [OF data_dir_root [OF d2 q(2)] data_dirD(2) [OF d2] q(1) that]] by blast
    from assms(3) show ?thesis
    proof (cases rule: fs_write_all_cases)
      case (no_parents e s2)
      then show ?thesis using parents by (simp add: qp)
    next
      case (not_opened e s2)
      then show ?thesis using parents env stays_inside_trans by (metis qp)
    next
      case (written s2 l s4 data err)
      have to3: "stays_inside root R others (w_fs w) (x_env X 3 s2)"
        using parents written(1) env stays_inside_trans by (metis qp)
      note d3 = keep [OF start to3]
      have "opened (x_env X 3 s2) l s4 \<and> strict_prefix R l"
        using open_trunc_below [OF data_dir_root [OF d3 q(2)] data_dirD(2) [OF d3] q(1)] written(2) by (simp add: qp)
      then show ?thesis unfolding written(4) using written_inside [OF d3] to3 stays_inside_trans by blast
    qed simp
  qed
qed

section \<open>What the operations read\<close>

lemma fs_open_read_inside:
  assumes "env_inside root R others X"
  shows "stays_inside root R others (w_fs w) (w_fs (snd (fs_open_read X root p w)))"
  using fs_open_read_world(1) [of X root p w] assms by (auto simp: env_inside_def)

lemma fs_list_inside:
  assumes "env_inside root R others X" "fs_list X root opts w = Some (r, w')"
  shows "stays_inside root R others (w_fs w) (w_fs w')"
proof -
  have "stays_inside root R others s (x_env X i s)" for i s using assms(1) by (simp add: env_inside_def)
  then show ?thesis
    by (rule fs_list_interference [where E = "stays_inside root R others"])
      (blast intro: stays_inside_refl stays_inside_trans assms(2))+
qed


lemma demo_data_dir:
  assumes "root \<in> {''/data'', ''./data''}"
  shows "data_dir root [''data''] demo_fs"
proof -
  have "root_at demo_fs ''/data'' [''data'']" "root_at demo_fs ''./data'' [''data'']"
    unfolding root_at_def by code_simp+
  moreover have "plain_below demo_fs [''data'']"
    by (auto simp: plain_below_def lookup_def demo_fs_def split: if_splits)
  moreover have "lookup demo_fs a = Some Dir" if "prefix a [''data'']" for a
    using that by (auto simp: prefix_Cons lookup_def demo_fs_def)
  moreover have "list_all file_name [''data'']" by code_simp
  ultimately show ?thesis using assms by (auto simp: data_dir_def)
qed

lemma demo_env_inside: "env_inside root R others demo"
  by (simp add: env_inside_def)


end
