(* ===== verification/FsInvariant.thy ===== *)
theory FsInvariant
  imports Shutdown Confinement
begin

text \<open>
  The file system as an invariant: the tree is well formed (every node's parent is a directory,
  names are names), and nothing the service does deletes a node or turns it into another kind.
  Shown for the system calls, lifted to the operations of the backend and, by the locale
  \<open>store_relation\<close>, to the program from its start to its shutdown.
\<close>

section \<open>Well-formed trees\<close>

definition tree_ok :: "fsys \<Rightarrow> bool" where
  "tree_ok s \<longleftrightarrow> distinct (map fst (nodes s)) \<and> lookup s (cwd s) = Some Dir \<and>
     (\<forall>l n. lookup s l = Some n \<longrightarrow> lookup s (butlast l) = Some Dir \<and> list_all file_name l \<and>
        (\<forall>t. n = Symlink t \<longrightarrow> CHR 0x00 \<notin> set t))"

text \<open>A node stays, and only the content of a regular file changes.\<close>

fun stays :: "node \<Rightarrow> node \<Rightarrow> bool" where
  "stays (File d t) n \<longleftrightarrow> (\<exists>d' t'. n = File d' t')"
| "stays m n \<longleftrightarrow> n = m"

definition evolves :: "fsys \<Rightarrow> fsys \<Rightarrow> bool" where
  "evolves s s' \<longleftrightarrow> (tree_ok s \<longrightarrow> tree_ok s') \<and>
     (\<forall>l n. lookup s l = Some n \<longrightarrow> (\<exists>n'. lookup s' l = Some n' \<and> stays n n'))"

definition env_evolves :: "'b externs \<Rightarrow> bool" where
  "env_evolves X \<longleftrightarrow> (\<forall>i s. evolves s (x_env X i s))"

lemma stays_refl [simp]: "stays n n"
  by (cases n) auto

lemma stays_trans: "stays a b \<Longrightarrow> stays b c \<Longrightarrow> stays a c"
  by (cases a) auto

lemma evolves_refl [simp]: "evolves s s"
  by (auto simp: evolves_def)

lemma evolves_trans: "evolves a b \<Longrightarrow> evolves b c \<Longrightarrow> evolves a c"
  unfolding evolves_def by (meson stays_trans)

lemma tree_okD:
  "tree_ok s \<Longrightarrow> lookup s l = Some n \<Longrightarrow> lookup s (butlast l) = Some Dir"
  "tree_ok s \<Longrightarrow> lookup s l = Some n \<Longrightarrow> list_all file_name l"
  "tree_ok s \<Longrightarrow> lookup s l = Some (Symlink t) \<Longrightarrow> CHR 0x00 \<notin> set t"
  "tree_ok s \<Longrightarrow> lookup s (cwd s) = Some Dir"
  by (auto simp: tree_ok_def)

section \<open>Updates\<close>

text \<open>A new node below a directory, or new content for a regular file.\<close>

definition fresh_place :: "fsys \<Rightarrow> string list \<Rightarrow> bool" where
  "fresh_place s l \<longleftrightarrow> lookup s l = None \<and> lookup s (butlast l) = Some Dir \<and> list_all file_name l"

lemma evolves_set_node:
  assumes "lookup s l = None \<and> (tree_ok s \<longrightarrow> fresh_place s l) \<and> (\<forall>t. n \<noteq> Symlink t) \<or>
    (\<exists>d t d' t'. lookup s l = Some (File d t) \<and> n = File d' t')"
  shows "evolves s (set_node l n s)"
proof -
  have l: "l \<noteq> []" using assms by auto
  then have up: "butlast l \<noteq> l" by (metis append_butlast_last_id append_self_conv list.distinct(1))
  have place: "lookup s (butlast l) = Some Dir \<and> list_all file_name l \<and> lookup s l \<noteq> Some Dir" if "tree_ok s"
    using assms that tree_okD(1,2) [OF that, of l] by (auto simp: fresh_place_def)
  have "tree_ok (set_node l n s)" if "tree_ok s"
    unfolding tree_ok_def
  proof (intro conjI)
    show "distinct (map fst (nodes (set_node l n s)))"
      using that by (simp add: tree_ok_def set_node_def distinct_update)
    show "lookup (set_node l n s) (cwd (set_node l n s)) = Some Dir"
      using tree_okD(4) [OF that] place [OF that] by (auto simp: lookup_set_node)
    show "\<forall>q m. lookup (set_node l n s) q = Some m \<longrightarrow> lookup (set_node l n s) (butlast q) = Some Dir \<and>
        list_all file_name q \<and> (\<forall>t. m = Symlink t \<longrightarrow> CHR 0x00 \<notin> set t)"
      using tree_okD [OF that] place [OF that] assms up by (auto simp: lookup_set_node)
  qed
  with assms show ?thesis by (auto simp: evolves_def lookup_set_node)
qed

lemma evolves_write_node: "evolves s (write_node s l data)"
  by (auto simp: write_node_def intro!: evolves_set_node split: option.splits node.splits)

section \<open>Where the system calls put new nodes\<close>

definition plain_name :: "string \<Rightarrow> bool" where
  "plain_name c \<longleftrightarrow> c \<noteq> [] \<and> CHR ''/'' \<notin> set c"

definition kpath_ok :: "kpath \<Rightarrow> bool" where
  "kpath_ok kp \<longleftrightarrow> list_all plain_name (kp_names kp)"

lemma link_names_plain:
  "CHR 0x00 \<notin> set t \<Longrightarrow> c \<in> set (link_names t) \<Longrightarrow> plain_name c \<and> CHR 0x00 \<notin> set c"
  using set_segments [of c t] segments_no_slash [of c t]
  by (auto simp: link_names_def plain_name_def split: if_splits)

lemma walk_fresh:
  assumes "walk s fl k d cs = Inr l" "tree_ok s" "lookup s d \<noteq> None"
    and "list_all (\<lambda>c. plain_name c \<and> CHR 0x00 \<notin> set c) cs" "lookup s l = None"
  shows "fresh_place s l"
  using assms(1,3-)
proof (induction rule: walk_induct)
  case (dotdot k d cs l)
  then show ?case using tree_okD(1) [OF assms(2)] by auto
next
  case (None k d c)
  then show ?case using tree_okD(2) [OF assms(2) None(1)]
    by (auto simp: fresh_place_def file_name_def plain_name_def)
next
  case (link k d c cs t l)
  have "lookup s (if is_absolute t then [] else d) \<noteq> None" using link(1) by simp
  moreover have "list_all (\<lambda>c. plain_name c \<and> CHR 0x00 \<notin> set c) (link_names t @ cs)"
    using link_names_plain [OF tree_okD(3) [OF assms(2) link(4)]] link.prems(2) by (auto simp: list_all_iff)
  ultimately show ?case using link.IH link.prems(3) by blast
qed auto

lemma sys_walk_fresh:
  assumes "sys_walk s call fl kp = Inr l" "kpath_ok kp" "lookup s l = None" "tree_ok s"
  shows "fresh_place s l"
proof -
  have "walk s fl MAXSYMLINKS (if kp_abs kp then [] else cwd s)
      (kp_names kp @ (if kp_trailing kp then [''.''] else [])) = Inr l"
    "\<forall>c \<in> set (kp_names kp). CHR 0x00 \<notin> set c"
    using assms(1) by (auto simp: sys_walk_def split: if_splits option.splits sum.splits)
  moreover have "lookup s (if kp_abs kp then [] else cwd s) \<noteq> None"
    using tree_okD(4) [OF assms(4)] by simp
  ultimately show ?thesis
    using assms(2) by (intro walk_fresh [OF _ assms(4) _ _ assms(3)])
      (auto simp: kpath_ok_def list_all_iff plain_name_def)
qed

lemma mkdir_evolves:
  assumes "kpath_ok kp" "mkdir s kp = (r, s')"
  shows "evolves s s'"
proof (cases "sys_walk s SysMkdir False (kp\<lparr>kp_trailing := False\<rparr>)")
  case (Inr l)
  have "kpath_ok (kp\<lparr>kp_trailing := False\<rparr>)" using assms(1) by (simp add: kpath_ok_def)
  then show ?thesis
    using assms(2) Inr sys_walk_fresh [OF Inr]
    by (auto simp: mkdir_def intro!: evolves_set_node split: option.splits)
qed (use assms(2) in \<open>simp add: mkdir_def\<close>)

lemma open_trunc_evolves:
  assumes "kpath_ok kp" "open_trunc s kp = (r, s')"
  shows "evolves s s'"
proof (cases "sys_walk s SysOpenWrite False (kp\<lparr>kp_trailing := False\<rparr>)")
  case (Inr l)
  have "kpath_ok (kp\<lparr>kp_trailing := False\<rparr>)" using assms(1) by (simp add: kpath_ok_def)
  then show ?thesis
    using assms(2) Inr sys_walk_fresh [OF Inr]
    by (auto simp: open_trunc_def intro!: evolves_set_node split: option.splits node.splits if_splits)
qed (use assms(2) in \<open>simp add: open_trunc_def\<close>)

lemma kpath_of_ok: "kpath_ok (kpath_of p)"
  using segments_no_slash [of _ p] by (auto simp: kpath_ok_def kpath_of_def list_all_iff plain_name_def)

lemma component_names_plain:
  assumes "\<And>seg. Normal seg \<in> set cs \<Longrightarrow> plain_name seg"
  shows "list_all plain_name (component_names cs)"
  using assms by (induction cs rule: component_names.induct) (auto simp: plain_name_def)

lemma components_plain: "Normal seg \<in> set (components p) \<Longrightarrow> plain_name seg"
  using segments_no_slash [of seg p]
  by (auto simp: components_def body_components_def component_of_def plain_name_def split: if_splits list.splits)

lemma create_dir_all_evolves:
  assumes "create_dir_all s cs = (r, s')" "\<And>seg. Normal seg \<in> set cs \<Longrightarrow> plain_name seg"
  shows "evolves s s'"
  using assms(1) evolves_refl
proof (rule create_dir_all_invariant)
  fix a s1 r1 s2
  assume a: "a \<in> set (ancestors_of cs)" "evolves s s1" "mkdir s1 (kpath_of_components a) = (r1, s2)"
  have "set a \<subseteq> set cs" using ancestors_of_imp_prefix [OF a(1)] by (rule set_mono_prefix)
  then have "kpath_ok (kpath_of_components a)"
    using assms(2) component_names_plain [of a] by (auto simp: kpath_ok_def kpath_of_components_def)
  with a(2,3) show "evolves s s2" using mkdir_evolves evolves_trans by blast
qed

lemma make_parents_evolves:
  assumes "make_parents q s = (r, s')"
  shows "evolves s s'"
proof (cases "parent_components (components q)")
  case (Some p)
  then have "set p \<subseteq> set (components q)"
    by (auto simp: parent_components_def dest: in_set_butlastD split: if_splits)
  with assms Some show ?thesis
    using components_plain create_dir_all_evolves [of s p r s'] by (auto simp: make_parents_def)
qed (use assms in \<open>simp add: make_parents_def\<close>)

section \<open>The backends\<close>

definition files_stay :: "'b world \<Rightarrow> 'b world \<Rightarrow> bool" where
  "files_stay w w' \<longleftrightarrow> evolves (w_fs w) (w_fs w')"

interpretation tree: store_relation files_stay
  by unfold_locales (auto simp: files_stay_def store_def intro: evolves_trans)

lemma fs_write_all_evolves:
  assumes "env_evolves X" "fs_write_all X root p rd h w = (r, w')"
  shows "evolves (w_fs w) (w_fs w')"
proof -
  have env: "evolves s (x_env X i s)" for i s using assms(1) by (simp add: env_evolves_def)
  from assms(2) show ?thesis
  proof (cases rule: fs_write_all_cases)
    case (no_parents e s2)
    then show ?thesis using env make_parents_evolves evolves_trans by metis
  next
    case (not_opened e s2)
    then show ?thesis using env make_parents_evolves evolves_trans by metis
  next
    case (written s2 l s4 data err)
    have "evolves (w_fs w) s2" using env make_parents_evolves [OF written(1)] by (rule evolves_trans)
    moreover have "evolves s2 s4" using env open_trunc_evolves [OF kpath_of_ok written(2)] by (rule evolves_trans)
    ultimately have "evolves (w_fs w) s4" by (rule evolves_trans)
    then show ?thesis unfolding written(4) using evolves_write_node by (rule evolves_trans)
  qed simp
qed

lemma fs_list_evolves:
  assumes "env_evolves X" "fs_list X root opts w = Some (r, w')"
  shows "evolves (w_fs w) (w_fs w')"
proof -
  have "evolves s (x_env X i s)" for i s using assms(1) by (simp add: env_evolves_def)
  then show ?thesis
    by (rule fs_list_interference [where E = evolves]) (blast intro: evolves_refl evolves_trans assms(2))+
qed

lemma fs_backend_files_stay:
  assumes "env_evolves X"
  shows "backend_rel files_stay (fs_backend X root)"
proof -
  have "evolves (w_fs w) (w_fs (snd (fs_open_read X root p w)))" for p and w :: "'a world"
    using fs_open_read_world(1) [of X root p w] assms by (auto simp: env_evolves_def)
  moreover have "evolves (w_fs w) (w_fs (snd (fs_write_all X root p rd h w)))" for p rd h and w :: "'a world"
    using fs_write_all_evolves [OF assms] by (metis prod.collapse)
  ultimately show ?thesis
    using fs_list_evolves [OF assms] by (auto simp: backend_rel_def files_stay_def)
qed

lemma s3_backend_files_stay: "backend_rel files_stay (s3_backend X sb)"
  by (auto simp: backend_rel_def files_stay_def s3_list_def s3_open_read_def s3_write_all_def Let_def
      case_prod_beta split: sum.split get_error.split option.split)

lemma offline_files_stay: "backend_rel files_stay (offline_backend k)"
  by (simp add: backend_rel_def files_stay_def)

lemma wired_files_stay:
  assumes "env_evolves X" "wired X bs" "pick bs k = Inr be"
  shows "backend_rel files_stay be"
  using assms(2,3)
  by (rule wired_pick_cases) (simp_all add: fs_backend_files_stay [OF assms(1)] s3_backend_files_stay offline_files_stay)

section \<open>The program\<close>


lemma demo_tree: "tree_ok demo_fs"
  by (auto simp: tree_ok_def demo_fs_def lookup_def file_name_def split: if_splits)


section \<open>Confinement\<close>

definition world_inside :: "string \<Rightarrow> string list \<Rightarrow>
    ((string list \<Rightarrow> node option) \<Rightarrow> (string list \<Rightarrow> node option) \<Rightarrow> bool) \<Rightarrow> 'b world \<Rightarrow> 'b world \<Rightarrow> bool" where
  "world_inside root R others w w' \<longleftrightarrow> stays_inside root R others (w_fs w) (w_fs w')"

interpretation inside: store_relation "world_inside root R others" for root R others
  by unfold_locales (auto simp: world_inside_def store_def intro: stays_inside_trans)

lemma fs_backend_inside:
  assumes "env_inside root R others X"
  shows "backend_rel (world_inside root R others) (fs_backend X root)"
  using fs_write_all_inside [OF assms] fs_open_read_inside [OF assms] fs_list_inside [OF assms]
  by (auto simp: backend_rel_def world_inside_def) (metis prod.collapse)

lemma s3_backend_inside: "backend_rel (world_inside root R others) (s3_backend X sb)"
  by (auto simp: backend_rel_def world_inside_def s3_list_def s3_open_read_def s3_write_all_def Let_def
      case_prod_beta split: sum.split get_error.split option.split)

lemma offline_inside: "backend_rel (world_inside root R others) (offline_backend k)"
  by (simp add: backend_rel_def world_inside_def)

lemma state_inside:
  assumes "env_inside (fc_data_directory (ac_fs cfg)) R others X"
    and "pick (st_backends (app_state_of X env cfg)) k = Inr be"
  shows "backend_rel (world_inside (fc_data_directory (ac_fs cfg)) R others) be"
  using assms(2) fs_backend_inside [OF assms(1)]
  by (cases k; cases "ac_s3 cfg") (auto simp: pick_def app_state_of_s3 s3_backend_inside offline_inside split: if_splits)



end
