(* ===== verification/Calendar.thy ===== *)
theory Calendar
  imports Rfc3339
begin

text \<open>
  The correctness of the date arithmetic of \<open>format_rfc3339\<close>. The reference is the
  Gregorian calendar itself: the date of day \<open>n\<close> is the \<open>n\<close>-th successor of 1970-01-01.
  The years of a 400-year era are checked at their first and last day and the formula is
  monotone in between; the months come from a table.
\<close>

section \<open>The calendar\<close>

definition leap_year :: "int \<Rightarrow> bool" where
  "leap_year y \<longleftrightarrow> (4 dvd y \<and> \<not> 100 dvd y) \<or> 400 dvd y"

definition days_in_month :: "int \<Rightarrow> nat \<Rightarrow> nat" where
  "days_in_month y m =
     (if m = 2 then (if leap_year y then 29 else 28)
      else if m \<in> {4, 6, 9, 11} then 30 else 31)"

fun next_day :: "int \<times> nat \<times> nat \<Rightarrow> int \<times> nat \<times> nat" where
  "next_day (y, m, d) =
     (if d < days_in_month y m then (y, m, d + 1)
      else if m < 12 then (y, m + 1, 1)
      else (y + 1, 1, 1))"

section \<open>Years of an era\<close>

text \<open>\<open>year_start y\<close> is the first day of the \<open>y\<close>-th year (from 1 March) of a 400-year era.\<close>

definition year_start :: "nat \<Rightarrow> nat" where
  "year_start y = 365 * y + y div 4 - y div 100 + y div 400"

definition shrunk :: "nat \<Rightarrow> nat" where
  "shrunk doe = doe - doe div 1460 + doe div 36524 - doe div 146096"

lemma shrunk_mono_step: "doe < 146096 \<Longrightarrow> shrunk doe \<le> shrunk (Suc doe)"
proof -
  assume d: "doe < 146096"
  have a: "Suc doe div 1460 \<le> Suc (doe div 1460)" by (simp add: div_Suc)
  have b: "doe div 36524 \<le> Suc doe div 36524" by (rule div_le_mono) simp
  show ?thesis
  proof (cases "Suc doe = 146096")
    case True
    then have "doe = 146095" by simp
    then show ?thesis by (simp only: shrunk_def) simp
  next
    case False
    with d have "Suc doe div 146096 = 0" "doe div 146096 = 0" by simp_all
    moreover have "doe div 1460 \<le> doe" by simp
    moreover have "n - x + z \<le> Suc n - x' + z'"
      if "x' \<le> Suc x" "z \<le> z'" "x \<le> n" for n x x' z z' :: nat
      using that by arith
    ultimately show ?thesis unfolding shrunk_def using a b by simp
  qed
qed

lemma shrunk_mono: "a \<le> b \<Longrightarrow> b \<le> 146096 \<Longrightarrow> shrunk a \<le> shrunk b"
proof (induction b)
  case (Suc b)
  show ?case
  proof (cases "a = Suc b")
    case False
    with Suc have "shrunk a \<le> shrunk b" by simp
    also have "\<dots> \<le> shrunk (Suc b)" using Suc.prems by (intro shrunk_mono_step) simp
    finally show ?thesis .
  qed simp
qed simp

lemma year_endpoints_int:
  "list_all
     (\<lambda>y :: int.
        let a = 365 * y + y div 4 - y div 100 + y div 400;
            b = 365 * (y + 1) + (y + 1) div 4 - (y + 1) div 100 + (y + 1) div 400 - 1
        in (a - a div 1460 + a div 36524 - a div 146096) div 365 = y \<and>
           (b - b div 1460 + b div 36524 - b div 146096) div 365 = y \<and> a + 364 \<le> b)
     [0..399]"
  by code_simp

lemma int_year_start: "int (year_start y) = 365 * int y + int y div 4 - int y div 100 + int y div 400"
proof -
  have "y div 100 \<le> 365 * y + y div 4"
    by (rule order_trans [OF div_le_dividend]) simp
  then show ?thesis by (simp add: year_start_def zdiv_int of_nat_diff)
qed

lemma int_shrunk:
  "doe \<le> 146096 \<Longrightarrow>
     int (shrunk doe) = int doe - int doe div 1460 + int doe div 36524 - int doe div 146096"
proof -
  assume d: "doe \<le> 146096"
  have 1: "doe div 1460 \<le> doe" by simp
  have 2: "doe div 146096 \<le> doe div 36524" by (rule div_le_mono2) simp_all
  then have "doe div 146096 \<le> doe - doe div 1460 + doe div 36524" by simp
  with 1 show ?thesis by (simp add: shrunk_def zdiv_int of_nat_diff)
qed

lemma year_start_400: "year_start 400 = 146097" and year_start_0: "year_start 0 = 0"
  by (simp_all add: year_start_def)


lemma year_endpoints:
  assumes "y < 400"
  shows "year_start y + 365 \<le> year_start (Suc y)"
    and "year_start (Suc y) \<le> 146097 \<Longrightarrow> shrunk (year_start y) div 365 = y"
    and "year_start (Suc y) \<le> 146097 \<Longrightarrow> shrunk (year_start (Suc y) - 1) div 365 = y"
proof -
  let ?a = "int (year_start y)" and ?b = "int (year_start (Suc y)) - 1"
  have "int y \<in> set [0..399]" using assms by simp
  note h = bspec [OF year_endpoints_int [unfolded list_all_iff] this]
  have eqa: "365 * int y + int y div 4 - int y div 100 + int y div 400 = ?a"
    by (simp add: int_year_start)
  have eqb: "365 * (int y + 1) + (int y + 1) div 4 - (int y + 1) div 100
      + (int y + 1) div 400 - 1 = ?b"
    using int_year_start [of "Suc y"] by (simp add: algebra_simps)
  have e: "(?a - ?a div 1460 + ?a div 36524 - ?a div 146096) div 365 = int y"
      "(?b - ?b div 1460 + ?b div 36524 - ?b div 146096) div 365 = int y" "?a + 364 \<le> ?b"
    using h unfolding eqa eqb Let_def by blast+
  show 1: "year_start y + 365 \<le> year_start (Suc y)" using e(3) by simp
  assume le: "year_start (Suc y) \<le> 146097"
  have "int (shrunk (year_start y) div 365) = int y"
    using e(1) 1 le by (simp add: zdiv_int int_shrunk)
  then show "shrunk (year_start y) div 365 = y" by simp
  have "int (year_start (Suc y) - 1) = ?b" using 1 by (simp add: of_nat_diff)
  then have "int (shrunk (year_start (Suc y) - 1) div 365) = int y"
    using e(2) le by (simp add: zdiv_int int_shrunk)
  then show "shrunk (year_start (Suc y) - 1) div 365 = y" by simp
qed

lemma year_start_mono: "a \<le> b \<Longrightarrow> b \<le> 400 \<Longrightarrow> year_start a \<le> year_start b"
proof (induction b)
  case (Suc b)
  show ?case
  proof (cases "a = Suc b")
    case False
    with Suc have "year_start a \<le> year_start b" by simp
    also have "\<dots> \<le> year_start (Suc b)" using year_endpoints(1) [of b] Suc.prems by simp
    finally show ?thesis .
  qed simp
qed simp

lemma year_start_strict: "a < b \<Longrightarrow> b \<le> 400 \<Longrightarrow> year_start a < year_start b"
  using year_start_mono [of "Suc a" b] year_endpoints(1) [of a] by simp

lemma year_start_le: "y \<le> 400 \<Longrightarrow> year_start y \<le> 146097"
  using year_start_mono [of y 400] by (simp add: year_start_400)

lemma year_exists: "n \<le> 400 \<Longrightarrow> doe < year_start n \<Longrightarrow>
    \<exists>y < n. year_start y \<le> doe \<and> doe < year_start (Suc y)"
proof (induction n)
  case 0
  then show ?case by (simp add: year_start_0)
next
  case (Suc n)
  show ?case
  proof (cases "doe < year_start n")
    case True
    with Suc show ?thesis using less_SucI by fastforce
  next
    case False
    with Suc.prems show ?thesis by (intro exI [of _ n]) simp
  qed
qed

text \<open>The division formula finds the year a day of the era belongs to.\<close>

lemma year_of_era_unique:
  assumes "y < 400" "year_start y \<le> doe" "doe < year_start (Suc y)"
  shows "year_of_era doe = y"
proof -
  have le: "year_start (Suc y) \<le> 146097" using assms(1) by (intro year_start_le) simp
  have "shrunk (year_start y) \<le> shrunk doe" using assms le by (intro shrunk_mono) simp_all
  moreover have "shrunk doe \<le> shrunk (year_start (Suc y) - 1)"
    using assms le by (intro shrunk_mono) simp_all
  ultimately have "y \<le> shrunk doe div 365" "shrunk doe div 365 \<le> y"
    using year_endpoints(2,3) [OF assms(1) le] by (metis div_le_mono)+
  then show ?thesis by (simp add: year_of_era_def shrunk_def)
qed

lemma year_of_era_bounds:
  assumes "doe < 146097"
  shows "year_of_era doe < 400" "year_start (year_of_era doe) \<le> doe"
    "doe < year_start (Suc (year_of_era doe))"
proof -
  obtain y where "y < 400" "year_start y \<le> doe" "doe < year_start (Suc y)"
    using year_exists [of 400 doe] assms by (auto simp: year_start_400)
  then show "year_of_era doe < 400" "year_start (year_of_era doe) \<le> doe"
    "doe < year_start (Suc (year_of_era doe))" by (simp_all add: year_of_era_unique)
qed

lemma day_of_year_eq: "doe < 146097 \<Longrightarrow> day_of_year doe = doe - year_start (year_of_era doe)"
  using year_of_era_bounds(1) [of doe] by (simp add: day_of_year_def Let_def year_start_def)


definition year_length :: "int \<Rightarrow> nat" where
  "year_length y = (if leap_year (y + 1) then 366 else 365)"

lemma leap_year_era: "leap_year (y + e * 400) = leap_year y"
proof -
  have "4 dvd (y + e * 400) \<longleftrightarrow> 4 dvd y" "100 dvd (y + e * 400) \<longleftrightarrow> 100 dvd y"
    "400 dvd (y + e * 400) \<longleftrightarrow> 400 dvd y"
    by (rule dvd_add_left_iff, rule dvd_mult, simp)+
  then show ?thesis by (simp add: leap_year_def)
qed

lemma leap_year_nat:
  "leap_year (int n) \<longleftrightarrow> (n mod 4 = 0 \<and> n mod 100 \<noteq> 0) \<or> n mod 400 = 0"
  unfolding leap_year_def dvd_eq_mod_eq_0 by presburger

lemma year_start_Suc:
  assumes "y < 400"
  shows "year_start (Suc y) = year_start y + year_length (int y + e * 400)"
proof -
  define p4 p100 p400 where "p4 = (Suc y mod 4 = 0)" and "p100 = (Suc y mod 100 = 0)"
    and "p400 = (Suc y mod 400 = 0)"
  have imp: "p400 \<Longrightarrow> p100" "p100 \<Longrightarrow> p4"
    unfolding p4_def p100_def p400_def by presburger+
  have quot: "Suc y div 4 = y div 4 + (if p4 then 1 else 0)"
    "Suc y div 100 = y div 100 + (if p100 then 1 else 0)"
    "Suc y div 400 = y div 400 + (if p400 then 1 else 0)"
    unfolding p4_def p100_def p400_def by (simp_all only: div_Suc) simp_all
  have "leap_year (int y + e * 400 + 1) \<longleftrightarrow> (p4 \<and> \<not> p100) \<or> p400"
    using leap_year_era [of "int (Suc y)" e] leap_year_nat [of "Suc y"]
    by (simp add: p4_def p100_def p400_def algebra_simps)
  then have len: "year_length (int y + e * 400) = (if (p4 \<and> \<not> p100) \<or> p400 then 366 else 365)"
    by (simp only: year_length_def)
  have "365 * Suc y + (a + (if p4 then 1 else 0)) - (b + (if p100 then 1 else 0))
      + (c + (if p400 then 1 else 0))
      = 365 * y + a - b + c + (if (p4 \<and> \<not> p100) \<or> p400 then 366 else 365)"
    if "b \<le> y" for a b c
    using imp that by (cases p4; cases p100; cases p400) auto
  then show ?thesis unfolding year_start_def quot len by (metis div_le_dividend)
qed

section \<open>Days of a year\<close>

definition month_day :: "nat \<Rightarrow> nat \<times> nat" where
  "month_day doy =
     (let mp = (5 * doy + 2) div 153
      in (if mp < 10 then mp + 3 else mp - 9, doy - (153 * mp + 2) div 5 + 1))"

definition date_in_year :: "int \<Rightarrow> nat \<Rightarrow> int \<times> nat \<times> nat" where
  "date_in_year y doy =
     (let (m, d) = month_day doy in (if m \<le> 2 then y + 1 else y, m, d))"

lemma month_of_day: "153 * k \<le> 5 * doy + 2 \<Longrightarrow> 5 * doy + 2 < 153 * k + 153 \<Longrightarrow>
    (5 * doy + 2) div 153 = (k :: nat)"
  by (simp add: div_nat_eqI)

lemma month_day_at: "153 * k \<le> 5 * doy + 2 \<Longrightarrow> 5 * doy + 2 < 153 * k + 153 \<Longrightarrow>
    month_day doy = (if k < 10 then k + 3 else k - 9, doy - (153 * k + 2) div 5 + 1)"
  unfolding month_day_def by (simp only: month_of_day Let_def)

lemma doy_range:
  fixes doy :: nat
  assumes "doy < 366"
  obtains "doy < 31" | "31 \<le> doy" "doy < 61" | "61 \<le> doy" "doy < 92" | "92 \<le> doy" "doy < 122"
    | "122 \<le> doy" "doy < 153" | "153 \<le> doy" "doy < 184" | "184 \<le> doy" "doy < 214"
    | "214 \<le> doy" "doy < 245" | "245 \<le> doy" "doy < 275" | "275 \<le> doy" "doy < 306"
    | "306 \<le> doy" "doy < 337" | "337 \<le> doy" "doy < 366"
  using assms by linarith

text \<open>The months' table behind the formula.\<close>

lemma month_day_table:
  assumes "doy < 366"
  shows "month_day doy =
    (if doy < 31 then (3, doy + 1) else if doy < 61 then (4, doy - 30)
     else if doy < 92 then (5, doy - 60) else if doy < 122 then (6, doy - 91)
     else if doy < 153 then (7, doy - 121) else if doy < 184 then (8, doy - 152)
     else if doy < 214 then (9, doy - 183) else if doy < 245 then (10, doy - 213)
     else if doy < 275 then (11, doy - 244) else if doy < 306 then (12, doy - 274)
     else if doy < 337 then (1, doy - 305) else (2, doy - 336))"
  using assms
proof (cases rule: doy_range)
  case 1 then show ?thesis using month_day_at [of 0 doy] by simp
next
  case 2 then show ?thesis using month_day_at [of 1 doy] by simp
next
  case 3 then show ?thesis using month_day_at [of 2 doy] by simp
next
  case 4 then show ?thesis using month_day_at [of 3 doy] by simp
next
  case 5 then show ?thesis using month_day_at [of 4 doy] by simp
next
  case 6 then show ?thesis using month_day_at [of 5 doy] by simp
next
  case 7 then show ?thesis using month_day_at [of 6 doy] by simp
next
  case 8 then show ?thesis using month_day_at [of 7 doy] by simp
next
  case 9 then show ?thesis using month_day_at [of 8 doy] by simp
next
  case 10 then show ?thesis using month_day_at [of 9 doy] by simp
next
  case 11 then show ?thesis using month_day_at [of 10 doy] by simp
next
  case 12 then show ?thesis using month_day_at [of 11 doy] by simp
qed

lemma next_day_same_year:
  assumes "Suc doy < year_length y"
  shows "next_day (date_in_year y doy) = date_in_year y (Suc doy)"
proof -
  have lt: "doy < 366" "Suc doy < 366" and feb: "leap_year (y + 1) \<or> doy < 364"
    using assms by (auto simp: year_length_def split: if_splits)
  note t = month_day_table [OF lt(1)] month_day_table [OF lt(2)]
  show ?thesis
    using lt(1) by (cases rule: doy_range)
      (use lt(2) feb in \<open>auto simp: date_in_year_def t days_in_month_def\<close>)
qed

lemma next_day_new_year:
  assumes "Suc doy = year_length y"
  shows "next_day (date_in_year y doy) = date_in_year (y + 1) 0"
proof -
  have "month_day doy = (2, doy - 336)" "337 \<le> doy"
    using assms by (auto simp: month_day_table year_length_def split: if_splits)
  moreover have "month_day 0 = (3, 1)" by (simp add: month_day_table)
  ultimately show ?thesis
    using assms by (auto simp: date_in_year_def days_in_month_def year_length_def split: if_splits)
qed

section \<open>The date of a day\<close>

lemma civil_from_days_eq:
  fixes days :: nat
  defines "n \<equiv> days + 719468"
  shows "civil_from_days days =
     date_in_year (int (year_of_era (n mod 146097)) + int (n div 146097) * 400)
       (day_of_year (n mod 146097))"
proof -
  have z: "int days + 719468 = int n" by (simp add: n_def)
  have nonneg: "int n \<ge> 0" by simp
  have era: "int n sdiv 146097 = int (n div 146097)"
    by (cases "n = 0") (simp_all add: signed_divide_int_def zdiv_int)
  have "int n - int (n div 146097) * 146097 = int (n mod 146097)"
    by (simp add: zmod_int zdiv_int minus_div_mult_eq_mod)
  then have doe: "nat (int n - int (n div 146097) * 146097) = n mod 146097" by simp
  show ?thesis
    by (simp only: civil_from_days_def Let_def z if_P [OF nonneg] era doe date_in_year_def
        month_day_def split_conv prod.case)
qed


lemma next_day_civil: "next_day (civil_from_days days) = civil_from_days (Suc days)"
proof -
  define n doe era where "n = days + 719468" and "doe = n mod 146097" and "era = n div 146097"
  define y where "y = year_of_era doe"
  have doe: "doe < 146097" by (simp add: doe_def)
  note yb = year_of_era_bounds [OF doe, folded y_def]
  have len: "year_start (Suc y) = year_start y + year_length (int y + int era * 400)"
    using yb(1) by (rule year_start_Suc)
  have now: "civil_from_days days = date_in_year (int y + int era * 400) (doe - year_start y)"
    using doe by (simp add: civil_from_days_eq day_of_year_eq n_def doe_def era_def y_def)
  have nxt: "civil_from_days (Suc days) =
      date_in_year (int (year_of_era (Suc n mod 146097)) + int (Suc n div 146097) * 400)
        (Suc n mod 146097 - year_start (year_of_era (Suc n mod 146097)))"
    by (simp add: civil_from_days_eq day_of_year_eq n_def)
  consider (same) "Suc doe < year_start (Suc y)" | (year) "Suc doe = year_start (Suc y)" "y < 399"
    | (era) "Suc doe = year_start (Suc y)" "y = 399"
    using yb(1,3) by linarith
  then show ?thesis
  proof cases
    case same
    then have d: "Suc doe < 146097" using year_start_le [of "Suc y"] yb(1) by simp
    then have "Suc n mod 146097 = Suc doe" "Suc n div 146097 = era"
      by (simp_all add: doe_def era_def mod_Suc div_Suc split: if_splits)
    moreover have "year_of_era (Suc doe) = y"
      using same yb by (intro year_of_era_unique) simp_all
    ultimately show ?thesis
      using same yb len nxt now by (simp add: next_day_same_year Suc_diff_le)
  next
    case year
    then have "Suc doe < 146097" using year_start_strict [of "Suc y" 400] by (simp add: year_start_400)
    then have "Suc n mod 146097 = Suc doe" "Suc n div 146097 = era"
      by (simp_all add: doe_def era_def mod_Suc div_Suc split: if_splits)
    moreover have "year_of_era (Suc doe) = Suc y"
      using year year_start_strict [of "Suc y" "Suc (Suc y)"] by (intro year_of_era_unique) simp_all
    ultimately show ?thesis
      using year yb len nxt now next_day_new_year [of "doe - year_start y" "int y + int era * 400"]
      by (simp add: Suc_diff_le algebra_simps)
  next
    case era
    then have e: "Suc doe = 146097" by (simp add: year_start_400)
    then have "Suc n mod 146097 = 0" "Suc n div 146097 = Suc (n div 146097)"
      by (simp_all add: doe_def mod_Suc div_Suc)
    moreover have "year_of_era 0 = 0" by (simp add: year_of_era_def)
    ultimately show ?thesis
      using era yb len nxt now e next_day_new_year [of "doe - year_start y" "int y + int (n div 146097) * 400"]
      by (simp add: Suc_diff_le algebra_simps era_def year_start_0)
  qed
qed

lemma civil_from_days_0: "civil_from_days 0 = (1970, 1, 1)"
proof -
  have "year_of_era 135080 = 369"
    by (simp add: year_of_era_def)
  moreover have "month_day 306 = (1, 1)" by (simp add: month_day_table)
  ultimately show ?thesis
    by (simp add: civil_from_days_eq day_of_year_def Let_def date_in_year_def)
qed

lemma civil_from_days_iterate: "civil_from_days n = (next_day ^^ n) (1970, 1, 1)"
  by (induction n) (simp_all add: civil_from_days_0 flip: next_day_civil)

section \<open>The properties\<close>

text \<open>A date of the calendar: the month exists, and so does the day in it.\<close>

fun real_date :: "int \<times> nat \<times> nat \<Rightarrow> bool" where
  "real_date (y, m, d) \<longleftrightarrow> 1 \<le> m \<and> m \<le> 12 \<and> 1 \<le> d \<and> d \<le> days_in_month y m"

lemma next_day_real: "real_date ymd \<Longrightarrow> real_date (next_day ymd) \<and> fst ymd \<le> fst (next_day ymd)"
  by (cases ymd) (auto simp: days_in_month_def)

lemma iterate_real: "real_date ((next_day ^^ n) (1970, 1, 1)) \<and> 1970 \<le> fst ((next_day ^^ n) (1970, 1, 1))"
proof (induction n)
  case 0
  show ?case by (simp add: days_in_month_def)
next
  case (Suc n)
  with next_day_real [of "(next_day ^^ n) (1970, 1, 1)"] show ?case by simp
qed

text \<open>
  C40: the text of a time is the Gregorian date and time of day of that second: the date is
  1970-01-01 advanced by as many days, one calendar day at a time (month lengths and leap
  years included), which is always an existing date, and the time of day is what is left.
\<close>
theorem rfc3339_is_calendar_date:
  "let (y, m, d) = (next_day ^^ (unat secs div 86400)) (1970, 1, 1);
       t = unat secs mod 86400
   in format_rfc3339 secs =
        pad_left 4 (dec (nat y)) @ ''-'' @ pad_left 2 (dec m) @ ''-'' @ pad_left 2 (dec d) @ ''T'' @
        pad_left 2 (dec (t div 3600)) @ '':'' @ pad_left 2 (dec (t div 60 mod 60)) @ '':'' @
        pad_left 2 (dec (t mod 60)) @ ''Z'' \<and>
      real_date (y, m, d) \<and> 1970 \<le> y \<and> t div 3600 < 24"
proof -
  have t: "t mod 86400 div 3600 < 24" for t :: nat by (simp add: div_less_iff_less_mult)
  show ?thesis
    using iterate_real [of "unat secs div 86400"] t [of "unat secs"]
    by (auto simp: format_rfc3339_def Let_def civil_from_days_iterate unat_div unat_mod
        simp del: funpow.simps split: prod.splits)
qed

text \<open>
  No subtraction of the date arithmetic goes below zero for a day of a 400-year era, so
  the unsigned arithmetic of the code and that of the model agree, and the month computed is in range.
\<close>
theorem civil_no_underflow:
  assumes "doe < 146097"
  defines "yoe \<equiv> year_of_era doe" and "doy \<equiv> day_of_year doe"
  defines "mp \<equiv> (5 * doy + 2) div 153"
  shows "doe div 146096 \<le> doe - doe div 1460 + doe div 36524 \<and>
    yoe < 400 \<and> yoe div 100 \<le> 365 * yoe + yoe div 4 \<and>
    365 * yoe + yoe div 4 - yoe div 100 \<le> doe \<and> doy \<le> 365 \<and> (153 * mp + 2) div 5 \<le> doy \<and> mp \<le> 11"
proof -
  note yb = year_of_era_bounds [OF assms(1), folded yoe_def]
  have 1: "doe div 146096 \<le> doe - doe div 1460 + doe div 36524"
    by (rule trans_le_add2) (rule div_le_mono2, simp_all)
  have 2: "yoe div 100 \<le> 365 * yoe + yoe div 4"
    by (rule order_trans [OF div_le_dividend]) simp
  have 3: "365 * yoe + yoe div 4 - yoe div 100 \<le> doe"
    using yb(1,2) by (simp add: year_start_def)
  have "year_start (Suc yoe) \<le> year_start yoe + 366"
    using year_start_Suc [OF yb(1), of 0] by (simp add: year_length_def)
  then have 4: "doy \<le> 365"
    using yb(2,3) day_of_year_eq [OF assms(1)] by (simp add: doy_def yoe_def)
  have 5: "153 * mp \<le> 5 * doy + 2" by (simp add: mp_def)
  then have "(153 * mp + 2) div 5 \<le> (5 * doy + 4) div 5" by (intro div_le_mono) linarith
  then have 6: "(153 * mp + 2) div 5 \<le> doy" by simp
  have 7: "mp \<le> 11" using 4 by (simp add: mp_def)
  show ?thesis using 1 2 3 4 6 7 yb(1) by blast
qed

lemma civil_no_underflow_witness:
  "(146096 :: nat) div 146096 \<le> 146096 - 146096 div 1460 + 146096 div 36524 \<and> day_of_year 146096 \<le> 365"
proof -
  have "(146096 :: nat) < 146097" by simp
  from civil_no_underflow [OF this] show ?thesis by blast
qed

end
