(* ===== verification/Spec2Isabelle.thy ===== *)
theory Spec2Isabelle
  imports Responses FsUnitTests FsProperties S3Properties FsInvariant Shutdown Calendar
begin

text \<open>
  \<^bold>\<open>FileFerry: a verification development\<close>

  FileFerry is an HTTP service that copies files between a local directory and an S3-compatible
  bucket. A request passes the layers of \<open>src/router.rs\<close> (access log, security headers, trace
  context, body limit, timeout, bearer-token gate) to one of five handlers; \<open>GET /v1/files\<close> lists
  a backend page by page, \<open>POST /v1/files/copy\<close> streams a file from one backend to the other
  under a byte cap and an inactivity budget. \<open>src/main.rs\<close> loads the configuration, wires the
  backends and serves until a signal; \<open>fileferry doctor\<close> checks a configuration instead.

  \<^bold>\<open>The state.\<close> \<open>world\<close> is everything a request can read or change: the file system (\<open>fsys\<close>), the
  state of the storage service (a type parameter \<open>'b\<close>), the log, a clock tick and the two
  counters of the trace-id generators. Operations take the world and return it; a fallible one
  returns \<open>FerryError + 'a\<close> (\<open>Inl\<close> the error); one that may run for ever returns an option. A Rust
  \<open>str\<close> is the list of its UTF-8 bytes, \<open>u64\<close> and \<open>u16\<close> are words, so counters wrap as the code's do.

  \<^bold>\<open>What is not under src/.\<close> Third-party crates and the system enter as the fields of one record
  \<open>externs\<close> (theory \<open>Externs\<close>): tokio's copy and files, \<open>tokio-io-timeout\<close>, SHA-256, the constant-time
  comparison, header parsing, axum's extractors, deadline and choice of fallback, the AWS SDK, and what other
  processes do to the file system between two system calls (\<open>x_env\<close>). What a theorem relies on
  is a named predicate on that record (\<open>io_copy_ok\<close>, \<open>timeout_reader_ok\<close>, \<open>file_reader_ok\<close>, \<open>object_store_ok\<close>,
  \<open>lists_ok\<close>, \<open>ct_eq_ok\<close>, \<open>header_values_ok\<close>, \<open>quiet_env\<close>, \<open>readdir_ok\<close>, \<open>env_evolves\<close>,
  \<open>env_inside\<close>, \<open>gets_ok\<close>, \<open>no_failures\<close>, \<open>no_deadline\<close> and, where a deadline may pass, \<open>deadline_rel\<close> and \<open>deadlines_ok\<close>). \<open>Demo\<close> has one
  concrete instance that satisfies all of them together; the witnesses evaluate it.

  \<^bold>\<open>The model, in the order of the code\<close>

  \<^item> \<open>Prelude\<close>: the string functions of the standard library (prefixes, splitting, UTF-8, trimming, digits).
  \<^item> \<open>Model\<close> (\<open>src/model.rs\<close>): the wire data and its JSON. \<open>Error\<close> (\<open>src/error.rs\<close>): the errors, their status,
    code and response, clipping. \<open>Validate\<close> (\<open>src/validate.rs\<close>): the path validator.
  \<^item> \<open>RustPath\<close>, \<open>Kernel\<close>: \<open>std::path\<close> and the system calls behind \<open>std::fs\<close>: a tree of nodes, resolution
    with links, \<open>open\<close> with \<open>O_NOFOLLOW\<close>, \<open>mkdir\<close>, \<open>readdir\<close>, and an oracle for every other refusal.
  \<^item> \<open>Backend\<close> (\<open>src/backend/mod.rs\<close>): the trait as a record of operations; \<open>LimitedReader\<close> poll by poll, drained by
    \<open>drain\<close>, whose measure is the number of bytes and events left; \<open>stream_copy\<close>.
  \<^item> \<open>FsBackend\<close>, \<open>Rfc3339\<close> (\<open>src/backend/fs.rs\<close>): every operation call by call, with interference between the calls.
  \<^item> \<open>S3Backend\<close> (\<open>src/backend/s3.rs\<close>, \<open>src/backend/offline.rs\<close>): keys, the page loop as a partial function, reads, uploads
    through a temporary file; the offline stub.
  \<^item> \<open>Config\<close> (\<open>src/config.rs\<close>), \<open>BootWarnings\<close> (\<open>src/boot_warnings.rs\<close>, \<open>src/diagnose.rs\<close>, \<open>src/doctor.rs\<close>).
  \<^item> \<open>Middleware\<close> (\<open>src/auth.rs\<close>, \<open>src/security_headers.rs\<close>, \<open>src/trace_headers.rs\<close>, \<open>src/access_log.rs\<close>), \<open>Router\<close>
    (\<open>src/extract.rs\<close>, \<open>src/router.rs\<close>), \<open>Startup\<close> (\<open>src/main.rs\<close>, \<open>src/shutdown.rs\<close>).
  \<^item> \<open>Shutdown\<close> (\<open>axum::serve\<close> with \<open>shutdown_signal\<close> in \<open>src/main.rs\<close>): the running server as a step relation; requests arrive and are
    answered in any order, a signal closes the listener, the server stops once it is drained. Concurrency is rely and
    guarantee: a request runs under any interference that \<open>allowed\<close> admits (the other requests are part of it), between the
    answers the stores change by \<open>rely\<close>, and a handler its deadline cuts short leaves what some run of it does (\<open>cut_short\<close>).

  \<^bold>\<open>The interfaces\<close>

  \<^item> \<open>Interfaces\<close>: the locales \<open>source\<close>, \<open>sink\<close>, \<open>atomic_sink\<close>, \<open>transfer\<close>, \<open>atomic_transfer\<close>: what the copy loop
    relies on of its two ends, and the exactness of a copy proved once. \<open>FsFacts\<close> and \<open>S3Facts\<close> interpret
    the ends, \<open>Copy\<close> both directions.
  \<^item> \<open>Listing\<close>: the locale \<open>listing\<close>, the contract of \<open>Backend::list\<close>, and the client that follows \<open>nextCursor\<close>;
    interpreted in \<open>FsListing\<close> and \<open>S3Listing\<close>.
  \<^item> \<open>Service\<close>: the locale \<open>handler_relation\<close>, a relation on worlds lifted from the backends through the
    routes; interpreted for the log. \<open>ServerProperties\<close> extends it to \<open>store_relation\<close>, lifted to whole requests
    there and to the runs of the server in \<open>Shutdown\<close>; interpreted as \<open>bucket\<close> there, as \<open>tree\<close> (nothing is lost) and
    \<open>inside\<close> (nothing outside the data directory changes) in \<open>FsInvariant\<close>.

  \<^bold>\<open>What is shown\<close>

  \<^item> Copies (\<open>Copy\<close>, \<open>Download\<close>, \<open>Backend\<close>): a copy answered 204 has stored exactly the source's bytes, within the cap, and is
    answered 204 when nothing outside the program fails; a failed
    upload changes nothing; a failed download leaves at most a prefix at the destination and nothing elsewhere.
  \<^item> The gate, the headers, the log (\<open>Service\<close>), and the life of a server (\<open>ServerProperties\<close>): when it starts, with what, that every request is
    answered once and logged once, and that it stops.
    \<open>Shutdown\<close>: the same accounting for every interleaving of requests, the drain after the signal, that serving one request
    after another is one of those runs, and that offline mode never reaches the bucket in any of them. \<open>Responses\<close>: the form of every response, by route, method, status and code.
  \<^item> The file system (\<open>FsProperties\<close>, on \<open>KernelFacts\<close> and \<open>FsFacts\<close>): read after write, links, absolute paths;
    \<open>Confinement\<close>: no operation on a validated path reads or changes anything outside the data directory, whatever
    other processes do inside it in between. \<open>FsInvariant\<close>: over every run of the server the tree stays well formed, loses nothing,
    and changes only below the data directory. The listings
    (\<open>FsListing\<close>, \<open>S3Listing\<close>): exactly the files, in order, in pages that add up. Keys and objects (\<open>S3Properties\<close>).
  \<^item> \<open>Calendar\<close>: the date arithmetic against the calendar advanced day by day. \<open>ConfigProperties\<close>: what a loaded
    configuration satisfies, when loading fails, that secrets are never shown, the warnings and the doctor.

  \<^bold>\<open>The model against the tests.\<close> \<open>UnitTests\<close> and \<open>FsUnitTests\<close> state the unit tests beside the sources as predicates of
  their names and show that each passes on the model. The tests about a library alone (an unknown YAML key, two SHA-256 prefixes that differ) and the one that
  raises a signal are left out.

  Where the code falls short of a comment or a document, a lemma shows it on a concrete input:
  \<open>dotdot_leaves_root\<close> and \<open>directory_link_is_followed\<close> (the second line of defence of \<open>resolve\<close>), \<open>cursor_refused\<close> (a
  \<open>nextCursor\<close> the server refuses), \<open>body_too_large_reports_zero\<close>, \<open>padded_token_locks_out\<close>, \<open>log_id_is_not_response_id\<close>, \<open>config_named_doctor\<close>, \<open>bare_failures\<close>,
  \<open>unknown_path_is_gated\<close> (an unknown path can be answered 401), \<open>trace_id_repeats\<close> and \<open>trace_id_zero\<close> (the generated trace ids).

  \<^bold>\<open>Bounds and fuel.\<close> \<open>follow_cursors\<close> takes the number of requests a client makes; the theorems hold for
  every number that is large enough for the files there are (\<open>length es < fuel * n\<close>). \<open>walk\<close> follows at most 40 links, as
  Linux does. \<open>drain\<close>, \<open>walk\<close> and \<open>create_dir_all\<close> end by a measure; \<open>s3_list_pages\<close> is partial and shown to
  return for every service whose truncated pages make progress.

  \<^bold>\<open>Not modelled.\<close> The formatting of logs and \<open>TraceLayer\<close>'s own events, the decoding of YAML, JSON and query
  strings (serde's and axum's, parameters), TCP and HTTP framing, hard links and permissions (folded into the
  oracle), and the interleaving of two handlers step by step: a request is one step of the server, run under every
  interference the theorem admits between its system calls, which covers what another request does there when that is
  within the same relation. The two lookups of \<open>resolve\<close> and the \<open>mkdir\<close>s of one \<open>create_dir_all\<close> are taken together, and so are
  the clock and the counter of one generated id.
  \<open>src/lib.rs\<close> only declares modules; the accessors of \<open>S3Backend\<close> and \<open>FsBackend\<close> are the selectors of their records.
\<close>

end
